(* ===== verification/Ursus_Prelude.thy ===== *)
theory Ursus_Prelude
  imports Main "HOL-Library.Word" "HOL-Library.State_Monad"
begin

text \<open>
  Shared vocabulary of the development: bytes, error numbers, little-endian and
  big-endian fields of byte buffers, decimal printing, and a small calculus for
  programs in the state monad.  Two judgements are used throughout:
  \<^item> \<open>wp m Q s\<close>: running \<open>m\<close> from \<open>s\<close> ends with a result and a state that satisfy \<open>Q\<close>;
  \<^item> \<open>keeps f m\<close>: no run of \<open>m\<close> changes the part \<open>f\<close> of the state.
  The rules of the first are rewrite rules, those of the second are introduction
  rules collected in \<open>keeps_intros\<close>.
\<close>

unbundle bit_operations_syntax

named_theorems keeps_intros

section \<open>Types and error numbers\<close>

type_synonym byte = "8 word"
type_synonym bytes = "8 word list"

abbreviation (input) EPERM :: int where "EPERM \<equiv> 1"
abbreviation (input) ENOENT :: int where "ENOENT \<equiv> 2"
abbreviation (input) EIO :: int where "EIO \<equiv> 5"
abbreviation (input) ENOEXEC :: int where "ENOEXEC \<equiv> 8"
abbreviation (input) EBADF :: int where "EBADF \<equiv> 9"
abbreviation (input) ENOMEM :: int where "ENOMEM \<equiv> 12"
abbreviation (input) EBUSY :: int where "EBUSY \<equiv> 16"
abbreviation (input) EEXIST :: int where "EEXIST \<equiv> 17"
abbreviation (input) EXDEV :: int where "EXDEV \<equiv> 18"
abbreviation (input) ENODEV :: int where "ENODEV \<equiv> 19"
abbreviation (input) EINVAL :: int where "EINVAL \<equiv> 22"
abbreviation (input) ENFILE :: int where "ENFILE \<equiv> 23"
abbreviation (input) EFBIG :: int where "EFBIG \<equiv> 27"
abbreviation (input) ENOSPC :: int where "ENOSPC \<equiv> 28"
abbreviation (input) EROFS :: int where "EROFS \<equiv> 30"
abbreviation (input) ERANGE :: int where "ERANGE \<equiv> 34"
abbreviation (input) ENAMETOOLONG :: int where "ENAMETOOLONG \<equiv> 36"
abbreviation (input) EBADMSG :: int where "EBADMSG \<equiv> 74"
abbreviation (input) EOVERFLOW :: int where "EOVERFLOW \<equiv> 75"
abbreviation (input) EUCLEAN :: int where "EUCLEAN \<equiv> 117"

text \<open>The results of console commands.\<close>

definition CMD_RET_SUCCESS :: int where "CMD_RET_SUCCESS = 0"
definition CMD_RET_FAILURE :: int where "CMD_RET_FAILURE = 1"
definition CMD_RET_USAGE :: int where "CMD_RET_USAGE = - 1"

section \<open>Fields of byte buffers\<close>

definition slice :: "nat \<Rightarrow> nat \<Rightarrow> 'a list \<Rightarrow> 'a list" where
  "slice off n xs = take n (drop off xs)"

fun le_nat :: "bytes \<Rightarrow> nat" where
  "le_nat [] = 0"
| "le_nat (b # bs) = unat b + 256 * le_nat bs"

definition le_get :: "nat \<Rightarrow> nat \<Rightarrow> bytes \<Rightarrow> nat" where
  "le_get n off buf = le_nat (slice off n buf)"

definition be_get :: "nat \<Rightarrow> nat \<Rightarrow> bytes \<Rightarrow> nat" where
  "be_get n off buf = le_nat (rev (slice off n buf))"

text \<open>The characters of a C string literal as bytes.\<close>

definition str_bytes :: "string \<Rightarrow> bytes" where
  "str_bytes s = map (\<lambda>c. word_of_nat (of_char c)) s"

text \<open>Decimal printing, as \<open>%u\<close> and \<open>%d\<close> do it.\<close>

fun dec_digits :: "nat \<Rightarrow> string" where
  "dec_digits n =
     (if n < 10 then [char_of (48 + n)]
      else dec_digits (n div 10) @ [char_of (48 + n mod 10)])"

declare dec_digits.simps [simp del]

definition dec_int :: "int \<Rightarrow> string" where
  "dec_int i = (if i < 0 then ''-'' @ dec_digits (nat (- i)) else dec_digits (nat i))"

lemma length_slice [simp]: "length (slice off n xs) = min n (length xs - off)"
  by (simp add: slice_def)

lemma slice_0_all [simp]: "length xs \<le> n \<Longrightarrow> slice 0 n xs = xs"
  by (simp add: slice_def)

lemma nth_slice: "i < n \<Longrightarrow> off + i < length xs \<Longrightarrow> slice off n xs ! i = xs ! (off + i)"
  by (simp add: slice_def)

lemma le_nat_bound: "le_nat bs < 256 ^ length bs"
proof (induction bs)
  case (Cons b bs)
  have "unat b < 2 ^ LENGTH(8)"
    by (rule unsigned_less)
  then have "unat b < 256"
    by simp
  moreover have "Suc (le_nat bs) \<le> 256 ^ length bs"
    using Cons.IH by simp
  then have "256 * Suc (le_nat bs) \<le> 256 * 256 ^ length bs"
    by (rule mult_le_mono2)
  ultimately show ?case by simp
qed simp

lemma le_get_bound: "le_get n off buf < 256 ^ n"
proof -
  have "le_get n off buf < 256 ^ length (slice off n buf)"
    unfolding le_get_def by (rule le_nat_bound)
  also have "\<dots> \<le> 256 ^ n"
    by (rule power_increasing) simp_all
  finally show ?thesis .
qed

lemma fold_to_one [simp]: "((if b then 1 else 0 :: int) = 0) = (\<not> b)"
  by simp

section \<open>Programs in the state monad\<close>

definition gets :: "('s \<Rightarrow> 'a) \<Rightarrow> ('s, 'a) state" where
  "gets f = State (\<lambda>s. (f s, s))"

definition modify :: "('s \<Rightarrow> 's) \<Rightarrow> ('s, unit) state" where
  "modify f = State (\<lambda>s. ((), f s))"

abbreviation ret :: "'a \<Rightarrow> ('s, 'a) state" where
  "ret \<equiv> State_Monad.return"

lemma run_gets [simp]: "run_state (gets f) s = (f s, s)"
  by (simp add: gets_def)

lemma run_modify [simp]: "run_state (modify f) s = ((), f s)"
  by (simp add: modify_def)

text \<open>Both branches of a C conditional statement whose value is not used.\<close>

definition when_m :: "bool \<Rightarrow> ('s, unit) state \<Rightarrow> ('s, unit) state" where
  "when_m b m = (if b then m else ret ())"

definition wp :: "('s, 'a) state \<Rightarrow> ('a \<Rightarrow> 's \<Rightarrow> bool) \<Rightarrow> 's \<Rightarrow> bool" where
  "wp m Q s = (case run_state m s of (a, s') \<Rightarrow> Q a s')"

lemma wp_return [simp]: "wp (ret a) Q = Q a"
  by (simp add: wp_def fun_eq_iff)

lemma wp_bind [simp]: "wp (State_Monad.bind m f) Q = wp m (\<lambda>a. wp (f a) Q)"
  by (simp add: wp_def fun_eq_iff split: prod.splits)

lemma wp_gets [simp]: "wp (gets f) Q = (\<lambda>s. Q (f s) s)"
  by (simp add: wp_def fun_eq_iff)

lemma wp_modify [simp]: "wp (modify f) Q = (\<lambda>s. Q () (f s))"
  by (simp add: wp_def fun_eq_iff)

lemma wp_if [simp]: "wp (if b then m else n) Q = (if b then wp m Q else wp n Q)"
  by simp

lemma wp_when [simp]: "wp (when_m b m) Q = (if b then wp m Q else Q ())"
  by (simp add: when_m_def)

lemma wp_case_option [simp]:
  "wp (case x of None \<Rightarrow> m | Some a \<Rightarrow> f a) Q =
   (case x of None \<Rightarrow> wp m Q | Some a \<Rightarrow> wp (f a) Q)"
  by (simp split: option.split)

lemma wp_case_prod [simp]:
  "wp (case p of (a, b) \<Rightarrow> f a b) Q = (case p of (a, b) \<Rightarrow> wp (f a b) Q)"
  by (simp split: prod.split)

lemma wp_case_sum [simp]:
  "wp (case x of Inl a \<Rightarrow> g a | Inr b \<Rightarrow> h b) Q = (case x of Inl a \<Rightarrow> wp (g a) Q | Inr b \<Rightarrow> wp (h b) Q)"
  by (simp split: sum.split)

lemma wp_mono: "wp m P s \<Longrightarrow> (\<And>a s'. P a s' \<Longrightarrow> Q a s') \<Longrightarrow> wp m Q s"
  by (auto simp: wp_def split: prod.splits)

lemma wp_conj: "wp m P s \<Longrightarrow> wp m Q s \<Longrightarrow> wp m (\<lambda>a s'. P a s' \<and> Q a s') s"
  by (auto simp: wp_def split: prod.splits)

lemma wp_True [simp]: "wp m (\<lambda>_ _. True) = (\<lambda>_. True)"
  by (simp add: wp_def fun_eq_iff split: prod.split)

lemma wp_bindI:
  "wp m P s \<Longrightarrow> (\<And>a s'. P a s' \<Longrightarrow> wp (f a) Q s') \<Longrightarrow> wp (State_Monad.bind m f) Q s"
  unfolding wp_bind by (rule wp_mono)

lemma wp_bind_any: "(\<And>a s'. wp (k a) Q s') \<Longrightarrow> wp (State_Monad.bind m k) Q s"
  by (rule wp_bindI [of _ "\<lambda>_ _. True"]) simp_all

lemma wp_run: "wp m Q s \<Longrightarrow> run_state m s = (a, s') \<Longrightarrow> Q a s'"
  by (simp add: wp_def)

lemma wpI: "(\<And>a s'. run_state m s = (a, s') \<Longrightarrow> Q a s') \<Longrightarrow> wp m Q s"
  by (auto simp: wp_def split: prod.splits)

definition keeps :: "('s \<Rightarrow> 'v) \<Rightarrow> ('s, 'a) state \<Rightarrow> bool" where
  "keeps f m = (\<forall>s. f (snd (run_state m s)) = f s)"

lemma keepsD: "keeps f m \<Longrightarrow> run_state m s = (a, s') \<Longrightarrow> f s' = f s"
  by (metis keeps_def snd_conv)

lemma keeps_snd: "keeps f m \<Longrightarrow> f (snd (run_state m s)) = f s"
  by (simp add: keeps_def)

lemma keeps_wp: "keeps f m \<Longrightarrow> wp m (\<lambda>_ s'. f s' = f s) s"
  by (auto intro: wpI dest: keepsD)

lemma keeps_return [keeps_intros]: "keeps f (ret a)"
  by (simp add: keeps_def)

lemma keeps_gets [keeps_intros]: "keeps f (gets g)"
  by (simp add: keeps_def)

lemma keeps_modify [keeps_intros]: "(\<And>s. f (g s) = f s) \<Longrightarrow> keeps f (modify g)"
  by (simp add: keeps_def)

lemma keeps_bind [keeps_intros]:
  "keeps f m \<Longrightarrow> (\<And>a. keeps f (g a)) \<Longrightarrow> keeps f (State_Monad.bind m g)"
  unfolding keeps_def run_state_bind
  by (auto simp: split_beta)

lemma keeps_if [keeps_intros]:
  "(b \<Longrightarrow> keeps f m) \<Longrightarrow> (\<not> b \<Longrightarrow> keeps f n) \<Longrightarrow> keeps f (if b then m else n)"
  by simp

lemma keeps_when [keeps_intros]: "(b \<Longrightarrow> keeps f m) \<Longrightarrow> keeps f (when_m b m)"
  by (simp add: when_m_def keeps_return)

lemma keeps_case_option [keeps_intros]:
  "(x = None \<Longrightarrow> keeps f m) \<Longrightarrow> (\<And>a. x = Some a \<Longrightarrow> keeps f (g a)) \<Longrightarrow>
   keeps f (case x of None \<Rightarrow> m | Some a \<Rightarrow> g a)"
  by (simp split: option.split)

lemma keeps_case_prod [keeps_intros]:
  "(\<And>a b. p = (a, b) \<Longrightarrow> keeps f (g a b)) \<Longrightarrow> keeps f (case p of (a, b) \<Rightarrow> g a b)"
  by (simp split: prod.split)

lemma keeps_case_sum [keeps_intros]:
  "(\<And>a. x = Inl a \<Longrightarrow> keeps f (g a)) \<Longrightarrow> (\<And>b. x = Inr b \<Longrightarrow> keeps f (h b)) \<Longrightarrow>
   keeps f (case x of Inl a \<Rightarrow> g a | Inr b \<Rightarrow> h b)"
  by (simp split: sum.split)

lemma keeps_Let [keeps_intros]: "keeps f (g x) \<Longrightarrow> keeps f (Let x g)"
  by simp

text \<open>
  \<open>ens A R m\<close>: from every state in \<open>A\<close>, running \<open>m\<close> ends with a result and a state in \<open>R\<close>.  The
  rules follow the last statement of a program, all others keeping \<open>A\<close>.
\<close>

definition ens :: "('s \<Rightarrow> bool) \<Rightarrow> ('a \<Rightarrow> 's \<Rightarrow> bool) \<Rightarrow> ('s, 'a) state \<Rightarrow> bool" where
  "ens A R m = (\<forall>s. A s \<longrightarrow> wp m R s)"

lemma ensD: "ens A R m \<Longrightarrow> A s \<Longrightarrow> wp m R s"
  by (simp add: ens_def)

lemma ensI: "(\<And>s. A s \<Longrightarrow> wp m R s) \<Longrightarrow> ens A R m"
  by (simp add: ens_def)

lemma ens_return: "(\<And>s. A s \<Longrightarrow> R a s) \<Longrightarrow> ens A R (ret a)"
  by (simp add: ens_def)

lemma ens_bind:
  assumes "keeps A m" "\<And>a. ens A R (k a)"
  shows "ens A R (State_Monad.bind m k)"
proof (rule ensI)
  fix s assume "A s"
  then show "wp (State_Monad.bind m k) R s"
    using assms by (intro wp_bindI [OF keeps_wp [OF assms(1)]]) (simp add: ens_def)
qed

lemma ens_if: "(b \<Longrightarrow> ens A R m) \<Longrightarrow> (\<not> b \<Longrightarrow> ens A R n) \<Longrightarrow> ens A R (if b then m else n)"
  by simp

lemma ens_case_option:
  "(x = None \<Longrightarrow> ens A R m) \<Longrightarrow> (\<And>a. x = Some a \<Longrightarrow> ens A R (g a)) \<Longrightarrow>
   ens A R (case x of None \<Rightarrow> m | Some a \<Rightarrow> g a)"
  by (simp split: option.split)

lemma ens_case_prod:
  "(\<And>a b. p = (a, b) \<Longrightarrow> ens A R (g a b)) \<Longrightarrow> ens A R (case p of (a, b) \<Rightarrow> g a b)"
  by (simp split: prod.split)

lemma ens_case_sum:
  "(\<And>a. x = Inl a \<Longrightarrow> ens A R (g a)) \<Longrightarrow> (\<And>b. x = Inr b \<Longrightarrow> ens A R (h b)) \<Longrightarrow>
   ens A R (case x of Inl a \<Rightarrow> g a | Inr b \<Rightarrow> h b)"
  by (simp split: sum.split)

lemma ens_Let: "ens A R (g x) \<Longrightarrow> ens A R (Let x g)"
  by simp

lemmas ens_intros = ens_if ens_case_option ens_case_prod ens_case_sum ens_Let

lemma wp_bind_keeps:
  "keeps f m \<Longrightarrow> (\<And>a s'. f s' = f s \<Longrightarrow> wp (k a) Q s') \<Longrightarrow> wp (State_Monad.bind m k) Q s"
  by (rule wp_bindI [OF keeps_wp])

lemma keeps_pair: "keeps f m \<Longrightarrow> keeps g m \<Longrightarrow> keeps (\<lambda>s. (f s, g s)) m"
  by (simp add: keeps_def)

end
