(* ===== verification/Safe_Gpio.thy ===== *)
theory Safe_Gpio
  imports Ursus_Prelude
begin

text \<open>
  The GPIO bridge of \<open>drivers/gpio/ursus_an7581_safe_gpio.c\<close>.  The controller is a
  file of 32-bit registers together with the sequence of the writes made to it.
  The section of lemmas shows that the driver drives the three front-panel lines
  and no other line, whatever calls the GPIO uclass makes.
\<close>

section \<open>Registers\<close>

record gpio_hw =
  gregs :: "nat \<Rightarrow> 32 word"
  gwrites :: "(nat \<times> 32 word) list"

definition URSUS_AN7581_GPIO_COUNT :: nat where "URSUS_AN7581_GPIO_COUNT = 50"
definition URSUS_AN7581_GPIO_RESET :: nat where "URSUS_AN7581_GPIO_RESET = 0"
definition URSUS_AN7581_GPIO_STATUS_RED :: nat where "URSUS_AN7581_GPIO_STATUS_RED = 19"
definition URSUS_AN7581_GPIO_USB2 :: nat where "URSUS_AN7581_GPIO_USB2 = 34"
definition URSUS_AN7581_GPIO_USB1 :: nat where "URSUS_AN7581_GPIO_USB1 = 35"

lemmas gpio_consts =
  URSUS_AN7581_GPIO_COUNT_def URSUS_AN7581_GPIO_RESET_def
  URSUS_AN7581_GPIO_STATUS_RED_def URSUS_AN7581_GPIO_USB2_def URSUS_AN7581_GPIO_USB1_def

definition data_regs :: "nat list" where "data_regs = [0x4, 0x70]"
definition oe_regs :: "nat list" where "oe_regs = [0x14, 0x78]"
definition dir_regs :: "nat list" where "dir_regs = [0x0, 0x20, 0x60, 0x64]"

definition readl :: "nat \<Rightarrow> (gpio_hw, 32 word) state" where
  "readl r = gets (\<lambda>hw. gregs hw r)"

definition writel :: "32 word \<Rightarrow> nat \<Rightarrow> (gpio_hw, unit) state" where
  "writel v r = modify (\<lambda>hw. hw\<lparr>gregs := (gregs hw)(r := v), gwrites := gwrites hw @ [(r, v)]\<rparr>)"

definition BIT :: "nat \<Rightarrow> 32 word" where
  "BIT n = push_bit n 1"

section \<open>Driver operations\<close>

definition ursus_gpio_valid :: "nat \<Rightarrow> bool" where
  "ursus_gpio_valid gpio = (gpio < URSUS_AN7581_GPIO_COUNT)"

definition ursus_gpio_safe_output :: "nat \<Rightarrow> bool" where
  "ursus_gpio_safe_output gpio =
     (gpio = URSUS_AN7581_GPIO_STATUS_RED \<or> gpio = URSUS_AN7581_GPIO_USB1 \<or>
      gpio = URSUS_AN7581_GPIO_USB2)"

definition ursus_gpio_raw_get :: "nat \<Rightarrow> (gpio_hw, int) state" where
  "ursus_gpio_raw_get gpio =
     (if \<not> ursus_gpio_valid gpio then ret (- EINVAL)
      else do {
        val \<leftarrow> readl (data_regs ! (gpio div 32));
        ret (if val AND BIT (gpio mod 32) \<noteq> 0 then 1 else 0)
      })"

definition ursus_gpio_raw_set_any :: "nat \<Rightarrow> int \<Rightarrow> (gpio_hw, int) state" where
  "ursus_gpio_raw_set_any gpio val' =
     (if \<not> ursus_gpio_valid gpio then ret (- EINVAL)
      else do {
        val \<leftarrow> readl (data_regs ! (gpio div 32));
        writel (if val' \<noteq> 0 then val OR BIT (gpio mod 32) else val AND NOT (BIT (gpio mod 32)))
               (data_regs ! (gpio div 32));
        ret 0
      })"

definition ursus_gpio_raw_set :: "nat \<Rightarrow> int \<Rightarrow> (gpio_hw, int) state" where
  "ursus_gpio_raw_set gpio val' =
     (if \<not> ursus_gpio_safe_output gpio then ret (- EPERM)
      else ursus_gpio_raw_set_any gpio val')"

definition GPIOF_INPUT :: int where "GPIOF_INPUT = 0"
definition GPIOF_OUTPUT :: int where "GPIOF_OUTPUT = 1"

definition ursus_gpio_get_direction_raw :: "nat \<Rightarrow> (gpio_hw, int) state" where
  "ursus_gpio_get_direction_raw gpio =
     (if \<not> ursus_gpio_valid gpio then ret (- EINVAL)
      else do {
        val \<leftarrow> readl (dir_regs ! (gpio div 16));
        let field = drop_bit (2 * (gpio mod 16)) val AND 3;
        ret (if field > 1 then - EINVAL else if field \<noteq> 0 then GPIOF_OUTPUT else GPIOF_INPUT)
      })"

definition ursus_gpio_set_direction_raw :: "nat \<Rightarrow> bool \<Rightarrow> (gpio_hw, int) state" where
  "ursus_gpio_set_direction_raw gpio input =
     (if \<not> ursus_gpio_valid gpio then ret (- EINVAL)
      else if input \<and> gpio \<noteq> URSUS_AN7581_GPIO_RESET then ret (- EPERM)
      else if \<not> input \<and> \<not> ursus_gpio_safe_output gpio then ret (- EPERM)
      else do {
        oe \<leftarrow> readl (oe_regs ! (gpio div 32));
        writel (if input then oe AND NOT (BIT (gpio mod 32)) else oe OR BIT (gpio mod 32))
               (oe_regs ! (gpio div 32));
        val \<leftarrow> readl (dir_regs ! (gpio div 16));
        let cleared = val AND NOT (push_bit (2 * (gpio mod 16)) 3);
        writel (if \<not> input then cleared OR push_bit (2 * (gpio mod 16)) 1 else cleared)
               (dir_regs ! (gpio div 16));
        ret 0
      })"

definition ursus_gpio_direction_input :: "nat \<Rightarrow> (gpio_hw, int) state" where
  "ursus_gpio_direction_input offset =
     (if offset = URSUS_AN7581_GPIO_RESET then ret 0 else ret (- EPERM))"

definition ursus_gpio_direction_output :: "nat \<Rightarrow> int \<Rightarrow> (gpio_hw, int) state" where
  "ursus_gpio_direction_output offset val' =
     (if \<not> ursus_gpio_safe_output offset then ret (- EPERM)
      else do {
        r \<leftarrow> ursus_gpio_raw_set offset val';
        if r \<noteq> 0 then ret r else ursus_gpio_set_direction_raw offset False
      })"

definition ursus_gpio_get_value :: "nat \<Rightarrow> (gpio_hw, int) state" where
  "ursus_gpio_get_value offset = ursus_gpio_raw_get offset"

definition ursus_gpio_set_value :: "nat \<Rightarrow> int \<Rightarrow> (gpio_hw, int) state" where
  "ursus_gpio_set_value offset val' = ursus_gpio_raw_set offset val'"

definition ursus_gpio_get_function :: "nat \<Rightarrow> (gpio_hw, int) state" where
  "ursus_gpio_get_function offset =
     (if offset = URSUS_AN7581_GPIO_RESET then ret GPIOF_INPUT
      else ursus_gpio_get_direction_raw offset)"

text \<open>The operation table the GPIO uclass calls through, and a session of such calls.\<close>

datatype gpio_call =
    Direction_input nat
  | Direction_output nat int
  | Get_value nat
  | Set_value nat int
  | Get_function nat

fun ursus_gpio_ops :: "gpio_call \<Rightarrow> (gpio_hw, int) state" where
  "ursus_gpio_ops (Direction_input n) = ursus_gpio_direction_input n"
| "ursus_gpio_ops (Direction_output n v) = ursus_gpio_direction_output n v"
| "ursus_gpio_ops (Get_value n) = ursus_gpio_get_value n"
| "ursus_gpio_ops (Set_value n v) = ursus_gpio_set_value n v"
| "ursus_gpio_ops (Get_function n) = ursus_gpio_get_function n"

fun gpio_session :: "gpio_call list \<Rightarrow> gpio_hw \<Rightarrow> gpio_hw" where
  "gpio_session [] hw = hw"
| "gpio_session (c # cs) hw = gpio_session cs (snd (run_state (ursus_gpio_ops c) hw))"

text \<open>What the outside sees of one line: level, output enable and direction field.\<close>

definition gpio_line :: "gpio_hw \<Rightarrow> nat \<Rightarrow> bool \<times> bool \<times> bool \<times> bool" where
  "gpio_line hw g =
     (bit (gregs hw (data_regs ! (g div 32))) (g mod 32),
      bit (gregs hw (oe_regs ! (g div 32))) (g mod 32),
      bit (gregs hw (dir_regs ! (g div 16))) (2 * (g mod 16)),
      bit (gregs hw (dir_regs ! (g div 16))) (2 * (g mod 16) + 1))"

section \<open>Lemmas\<close>

lemma run_readl [simp]: "run_state (readl r) hw = (gregs hw r, hw)"
  by (simp add: readl_def)

lemma run_writel [simp]:
  "run_state (writel v r) hw =
   ((), hw\<lparr>gregs := (gregs hw)(r := v), gwrites := gwrites hw @ [(r, v)]\<rparr>)"
  by (simp add: writel_def)

lemma keeps_readl [keeps_intros]: "keeps f (readl r)"
  by (simp add: readl_def keeps_gets)

lemma gpio_bank_cases: "g < 50 \<Longrightarrow> g div 32 = 0 \<or> g div 32 = (1::nat)"
  by auto

lemma gpio_dir_cases: "g < 50 \<Longrightarrow> g div 16 = 0 \<or> g div 16 = 1 \<or> g div 16 = 2 \<or> g div 16 = (3::nat)"
  by auto

lemma bit_three_iff: "bit (3 :: 32 word) n = (n < 2)"
proof -
  have three: "(3 :: 32 word) = mask 2"
    by (simp add: mask_eq_exp_minus_1)
  show ?thesis
    unfolding three bit_mask_iff by auto
qed

lemma bit_BIT: "bit (BIT m) n = (n = m \<and> n < 32)"
  unfolding BIT_def bit_push_bit_iff bit_1_iff by auto

lemma bit_field_one: "bit (push_bit m 1 :: 32 word) n = (n = m \<and> n < 32)"
  unfolding bit_push_bit_iff bit_1_iff by auto

lemma bit_field_mask: "bit (push_bit m 3 :: 32 word) n = (m \<le> n \<and> n < m + 2 \<and> n < 32)"
  unfolding bit_push_bit_iff bit_three_iff by auto

lemma bit_below_32: "bit (w :: 32 word) n \<Longrightarrow> n < 32"
  using bit_imp_le_length [of w n] by simp

lemma bit_set_other [simp]: "n \<noteq> m \<Longrightarrow> bit (w OR BIT m) n = bit w n"
  by (simp add: bit_or_iff bit_BIT)

lemma bit_clear_other [simp]: "n \<noteq> m \<Longrightarrow> bit (w AND NOT (BIT m)) n = bit w n"
  by (auto simp add: bit_and_iff bit_not_iff bit_BIT dest: bit_below_32)

lemma bit_set_same [simp]: "m < 32 \<Longrightarrow> bit (w OR BIT m) m"
  by (simp add: bit_or_iff bit_BIT)

lemma bit_clear_same [simp]: "m < 32 \<Longrightarrow> \<not> bit (w AND NOT (BIT m)) m"
  by (simp add: bit_and_iff bit_not_iff bit_BIT)

definition set_field :: "bool \<Rightarrow> nat \<Rightarrow> 32 word \<Rightarrow> 32 word" where
  "set_field on m w =
     (if on then w AND NOT (push_bit m 3) OR push_bit m 1 else w AND NOT (push_bit m 3))"

lemma bit_set_field_other: "n < m \<or> m + 2 \<le> n \<Longrightarrow> bit (set_field on m w) n = bit w n"
  unfolding set_field_def
  by (auto simp only: bit_and_iff bit_or_iff bit_not_iff bit_field_mask bit_field_one split: if_splits
           intro: bit_imp_possible_bit)

lemma bit_set_field_same:
  "m + 1 < 32 \<Longrightarrow> bit (set_field on m w) m = on"
  "m + 1 < 32 \<Longrightarrow> \<not> bit (set_field on m w) (m + 1)"
  unfolding set_field_def
  by (auto simp only: bit_and_iff bit_or_iff bit_not_iff bit_field_mask bit_field_one split: if_splits)

lemma same_bank_other_bit:
  "g \<noteq> s \<Longrightarrow> g div n = s div n \<Longrightarrow> g mod n \<noteq> s mod (n :: nat)"
  by (metis div_mult_mod_eq)

text \<open>The register numbers are pairwise different.\<close>

lemma less_2_cases_Suc: "(a :: nat) < 2 \<Longrightarrow> a = 0 \<or> a = Suc 0"
  by auto

lemma less_4_cases_Suc: "(a :: nat) < 4 \<Longrightarrow> a = 0 \<or> a = Suc 0 \<or> a = Suc (Suc 0) \<or> a = Suc (Suc (Suc 0))"
  by auto

lemma gpio_regs_differ:
  "a < 2 \<Longrightarrow> b < 2 \<Longrightarrow> data_regs ! a \<noteq> oe_regs ! b"
  "a < 2 \<Longrightarrow> b < 2 \<Longrightarrow> oe_regs ! a \<noteq> data_regs ! b"
  "a < 2 \<Longrightarrow> c < 4 \<Longrightarrow> data_regs ! a \<noteq> dir_regs ! c"
  "a < 2 \<Longrightarrow> c < 4 \<Longrightarrow> dir_regs ! c \<noteq> data_regs ! a"
  "a < 2 \<Longrightarrow> c < 4 \<Longrightarrow> oe_regs ! a \<noteq> dir_regs ! c"
  "a < 2 \<Longrightarrow> c < 4 \<Longrightarrow> dir_regs ! c \<noteq> oe_regs ! a"
  "a < 2 \<Longrightarrow> b < 2 \<Longrightarrow> (data_regs ! a = data_regs ! b) = (a = b)"
  "a < 2 \<Longrightarrow> b < 2 \<Longrightarrow> (oe_regs ! a = oe_regs ! b) = (a = b)"
  "c < 4 \<Longrightarrow> d < 4 \<Longrightarrow> (dir_regs ! c = dir_regs ! d) = (c = d)"
  by (auto simp: data_regs_def oe_regs_def dir_regs_def
           dest!: less_2_cases_Suc less_4_cases_Suc)

lemma gpio_bank_bounds: "g < 50 \<Longrightarrow> g div 32 < 2" "g < 50 \<Longrightarrow> g div 16 < (4::nat)"
  by auto

lemma run_raw_set_any:
  "s < 50 \<Longrightarrow> run_state (ursus_gpio_raw_set_any s v) hw =
   (0, let r = data_regs ! (s div 32);
           w = (if v \<noteq> 0 then gregs hw r OR BIT (s mod 32) else gregs hw r AND NOT (BIT (s mod 32)))
       in hw\<lparr>gregs := (gregs hw)(r := w), gwrites := gwrites hw @ [(r, w)]\<rparr>)"
  by (simp add: ursus_gpio_raw_set_any_def ursus_gpio_valid_def gpio_consts Let_def)

lemma run_set_direction_output:
  assumes "ursus_gpio_safe_output s"
  shows "run_state (ursus_gpio_set_direction_raw s False) hw =
   (0, let r = oe_regs ! (s div 32); w = gregs hw r OR BIT (s mod 32);
           d = dir_regs ! (s div 16); x = set_field True (2 * (s mod 16)) (gregs hw d)
       in hw\<lparr>gregs := (gregs hw)(r := w, d := x), gwrites := gwrites hw @ [(r, w), (d, x)]\<rparr>)"
proof -
  have s: "s < 50"
    using assms by (auto simp: ursus_gpio_safe_output_def gpio_consts)
  show ?thesis
    using assms s gpio_regs_differ(5,6) [OF gpio_bank_bounds [OF s]]
    by (simp add: ursus_gpio_set_direction_raw_def ursus_gpio_valid_def gpio_consts Let_def
                  set_field_def)
qed

lemma gpio_frame_set_any:
  assumes "g \<noteq> s" "g < 50" "s < 50"
  shows "gpio_line (snd (run_state (ursus_gpio_raw_set_any s v) hw)) g = gpio_line hw g"
  using assms same_bank_other_bit [OF assms(1), of 32]
  by (auto simp: run_raw_set_any gpio_line_def Let_def gpio_bank_bounds gpio_regs_differ)

lemma gpio_frame_set_direction:
  assumes "g \<noteq> s" "g < 50" "ursus_gpio_safe_output s"
  shows "gpio_line (snd (run_state (ursus_gpio_set_direction_raw s False) hw)) g = gpio_line hw g"
proof -
  have s: "s < 50"
    using assms(3) by (auto simp: ursus_gpio_safe_output_def gpio_consts)
  have "2 * (g mod 16) + 1 < 2 * (s mod 16) \<or> 2 * (s mod 16) + 2 \<le> 2 * (g mod 16)"
    if "g div 16 = s div 16"
    using same_bank_other_bit [OF assms(1) that] by linarith
  then show ?thesis
    using assms s same_bank_other_bit [OF assms(1), of 32]
    by (auto simp: run_set_direction_output gpio_line_def Let_def gpio_bank_bounds
             gpio_regs_differ bit_set_field_other)
qed

lemma gpio_reads_only:
  "snd (run_state (ursus_gpio_get_value n) hw) = hw"
  "snd (run_state (ursus_gpio_get_function n) hw) = hw"
  by (simp_all add: ursus_gpio_get_value_def ursus_gpio_raw_get_def ursus_gpio_get_function_def
        ursus_gpio_get_direction_raw_def Let_def del: One_nat_def)

lemma gpio_frame_call:
  assumes "\<not> ursus_gpio_safe_output g" "g < 50"
  shows "gpio_line (snd (run_state (ursus_gpio_ops c) hw)) g = gpio_line hw g"
proof -
  have set_frame: "gpio_line (snd (run_state (ursus_gpio_raw_set s v) hw)) g = gpio_line hw g" for s v
  proof (cases "ursus_gpio_safe_output s")
    case True
    then have "g \<noteq> s" "s < 50"
      using assms(1) by (auto simp: ursus_gpio_safe_output_def gpio_consts)
    with True assms(2) show ?thesis
      by (simp add: ursus_gpio_raw_set_def gpio_frame_set_any)
  qed (simp add: ursus_gpio_raw_set_def)
  show ?thesis
  proof (cases c)
    case (Direction_output s v)
    show ?thesis
    proof (cases "ursus_gpio_safe_output s")
      case True
      then have "g \<noteq> s"
        using assms(1) by auto
      with True set_frame [of s v] assms(2) Direction_output show ?thesis
        by (auto simp: ursus_gpio_direction_output_def gpio_frame_set_direction split: prod.split)
    qed (simp add: Direction_output ursus_gpio_direction_output_def)
  next
    case (Direction_input s)
    then show ?thesis by (simp add: ursus_gpio_direction_input_def)
  next
    case (Set_value s v)
    then show ?thesis by (simp add: ursus_gpio_set_value_def set_frame)
  qed (simp_all add: gpio_reads_only)
qed

section \<open>Properties\<close>

text \<open>
  C23: whatever sequence of calls the GPIO uclass makes, a line that is not one of the three
  front-panel outputs keeps its level, its output enable and its direction; in particular the
  reset button line 0 is never driven.
\<close>

theorem gpio_only_panel_lines:
  assumes "\<not> ursus_gpio_safe_output g" "ursus_gpio_valid g"
  shows "gpio_line (gpio_session cs hw) g = gpio_line hw g"
  using assms
  by (induction cs arbitrary: hw)
     (simp_all add: gpio_frame_call ursus_gpio_valid_def gpio_consts)

theorem gpio_only_panel_lines_witness:
  "gpio_line (gpio_session [Direction_output 19 1, Set_value 0 1, Direction_output 0 1, Set_value 34 0]
      \<lparr>gregs = (\<lambda>_. 0), gwrites = []\<rparr>) 0
   = gpio_line \<lparr>gregs = (\<lambda>_. 0), gwrites = []\<rparr> 0"
  by (rule gpio_only_panel_lines)
     (simp_all add: ursus_gpio_safe_output_def ursus_gpio_valid_def gpio_consts)

text \<open>
  Switching a front-panel line to output succeeds, programs the level before the output
  enable and the output enable before the direction field, and leaves the line driven at the
  requested level.
\<close>

theorem gpio_output_level_first:
  assumes "ursus_gpio_safe_output s"
  shows "wp (ursus_gpio_direction_output s v)
           (\<lambda>r hw'. r = 0
              \<and> map fst (gwrites hw') =
                  map fst (gwrites hw) @ [data_regs ! (s div 32), oe_regs ! (s div 32), dir_regs ! (s div 16)]
              \<and> gpio_line hw' s = (v \<noteq> 0, True, True, False)) hw"
proof -
  have s: "s < 50"
    using assms by (auto simp: ursus_gpio_safe_output_def gpio_consts)
  have bits: "s mod 32 < 32" "2 * (s mod 16) + 1 < 32"
    by linarith+
  show ?thesis
    using assms s bits
    by (simp add: wp_def ursus_gpio_direction_output_def ursus_gpio_raw_set_def run_raw_set_any
          run_set_direction_output Let_def gpio_line_def gpio_regs_differ gpio_bank_bounds
          bit_set_field_same [simplified])
qed

theorem gpio_output_level_first_witness:
  "wp (ursus_gpio_direction_output 34 1)
     (\<lambda>r hw'. r = 0 \<and> map fst (gwrites hw') = [data_regs ! 1, oe_regs ! 1, dir_regs ! 2]
        \<and> gpio_line hw' 34 = (True, True, True, False)) \<lparr>gregs = (\<lambda>_. 0), gwrites = []\<rparr>"
  using gpio_output_level_first [of 34 1 "\<lparr>gregs = (\<lambda>_. 0), gwrites = []\<rparr>"]
  by (simp add: ursus_gpio_safe_output_def gpio_consts)

end
