(* ===== verification/Machine.thy ===== *)
theory Machine
  imports Ursus_Prelude
begin

text \<open>
  The machine the boot loader runs on: RAM, the SPI NAND with its bad blocks and MTD devices,
  the UBI device that is attached, the persistent contents of the UBI region, the environment
  and the millisecond clock.

  Hardware and the layers below the modelled code (the NAND driver, the eraseblock association
  and wear-levelling layers of UBI, the heap) are an oracle: every such operation takes the next
  number \<open>tick\<close> and the oracle says whether it fails, what a write leaves on the medium even when
  it reports success, what a failed read leaves in its buffer and how much time has passed.
  Theorems quantify over all oracles, so they hold for every pattern of faults, and for power
  loss at any point, which is the oracle that lets every later operation fail.
  What is assumed of a successful read is the contract of an ECC-protected medium: it delivers
  the stored bytes.
\<close>

section \<open>MTD devices\<close>

datatype mtd_type = MTD_NORFLASH | MTD_NANDFLASH | MTD_MLCNANDFLASH | MTD_OTHER

record mtd_info =
  mtd_name :: string
  mtd_is_partition :: bool
  mtd_type :: mtd_type
  mtd_offset :: nat
  mtd_size :: nat
  erasesize :: nat
  writesize :: nat
  mtd_writeable :: bool

record mtd_partition =
  part_name :: string
  part_offset :: nat
  part_size :: nat

section \<open>UBI descriptions\<close>

datatype ubi_vol_type = UBI_DYNAMIC_VOLUME | UBI_STATIC_VOLUME

text \<open>
  A volume table record.  \<open>vr_crc_ok\<close> stands for the agreement of the stored CRC with the
  record; the code recomputes it whenever it changes a record.
\<close>

record ubi_vtbl_record =
  vr_reserved_pebs :: int
  vr_alignment :: int
  vr_data_pad :: int
  vr_vol_type :: nat
  vr_upd_marker :: nat
  vr_name_len :: nat
  vr_name :: string
  vr_flags :: nat
  vr_crc_ok :: bool

record ubi_volume =
  vol_id :: nat
  vol_type :: ubi_vol_type
  vol_name_len :: nat
  vol_name :: string
  alignment :: nat
  data_pad :: nat
  reserved_pebs :: nat
  usable_leb_size :: nat
  used_ebs :: nat
  last_eb_bytes :: nat
  used_bytes :: nat
  upd_marker :: bool
  updating :: bool
  corrupted :: bool
  checked :: bool
  skip_check :: bool
  upd_ebs :: nat
  upd_bytes :: nat
  upd_received :: nat
  upd_buf :: bytes
  readers :: nat
  writers :: nat
  exclusive :: bool

record ubi_device =
  dev_mtd :: string
  leb_size :: nat
  min_io_size :: nat
  vtbl_slots :: nat
  volumes :: "ubi_volume option list"
  vtbl :: "ubi_vtbl_record list"
  peb_count :: int
  good_peb_count :: int
  bad_peb_count :: int
  corr_peb_count :: int
  avail_pebs :: int
  rsvd_pebs :: int
  beb_rsvd_pebs :: int
  beb_rsvd_level :: int
  vol_count :: int
  ro_mode :: bool

text \<open>
  What a UBI image holds on flash: the two copies of the volume table, and for every volume and
  logical eraseblock the data with the number of used eraseblocks its header records.
\<close>

record ubi_media =
  lvol0 :: "ubi_vtbl_record list option"
  lvol1 :: "ubi_vtbl_record list option"
  media_empty :: bool
  leb_map :: "nat \<Rightarrow> nat \<Rightarrow> (bytes \<times> nat) option"

definition blank_media :: ubi_media where
  "blank_media = \<lparr>lvol0 = None, lvol1 = None, media_empty = True, leb_map = (\<lambda>_ _. None)\<rparr>"

section \<open>The oracle and the world\<close>

record ubi_scan =
  scan_good :: int
  scan_corr :: int
  scan_bad :: int
  scan_bad_limit :: int
  scan_media :: ubi_media

record platform =
  io_err :: "nat \<Rightarrow> int"
  io_noise :: "nat \<Rightarrow> nat \<Rightarrow> byte \<Rightarrow> byte"
  raw_noise :: "nat \<Rightarrow> nat \<Rightarrow> byte \<Rightarrow> byte"
  goes_ro :: "nat \<Rightarrow> bool"
  elapse :: "nat \<Rightarrow> nat"
  scan :: "nat \<Rightarrow> ubi_scan"
  heap_addr :: "nat \<Rightarrow> nat"
  heap_junk :: "nat \<Rightarrow> nat \<Rightarrow> byte"
  cmd_result :: "nat \<Rightarrow> int"
  env_export :: "nat \<Rightarrow> (string \<Rightarrow> string option) \<Rightarrow> int \<times> bytes"
  sha256 :: "bytes \<Rightarrow> bytes"
  lzma :: "bytes \<Rightarrow> nat \<Rightarrow> int \<times> bytes"

datatype env_valid = ENV_INVALID | ENV_VALID | ENV_REDUND

record world =
  ram :: "nat \<Rightarrow> byte"
  nand :: "nat \<Rightarrow> byte"
  bad_blocks :: "nat \<Rightarrow> bool"
  mtds :: "mtd_info list"
  ubi :: "ubi_device option"
  media :: ubi_media
  media_stale :: bool
  env :: "string \<Rightarrow> string option"
  gd_env_valid :: env_valid
  clock :: nat
  hung :: bool
  tick :: nat
  orc :: platform

section \<open>Taking a step of the environment\<close>

definition io_tick :: "('x world_scheme, nat) state" where
  "io_tick = State (\<lambda>w. (tick w, w\<lparr>tick := Suc (tick w), clock := clock w + elapse (orc w) (tick w)\<rparr>))"

text \<open>The result of an operation: zero or a negative error number.\<close>

definition io_result :: "nat \<Rightarrow> ('x world_scheme, int) state" where
  "io_result t = gets (\<lambda>w. min 0 (io_err (orc w) t))"

definition noisy :: "(nat \<Rightarrow> byte \<Rightarrow> byte) \<Rightarrow> bytes \<Rightarrow> bytes" where
  "noisy f xs = map (\<lambda>(i, b). f i b) (enumerate 0 xs)"

lemma length_noisy [simp]: "length (noisy f xs) = length xs"
  by (simp add: noisy_def)

section \<open>RAM, heap and time\<close>

definition mem_read :: "nat \<Rightarrow> nat \<Rightarrow> (nat \<Rightarrow> byte) \<Rightarrow> bytes" where
  "mem_read a n m = map m [a..<a + n]"

definition mem_write :: "nat \<Rightarrow> bytes \<Rightarrow> (nat \<Rightarrow> byte) \<Rightarrow> nat \<Rightarrow> byte" where
  "mem_write a xs m = (\<lambda>x. if a \<le> x \<and> x < a + length xs then xs ! (x - a) else m x)"

definition ram_read :: "nat \<Rightarrow> nat \<Rightarrow> ('x world_scheme, bytes) state" where
  "ram_read a n = gets (\<lambda>w. mem_read a n (ram w))"

definition ram_write :: "nat \<Rightarrow> bytes \<Rightarrow> ('x world_scheme, unit) state" where
  "ram_write a xs = modify (\<lambda>w. w\<lparr>ram := mem_write a xs (ram w)\<rparr>)"

text \<open>\<open>map_sysmem\<close> is a cast on this machine: the result is NULL exactly for address 0.\<close>

definition map_sysmem_null :: "nat \<Rightarrow> bool" where
  "map_sysmem_null a = (a = 0)"

text \<open>A heap buffer that is only used through its pointer: its contents, or None for NULL.\<close>

definition malloc_buf :: "nat \<Rightarrow> ('x world_scheme, bytes option) state" where
  "malloc_buf n = do {
     t \<leftarrow> io_tick;
     gets (\<lambda>w. if heap_addr (orc w) t = 0 then None else Some (map (heap_junk (orc w) t) [0..<n]))
   }"

text \<open>A heap buffer whose address is handed to commands; 0 for NULL.\<close>

definition memalign_addr :: "('x world_scheme, nat) state" where
  "memalign_addr = do { t \<leftarrow> io_tick; gets (\<lambda>w. heap_addr (orc w) t) }"

definition get_timer :: "nat \<Rightarrow> ('x world_scheme, nat) state" where
  "get_timer base = gets (\<lambda>w. clock w - base)"

definition mdelay :: "nat \<Rightarrow> ('x world_scheme, unit) state" where
  "mdelay n = modify (\<lambda>w. w\<lparr>clock := clock w + n\<rparr>)"

section \<open>The UBI region of the chip\<close>

definition URSUS_NAND_SIZE :: nat where "URSUS_NAND_SIZE = 0x10000000"
definition URSUS_UBI_BASE :: nat where "URSUS_UBI_BASE = 0x20000"
definition URSUS_UBI_SIZE :: nat where "URSUS_UBI_SIZE = 0x0ffe0000"

definition ubi_region :: "nat \<Rightarrow> bool" where
  "ubi_region a = (URSUS_UBI_BASE \<le> a \<and> a < URSUS_UBI_BASE + URSUS_UBI_SIZE)"

text \<open>
  UBI moves and rewrites physical eraseblocks as it likes: after one of its flash operations the
  raw bytes of its region are unknown, and no other byte has changed.
\<close>

definition touch_raw :: "nat \<Rightarrow> ('x world_scheme, unit) state" where
  "touch_raw t =
     modify (\<lambda>w. w\<lparr>nand := (\<lambda>a. if ubi_region a then raw_noise (orc w) t a (nand w a) else nand w a)\<rparr>)"

section \<open>Views of the world\<close>

text \<open>
  A view is a function of the world.  An operation keeps every view that ignores the parts of
  the world it changes; \<open>view_defs\<close> unfolds what a concrete view ignores.
\<close>

named_theorems view_defs

definition ignores_time :: "('x world_scheme \<Rightarrow> 'v) \<Rightarrow> bool" where
  [view_defs]: "ignores_time f = ((\<forall>w t. f (w\<lparr>tick := t\<rparr>) = f w) \<and> (\<forall>w c. f (w\<lparr>clock := c\<rparr>) = f w))"

definition ignores_ram :: "('x world_scheme \<Rightarrow> 'v) \<Rightarrow> bool" where
  [view_defs]: "ignores_ram f = (\<forall>w r. f (w\<lparr>ram := r\<rparr>) = f w)"

definition ignores_hung :: "('x world_scheme \<Rightarrow> 'v) \<Rightarrow> bool" where
  [view_defs]: "ignores_hung f = (\<forall>w h. f (w\<lparr>hung := h\<rparr>) = f w)"

definition ignores_mtds :: "('x world_scheme \<Rightarrow> 'v) \<Rightarrow> bool" where
  [view_defs]: "ignores_mtds f = (\<forall>w m. f (w\<lparr>mtds := m\<rparr>) = f w)"

definition ignores_ubi :: "('x world_scheme \<Rightarrow> 'v) \<Rightarrow> bool" where
  [view_defs]: "ignores_ubi f = (\<forall>w u. f (w\<lparr>ubi := u\<rparr>) = f w)"

definition ignores_media :: "('x world_scheme \<Rightarrow> 'v) \<Rightarrow> bool" where
  [view_defs]: "ignores_media f =
     ((\<forall>w m. f (w\<lparr>media := m\<rparr>) = f w) \<and> (\<forall>w s. f (w\<lparr>media_stale := s\<rparr>) = f w))"

definition ignores_raw :: "('x world_scheme \<Rightarrow> 'v) \<Rightarrow> bool" where
  [view_defs]: "ignores_raw f =
     (\<forall>w n. f (w\<lparr>nand := (\<lambda>a. if ubi_region a then n a else nand w a)\<rparr>) = f w)"

definition ignores_flash :: "('x world_scheme \<Rightarrow> 'v) \<Rightarrow> bool" where
  [view_defs]: "ignores_flash f =
     ((\<forall>w n. f (w\<lparr>nand := n\<rparr>) = f w) \<and> (\<forall>w s. f (w\<lparr>media_stale := s\<rparr>) = f w))"

definition ignores_env :: "('x world_scheme \<Rightarrow> 'v) \<Rightarrow> bool" where
  [view_defs]: "ignores_env f =
     ((\<forall>w e. f (w\<lparr>env := e\<rparr>) = f w) \<and> (\<forall>w v. f (w\<lparr>gd_env_valid := v\<rparr>) = f w))"

text \<open>The part of the chip that satisfies a predicate.\<close>

definition nand_at :: "(nat \<Rightarrow> bool) \<Rightarrow> 'x world_scheme \<Rightarrow> nat \<Rightarrow> byte" where
  "nand_at P w = (\<lambda>a. if P a then nand w a else 0)"

section \<open>Lemmas\<close>

lemma run_io_tick [simp]:
  "run_state io_tick w =
   (tick w, w\<lparr>tick := Suc (tick w), clock := clock w + elapse (orc w) (tick w)\<rparr>)"
  by (simp add: io_tick_def)

lemma wp_io_tick [simp]:
  "wp io_tick Q =
   (\<lambda>w. Q (tick w) (w\<lparr>tick := Suc (tick w), clock := clock w + elapse (orc w) (tick w)\<rparr>))"
  by (simp add: wp_def fun_eq_iff)

lemma keeps_io_tick [keeps_intros]:
  "ignores_time f \<Longrightarrow> keeps f io_tick"
  by (simp add: keeps_def view_defs)

lemma wp_io_result [simp]: "wp (io_result t) Q = (\<lambda>w. Q (min 0 (io_err (orc w) t)) w)"
  by (simp add: io_result_def)

lemma keeps_io_result [keeps_intros]: "keeps f (io_result t)"
  by (simp add: io_result_def keeps_gets)

lemma wp_ram_read [simp]: "wp (ram_read a n) Q = (\<lambda>w. Q (mem_read a n (ram w)) w)"
  by (simp add: ram_read_def)

lemma keeps_ram_read [keeps_intros]: "keeps f (ram_read a n)"
  by (simp add: ram_read_def keeps_gets)

lemma wp_ram_write [simp]:
  "wp (ram_write a xs) Q = (\<lambda>w. Q () (w\<lparr>ram := mem_write a xs (ram w)\<rparr>))"
  by (simp add: ram_write_def)

lemma keeps_ram_write [keeps_intros]:
  "ignores_ram f \<Longrightarrow> keeps f (ram_write a xs)"
  by (simp add: ram_write_def keeps_modify view_defs)

lemma length_mem_read [simp]: "length (mem_read a n m) = n"
  by (simp add: mem_read_def)

lemma mem_read_write_same [simp]: "length xs = n \<Longrightarrow> mem_read a n (mem_write a xs m) = xs"
  by (rule nth_equalityI) (auto simp: mem_read_def mem_write_def)

lemma mem_read_0 [simp]: "mem_read a 0 m = []"
  by (simp add: mem_read_def)

lemma mem_write_Nil [simp]: "mem_write a [] m = m"
  by (rule ext) (auto simp: mem_write_def)

lemma mem_write_below [simp]: "x < a \<Longrightarrow> mem_write a xs m x = m x"
  by (simp add: mem_write_def)

lemma mem_read_write_disjoint:
  "a + n \<le> b \<or> b + length xs \<le> a \<Longrightarrow> mem_read a n (mem_write b xs m) = mem_read a n m"
  by (auto simp: mem_read_def mem_write_def)

lemma keeps_malloc_buf [keeps_intros]:
  "ignores_time f \<Longrightarrow> keeps f (malloc_buf n)"
  by (auto simp: malloc_buf_def intro!: keeps_intros)

lemma keeps_memalign_addr [keeps_intros]:
  "ignores_time f \<Longrightarrow> keeps f memalign_addr"
  by (auto simp: memalign_addr_def intro!: keeps_intros)

lemma wp_get_timer [simp]: "wp (get_timer b) Q = (\<lambda>w. Q (clock w - b) w)"
  by (simp add: get_timer_def)

lemma keeps_get_timer [keeps_intros]: "keeps f (get_timer b)"
  by (simp add: get_timer_def keeps_gets)

lemma wp_mdelay [simp]: "wp (mdelay n) Q = (\<lambda>w. Q () (w\<lparr>clock := clock w + n\<rparr>))"
  by (simp add: mdelay_def)

lemma keeps_mdelay [keeps_intros]: "ignores_time f \<Longrightarrow> keeps f (mdelay n)"
  by (simp add: mdelay_def view_defs keeps_modify)

lemma keeps_touch_raw [keeps_intros]:
  "ignores_raw f \<Longrightarrow> keeps f (touch_raw t)"
  by (simp add: touch_raw_def keeps_modify view_defs)

text \<open>Assignments to one part of the world, to be tried before \<open>keeps_modify\<close>.\<close>

named_theorems keeps_assign

lemma keeps_assign_hung [keeps_assign]: "ignores_hung f \<Longrightarrow> keeps f (modify (\<lambda>w. w\<lparr>hung := g w\<rparr>))"
  by (simp add: view_defs keeps_modify)

lemma keeps_assign_mtds [keeps_assign]: "ignores_mtds f \<Longrightarrow> keeps f (modify (\<lambda>w. w\<lparr>mtds := g w\<rparr>))"
  by (simp add: view_defs keeps_modify)

lemma keeps_assign_ubi [keeps_assign]: "ignores_ubi f \<Longrightarrow> keeps f (modify (\<lambda>w. w\<lparr>ubi := g w\<rparr>))"
  by (simp add: view_defs keeps_modify)

lemma keeps_assign_media [keeps_assign]: "ignores_media f \<Longrightarrow> keeps f (modify (\<lambda>w. w\<lparr>media := g w\<rparr>))"
  by (simp add: view_defs keeps_modify)

lemma keeps_assign_env [keeps_assign]:
  "ignores_env f \<Longrightarrow> keeps f (modify (\<lambda>w. w\<lparr>env := g w\<rparr>))"
  "ignores_env f \<Longrightarrow> keeps f (modify (\<lambda>w. w\<lparr>gd_env_valid := v w\<rparr>))"
  by (simp_all add: view_defs keeps_modify)

section \<open>A concrete platform\<close>

text \<open>
  An instance of the oracle, for evaluating the model: no operation fails, writes are exact, the
  heap always has memory, and decompression delivers an image that names this board.
\<close>

definition sample_raw :: bytes where
  "sample_raw = str_bytes ''U-Boot 2026.07-UrsusBoot-'' @ str_bytes ''nokia,xg-040g-md'' @ str_bytes ''airoha,an7581''"

definition sample_platform :: platform where
  "sample_platform =
     \<lparr>io_err = (\<lambda>_. 0), io_noise = (\<lambda>_ _ b. b), raw_noise = (\<lambda>_ _ b. b), goes_ro = (\<lambda>_. False),
      elapse = (\<lambda>_. 0),
      scan = (\<lambda>_. \<lparr>scan_good = 2047, scan_corr = 0, scan_bad = 0, scan_bad_limit = 40, scan_media = blank_media\<rparr>),
      heap_addr = (\<lambda>_. 0x9f000000), heap_junk = (\<lambda>_ _. 0), cmd_result = (\<lambda>_. 0),
      env_export = (\<lambda>_ _. (0, [0])), sha256 = (\<lambda>_. replicate 32 0),
      lzma = (\<lambda>_ cap. (0, take cap (sample_raw @ replicate cap 0)))\<rparr>"

definition sample_world :: world where
  "sample_world =
     \<lparr>ram = (\<lambda>_. 0), nand = (\<lambda>_. 0xff), bad_blocks = (\<lambda>_. False), mtds = [], ubi = None,
      media = blank_media, media_stale = False, env = Map.empty, gd_env_valid = ENV_INVALID, clock = 0,
      hung = False, tick = 0, orc = sample_platform\<rparr>"

end
