(* ===== verification/Mtd.thy ===== *)
theory Mtd
  imports Machine
begin

text \<open>
  Raw flash access: the checks of the MTD core (\<open>drivers/mtd/mtdcore.c\<close>), the \<open>mtd erase\<close>,
  \<open>mtd read\<close> and \<open>mtd write\<close> commands (\<open>cmd/mtd.c\<close>), and the read and bad-block helpers that
  the UrsusBoot modules share (\<open>cmd/ursusupdate.c\<close>, \<open>cmd/ursusubi.c\<close>).

  A loop of the code that cannot end (searching for a good block past the end of a device) sets
  \<open>hung\<close>.
\<close>

section \<open>MTD core\<close>

definition get_mtd_device_nm :: "string \<Rightarrow> ('x world_scheme, mtd_info option) state" where
  "get_mtd_device_nm n = gets (\<lambda>w. find (\<lambda>m. mtd_name m = n) (rev (mtds w)))"

definition allocate_partition :: "mtd_info \<Rightarrow> mtd_partition \<Rightarrow> mtd_info" where
  "allocate_partition master p =
     master\<lparr>mtd_name := part_name p, mtd_is_partition := True,
            mtd_offset := mtd_offset master + part_offset p, mtd_size := part_size p\<rparr>"

fun add_mtd_partitions :: "mtd_info \<Rightarrow> mtd_partition list \<Rightarrow> ('x world_scheme, int) state" where
  "add_mtd_partitions master [] = ret 0"
| "add_mtd_partitions master (p # ps) = do {
     a \<leftarrow> memalign_addr;
     if a = 0 then ret (- ENOMEM)
     else do {
       modify (\<lambda>w. w\<lparr>mtds := mtds w @ [allocate_partition master p]\<rparr>);
       add_mtd_partitions master ps
     }
   }"

text \<open>The bytes of a device range; a failed read leaves noise in the buffer.\<close>

definition mtd_read :: "mtd_info \<Rightarrow> nat \<Rightarrow> nat \<Rightarrow> ('x world_scheme, int \<times> bytes) state" where
  "mtd_read mtd from len =
     (if from > mtd_size mtd \<or> len > mtd_size mtd - from then ret (- EINVAL, [])
      else if len = 0 then ret (0, [])
      else do {
        t \<leftarrow> io_tick;
        e \<leftarrow> io_result t;
        gets (\<lambda>w. let d = mem_read (mtd_offset mtd + from) len (nand w)
                  in (e, if e = 0 \<or> e = - EUCLEAN then d else noisy (io_noise (orc w) t) d))
      })"

text \<open>A raw change of the chip; changing the UBI region invalidates what UBI knows of it.\<close>

definition nand_write :: "nat \<Rightarrow> bytes \<Rightarrow> ('x world_scheme, unit) state" where
  "nand_write a xs =
     modify (\<lambda>w. w\<lparr>nand := mem_write a xs (nand w),
                   media_stale := (media_stale w \<or> URSUS_UBI_BASE < a + length xs)\<rparr>)"

definition mtd_write :: "mtd_info \<Rightarrow> nat \<Rightarrow> bytes \<Rightarrow> ('x world_scheme, int \<times> nat) state" where
  "mtd_write mtd to data =
     (if to > mtd_size mtd \<or> length data > mtd_size mtd - to then ret (- EINVAL, 0)
      else if \<not> mtd_writeable mtd then ret (- EROFS, 0)
      else if data = [] then ret (0, 0)
      else do {
        t \<leftarrow> io_tick;
        e \<leftarrow> io_result t;
        old \<leftarrow> gets (\<lambda>w. mem_read (mtd_offset mtd + to) (length data) (nand w));
        noise \<leftarrow> gets (\<lambda>w. io_noise (orc w) t);
        nand_write (mtd_offset mtd + to) (noisy noise (map2 (AND) old data));
        ret (e, if e = 0 then length data else 0)
      })"

definition mtd_erase :: "mtd_info \<Rightarrow> nat \<Rightarrow> nat \<Rightarrow> ('x world_scheme, int) state" where
  "mtd_erase mtd addr len =
     (if addr > mtd_size mtd \<or> len > mtd_size mtd - addr then ret (- EINVAL)
      else if \<not> mtd_writeable mtd then ret (- EROFS)
      else if len = 0 then ret 0
      else do {
        t \<leftarrow> io_tick;
        e \<leftarrow> io_result t;
        new \<leftarrow> gets (\<lambda>w. if e = 0 then replicate len 0xff
                          else noisy (io_noise (orc w) t) (mem_read (mtd_offset mtd + addr) len (nand w)));
        nand_write (mtd_offset mtd + addr) (take len new);
        ret e
      })"

definition mtd_block_isbad :: "mtd_info \<Rightarrow> nat \<Rightarrow> ('x world_scheme, int) state" where
  "mtd_block_isbad mtd ofs =
     (if ofs > mtd_size mtd then ret (- EINVAL)
      else do {
        t \<leftarrow> io_tick;
        e \<leftarrow> io_result t;
        if e < 0 then ret e
        else gets (\<lambda>w. if bad_blocks w ((mtd_offset mtd + ofs) div erasesize mtd) then 1 else 0)
      })"

section \<open>Helpers of the UrsusBoot modules\<close>

definition ursus_find_master_nand :: "('x world_scheme, mtd_info option) state" where
  "ursus_find_master_nand =
     gets (\<lambda>w. find (\<lambda>m. \<not> mtd_is_partition m \<and>
                        (mtd_type m = MTD_NANDFLASH \<or> mtd_type m = MTD_MLCNANDFLASH)) (mtds w))"

definition ursus_read_exact :: "mtd_info \<Rightarrow> nat \<Rightarrow> nat \<Rightarrow> ('x world_scheme, int \<times> bytes) state" where
  "ursus_read_exact mtd off len = do {
     (r, d) \<leftarrow> mtd_read mtd off len;
     let r = (if r = - EUCLEAN then 0 else r);
     ret (if r = 0 \<and> length d = len then 0 else - EIO, d)
   }"

definition URSUS_READ_CHUNK :: nat where "URSUS_READ_CHUNK = 0x100000"

text \<open>
  The loop of \<open>ursus_read_range\<close>; the second component is what has been stored from the
  destination pointer on.  With a page larger than the chunk the loop would make no progress.
\<close>

function read_range_loop :: "mtd_info \<Rightarrow> nat \<Rightarrow> nat \<Rightarrow> nat \<Rightarrow> ('x world_scheme, int \<times> bytes) state" where
  "read_range_loop mtd page off len =
     (if len = 0 then ret (0, [])
      else if page = 0 \<or> URSUS_READ_CHUNK < page
      then do { modify (\<lambda>w. w\<lparr>hung := True\<rparr>); ret (- EIO, []) }
      else if off mod page = 0 \<and> page \<le> len
      then let whole = len - len mod page;
               direct = (if whole > URSUS_READ_CHUNK then URSUS_READ_CHUNK - URSUS_READ_CHUNK mod page
                         else whole)
           in do {
             (r, d) \<leftarrow> ursus_read_exact mtd off direct;
             if r \<noteq> 0 then ret (r, d)
             else do {
               (r', d') \<leftarrow> read_range_loop mtd page (off + direct) (len - direct);
               ret (r', d @ d')
             }
           }
      else let in_page = off mod page; n = min len (page - in_page)
           in do {
             (r, d) \<leftarrow> ursus_read_exact mtd (off - in_page) page;
             if r \<noteq> 0 then ret (r, [])
             else do {
               (r', d') \<leftarrow> read_range_loop mtd page (off + n) (len - n);
               ret (r', slice in_page n d @ d')
             }
           })"
  by pat_completeness auto

lemma mod_part_pos: "0 < page \<Longrightarrow> page \<le> len \<Longrightarrow> 0 < len - len mod (page :: nat)"
  by (meson mod_less_divisor order_less_le_trans zero_less_diff)

termination read_range_loop
  by (relation "measure (\<lambda>(_, _, _, len). len)")
     (use mod_part_pos in \<open>auto simp: Let_def split: if_splits\<close>)

definition ursus_read_range :: "mtd_info \<Rightarrow> nat \<Rightarrow> nat \<Rightarrow> ('x world_scheme, int \<times> bytes) state" where
  "ursus_read_range mtd off len = do {
     scratch \<leftarrow> malloc_buf (if writesize mtd \<noteq> 0 then writesize mtd else 2048);
     case scratch of
       None \<Rightarrow> ret (- ENOMEM, [])
     | Some _ \<Rightarrow> read_range_loop mtd (if writesize mtd \<noteq> 0 then writesize mtd else 2048) off len
   }"

function bad_in_range_loop :: "mtd_info \<Rightarrow> nat \<Rightarrow> nat \<Rightarrow> ('x world_scheme, int) state" where
  "bad_in_range_loop mtd off end' =
     (if off < end' \<and> 0 < erasesize mtd
      then do {
        r \<leftarrow> mtd_block_isbad mtd off;
        if r < 0 then ret r
        else if r > 0 then ret 1
        else bad_in_range_loop mtd (off + erasesize mtd) end'
      }
      else ret 0)"
  by pat_completeness auto

termination bad_in_range_loop
  by (relation "measure (\<lambda>(_, off, end'). end' - off)") auto

definition ursus_bad_in_range :: "mtd_info \<Rightarrow> nat \<Rightarrow> nat \<Rightarrow> ('x world_scheme, int) state" where
  "ursus_bad_in_range mtd start len =
     bad_in_range_loop mtd (start - start mod erasesize mtd) (start + len)"

section \<open>The mtd command\<close>

fun mtd_erase_loop :: "nat \<Rightarrow> mtd_info \<Rightarrow> nat \<Rightarrow> int \<Rightarrow> ('x world_scheme, bool \<times> int) state" where
  "mtd_erase_loop 0 mtd addr r = ret (True, r)"
| "mtd_erase_loop (Suc n) mtd addr r = do {
     b \<leftarrow> mtd_block_isbad mtd addr;
     if b < 0 then ret (False, b)
     else if b > 0 then mtd_erase_loop n mtd (addr + erasesize mtd) 0
     else do {
       r \<leftarrow> mtd_erase mtd addr (erasesize mtd);
       if r \<noteq> 0 \<and> r \<noteq> - EIO then ret (True, r)
       else mtd_erase_loop n mtd (addr + erasesize mtd) r
     }
   }"

definition mtd_erase_on :: "mtd_info \<Rightarrow> nat \<Rightarrow> nat \<Rightarrow> ('x world_scheme, int) state" where
  "mtd_erase_on mtd off len =
     (if off mod erasesize mtd \<noteq> 0 then ret 1
      else if len mod erasesize mtd \<noteq> 0 then ret 1
      else do {
        (through, r) \<leftarrow> mtd_erase_loop (len div erasesize mtd) mtd off 0;
        ret (if \<not> through then 1 else if r \<noteq> 0 \<and> r \<noteq> - EIO then 1 else 0)
      })"

definition do_mtd_erase :: "string \<Rightarrow> nat \<Rightarrow> nat \<Rightarrow> ('x world_scheme, int) state" where
  "do_mtd_erase n off len = do {
     m \<leftarrow> get_mtd_device_nm n;
     case m of None \<Rightarrow> ret 1 | Some mtd \<Rightarrow> mtd_erase_on mtd off len
   }"

text \<open>
  The page loop of \<open>do_mtd_io\<close> for a NAND device without OOB data.  Every turn moves one page or
  skips one bad block; past the end of the device \<open>mtd_block_isbad\<close> keeps failing and the loop
  never ends, so the fuel of one turn per page and per block is exact.
\<close>

fun mtd_first_good :: "nat \<Rightarrow> mtd_info \<Rightarrow> nat \<Rightarrow> ('x world_scheme, nat option) state" where
  "mtd_first_good 0 mtd off = do { modify (\<lambda>w. w\<lparr>hung := True\<rparr>); ret None }"
| "mtd_first_good (Suc n) mtd off = do {
     b \<leftarrow> mtd_block_isbad mtd off;
     if b \<noteq> 0 then mtd_first_good n mtd (off + erasesize mtd) else ret (Some off)
   }"

fun mtd_io_loop :: "nat \<Rightarrow> bool \<Rightarrow> mtd_info \<Rightarrow> nat \<Rightarrow> nat \<Rightarrow> nat \<Rightarrow> ('x world_scheme, int) state" where
  "mtd_io_loop 0 rd mtd off remaining buf = do { modify (\<lambda>w. w\<lparr>hung := True\<rparr>); ret 1 }"
| "mtd_io_loop (Suc n) rd mtd off remaining buf =
     (if remaining = 0 then ret 0
      else do {
        b \<leftarrow> (if off mod erasesize mtd = 0 then mtd_block_isbad mtd off else ret 0);
        if b \<noteq> 0 then mtd_io_loop n rd mtd (off + erasesize mtd) remaining buf
        else do {
          r \<leftarrow> (if rd
               then do {
                 (r, d) \<leftarrow> mtd_read mtd off (writesize mtd);
                 ram_write buf d;
                 ret r
               }
               else do {
                 page \<leftarrow> ram_read buf (writesize mtd);
                 if list_all (\<lambda>x. x = 0xff) page then ret 0
                 else do { (r, _) \<leftarrow> mtd_write mtd off page; ret r }
               });
          if r \<noteq> 0 then ret r
          else mtd_io_loop n rd mtd (off + writesize mtd) (remaining - writesize mtd)
                 (buf + writesize mtd)
        }
      })"

definition mtd_io_on :: "bool \<Rightarrow> mtd_info \<Rightarrow> nat \<Rightarrow> nat \<Rightarrow> nat \<Rightarrow> ('x world_scheme, int) state" where
  "mtd_io_on rd mtd addr start_off len0 =
     (let user_addr = addr mod 2 ^ 32;
          len = ((len0 + writesize mtd - 1) div writesize mtd) * writesize mtd;
          blocks = mtd_size mtd div erasesize mtd + 2
      in if start_off mod writesize mtd \<noteq> 0 then ret 1
         else if map_sysmem_null user_addr then ret 1
         else do {
           first \<leftarrow> mtd_first_good blocks mtd start_off;
           case first of
             None \<Rightarrow> ret 1
           | Some off \<Rightarrow> do {
               r \<leftarrow> mtd_io_loop (len div writesize mtd + blocks) rd mtd off len user_addr;
               ret (if r \<noteq> 0 then 1 else 0)
             }
         })"

definition do_mtd_io :: "bool \<Rightarrow> string \<Rightarrow> nat \<Rightarrow> nat \<Rightarrow> nat \<Rightarrow> ('x world_scheme, int) state" where
  "do_mtd_io rd n addr start_off len0 = do {
     m \<leftarrow> get_mtd_device_nm n;
     case m of None \<Rightarrow> ret 1 | Some mtd \<Rightarrow> mtd_io_on rd mtd addr start_off len0
   }"

datatype mtd_command =
    Mtd_erase string nat nat
  | Mtd_read string nat nat nat
  | Mtd_write string nat nat nat

text \<open>\<open>run_command\<close> of the hush parser folds every failure code of a command into 1.\<close>

definition run_mtd :: "mtd_command \<Rightarrow> ('x world_scheme, int) state" where
  "run_mtd c = do {
     r \<leftarrow> (case c of
            Mtd_erase n off len \<Rightarrow> do_mtd_erase n off len
          | Mtd_read n addr off len \<Rightarrow> do_mtd_io True n addr off len
          | Mtd_write n addr off len \<Rightarrow> do_mtd_io False n addr off len);
     ret (if r \<noteq> 0 then 1 else 0)
   }"

section \<open>Lemmas\<close>

declare read_range_loop.simps [simp del] bad_in_range_loop.simps [simp del]

lemma nand_write_fields [simp]:
  "wp (nand_write a xs) Q =
   (\<lambda>w. Q () (w\<lparr>nand := mem_write a xs (nand w),
                 media_stale := (media_stale w \<or> URSUS_UBI_BASE < a + length xs)\<rparr>))"
  by (simp add: nand_write_def)

lemma keeps_mtd_read [keeps_intros]: "ignores_time f \<Longrightarrow> keeps f (mtd_read mtd off len)"
  by (auto simp: mtd_read_def intro!: keeps_intros)

lemma keeps_ursus_read_exact [keeps_intros]:
  "ignores_time f \<Longrightarrow> keeps f (ursus_read_exact mtd off len)"
  by (auto simp: ursus_read_exact_def intro!: keeps_intros)

lemma keeps_mtd_block_isbad [keeps_intros]: "ignores_time f \<Longrightarrow> keeps f (mtd_block_isbad mtd off)"
  by (auto simp: mtd_block_isbad_def intro!: keeps_intros)

lemma keeps_get_mtd_device_nm [keeps_intros]: "keeps f (get_mtd_device_nm n)"
  by (simp add: get_mtd_device_nm_def keeps_gets)

lemma keeps_find_master [keeps_intros]: "keeps f ursus_find_master_nand"
  by (simp add: ursus_find_master_nand_def keeps_gets)

lemma keeps_add_partitions [keeps_intros]:
  "ignores_time f \<Longrightarrow> ignores_mtds f \<Longrightarrow> keeps f (add_mtd_partitions master ps)"
  by (induction ps) (auto simp: ignores_mtds_def intro!: keeps_intros)

lemma keeps_bad_in_range [keeps_intros]:
  "ignores_time f \<Longrightarrow> keeps f (ursus_bad_in_range mtd start len)"
proof -
  assume f: "ignores_time f"
  have "keeps f (bad_in_range_loop mtd off e)" for off e
  proof (induction mtd off e rule: bad_in_range_loop.induct)
    case (1 mtd off e)
    show ?case
      by (subst bad_in_range_loop.simps, intro keeps_intros f) (rule "1.IH", assumption+)
  qed
  then show ?thesis
    by (simp add: ursus_bad_in_range_def)
qed

lemma keeps_read_range_loop:
  "ignores_time f \<Longrightarrow> ignores_hung f \<Longrightarrow> keeps f (read_range_loop mtd page off len)"
proof (induction mtd page off len rule: read_range_loop.induct)
  case (1 mtd page off len)
  show ?case
    by (subst read_range_loop.simps, intro keeps_intros 1)
       (use "1.prems" in \<open>simp_all add: ignores_hung_def\<close>)
qed

lemma keeps_read_range [keeps_intros]:
  "ignores_time f \<Longrightarrow> ignores_hung f \<Longrightarrow> keeps f (ursus_read_range mtd off len)"
  by (auto simp: ursus_read_range_def intro!: keeps_intros keeps_read_range_loop)

text \<open>A device does not reach the bytes a predicate describes.\<close>

definition mtd_avoids :: "mtd_info \<Rightarrow> (nat \<Rightarrow> bool) \<Rightarrow> bool" where
  "mtd_avoids mtd P = (\<forall>x. P x \<longrightarrow> x < mtd_offset mtd \<or> mtd_offset mtd + mtd_size mtd \<le> x)"

lemma keeps_nand_write: "ignores_flash f \<Longrightarrow> keeps f (nand_write a xs)"
  by (simp add: nand_write_def keeps_modify view_defs)

lemma keeps_mtd_write:
  "ignores_time f \<Longrightarrow> ignores_flash f \<Longrightarrow> keeps f (mtd_write mtd off data)"
  unfolding mtd_write_def by (intro keeps_intros keeps_nand_write)

lemma keeps_mtd_erase:
  "ignores_time f \<Longrightarrow> ignores_flash f \<Longrightarrow> keeps f (mtd_erase mtd off len)"
  unfolding mtd_erase_def by (intro keeps_intros keeps_nand_write)

lemma keeps_nand_at_write:
  "(\<And>x. a \<le> x \<Longrightarrow> x < a + length xs \<Longrightarrow> \<not> P x) \<Longrightarrow> keeps (nand_at P) (nand_write a xs)"
  by (auto simp: nand_write_def keeps_def nand_at_def mem_write_def fun_eq_iff)

lemma ignores_time_nand_at [simp]: "ignores_time (nand_at P)"
  by (auto simp: view_defs nand_at_def)

lemma ignores_hung_nand_at [simp]: "ignores_hung (nand_at P)"
  by (auto simp: view_defs nand_at_def)

lemma ignores_ram_nand_at [simp]: "ignores_ram (nand_at P)"
  by (auto simp: view_defs nand_at_def)

lemma keeps_nand_at_device:
  "mtd_avoids mtd P \<Longrightarrow> off \<le> mtd_size mtd \<Longrightarrow> length xs \<le> mtd_size mtd - off \<Longrightarrow>
   keeps (nand_at P) (nand_write (mtd_offset mtd + off) xs)"
  by (intro keeps_nand_at_write) (force simp: mtd_avoids_def)

lemma keeps_nand_at_mtd_write:
  "mtd_avoids mtd P \<Longrightarrow> keeps (nand_at P) (mtd_write mtd off data)"
  unfolding mtd_write_def by (intro keeps_intros keeps_nand_at_device) auto

lemma keeps_nand_at_mtd_erase:
  "mtd_avoids mtd P \<Longrightarrow> keeps (nand_at P) (mtd_erase mtd off len)"
  unfolding mtd_erase_def by (intro keeps_intros keeps_nand_at_device) auto

text \<open>
  The two ways of using a command: with a view it ignores altogether, and with a part of the chip
  its device does not reach.
\<close>

lemma keeps_erase_loop:
  assumes "ignores_time f" "\<And>a n. keeps f (mtd_erase mtd a n)"
  shows "keeps f (mtd_erase_loop n mtd addr r)"
proof (induction n arbitrary: addr r)
  case (Suc n)
  show ?case
    unfolding mtd_erase_loop.simps by (intro keeps_intros assms Suc)
qed (simp add: keeps_return)

lemma keeps_set_hung [keeps_intros]: "ignores_hung f \<Longrightarrow> keeps f (modify (\<lambda>w. w\<lparr>hung := h\<rparr>))"
  by (simp add: ignores_hung_def keeps_modify)

lemma keeps_first_good:
  assumes "ignores_time f" "ignores_hung f"
  shows "keeps f (mtd_first_good n mtd off)"
proof (induction n arbitrary: off)
  case (Suc n)
  show ?case
    unfolding mtd_first_good.simps by (intro keeps_intros assms Suc)
qed (simp add: keeps_intros assms)

lemma keeps_io_loop:
  assumes "ignores_time f" "ignores_hung f" "ignores_ram f" "\<And>a d. keeps f (mtd_write mtd a d)"
  shows "keeps f (mtd_io_loop n rd mtd off remaining buf)"
proof (induction n arbitrary: off remaining buf)
  case (Suc n)
  show ?case
    unfolding mtd_io_loop.simps by (intro keeps_intros assms Suc)
qed (simp add: keeps_intros assms)

text \<open>
  A command on the device named \<open>n\<close> keeps a part of the chip that the device does not reach.
\<close>

definition mtd_named :: "string \<Rightarrow> 'x world_scheme \<Rightarrow> mtd_info option" where
  "mtd_named n w = find (\<lambda>m. mtd_name m = n) (rev (mtds w))"

lemma wp_get_mtd_device_nm [simp]: "wp (get_mtd_device_nm n) Q = (\<lambda>w. Q (mtd_named n w) w)"
  by (simp add: get_mtd_device_nm_def mtd_named_def)

fun mtd_target :: "mtd_command \<Rightarrow> string" where
  "mtd_target (Mtd_erase n _ _) = n"
| "mtd_target (Mtd_read n _ _ _) = n"
| "mtd_target (Mtd_write n _ _ _) = n"

lemma keeps_erase_on:
  "ignores_time f \<Longrightarrow> (\<And>a n. keeps f (mtd_erase mtd a n)) \<Longrightarrow> keeps f (mtd_erase_on mtd off len)"
  unfolding mtd_erase_on_def by (intro keeps_intros keeps_erase_loop)

lemma keeps_io_on:
  "ignores_time f \<Longrightarrow> ignores_hung f \<Longrightarrow> ignores_ram f \<Longrightarrow> (\<And>a d. keeps f (mtd_write mtd a d)) \<Longrightarrow>
   keeps f (mtd_io_on rd mtd addr off len)"
  unfolding mtd_io_on_def by (intro keeps_intros keeps_io_loop keeps_first_good)

lemma keeps_run_mtd [keeps_intros]:
  "ignores_time f \<Longrightarrow> ignores_hung f \<Longrightarrow> ignores_ram f \<Longrightarrow> ignores_flash f \<Longrightarrow> keeps f (run_mtd c)"
  unfolding run_mtd_def do_mtd_erase_def do_mtd_io_def
  by (cases c; simp only: mtd_command.case; intro keeps_intros keeps_erase_on keeps_io_on
      keeps_mtd_erase keeps_mtd_write)

lemma run_mtd_keeps_nand_at:
  assumes "\<And>m. mtd_named (mtd_target c) w = Some m \<Longrightarrow> mtd_avoids m P"
  shows "wp (run_mtd c) (\<lambda>_ w'. nand_at P w' = nand_at P w) w"
proof (cases "mtd_named (mtd_target c) w")
  case None
  then show ?thesis
    by (cases c) (simp_all add: run_mtd_def do_mtd_erase_def do_mtd_io_def)
next
  case (Some m)
  have av: "mtd_avoids m P"
    using assms Some by simp
  have "wp (mtd_erase_on m a l) (\<lambda>_ w'. nand_at P w' = nand_at P w) w" for a l
    by (intro keeps_wp keeps_erase_on keeps_nand_at_mtd_erase av) simp
  moreover have "wp (mtd_io_on rd m b a l) (\<lambda>_ w'. nand_at P w' = nand_at P w) w" for rd b a l
    by (intro keeps_wp keeps_io_on keeps_nand_at_mtd_write av) simp_all
  ultimately show ?thesis
    using Some by (cases c) (simp_all add: run_mtd_def do_mtd_erase_def do_mtd_io_def)
qed

subsection \<open>What successful reads deliver\<close>

lemma wp_read_exact:
  "wp (ursus_read_exact mtd off len)
     (\<lambda>(r, d) w'. (r = 0 \<or> r = - EIO) \<and>
        (r = 0 \<longrightarrow> off + len \<le> mtd_size mtd \<and> d = mem_read (mtd_offset mtd + off) len (nand w))) w"
  by (auto simp: ursus_read_exact_def mtd_read_def Let_def mem_read_def)

lemma mem_read_append: "mem_read a m f @ mem_read (a + m) n f = mem_read a (m + n) f"
  using upt_add_eq_append [of a "a + m" n] by (simp add: mem_read_def ac_simps flip: map_append)

lemma slice_mem_read: "k + m \<le> n \<Longrightarrow> slice k m (mem_read a n f) = mem_read (a + k) m f"
  by (rule nth_equalityI) (auto simp: slice_def mem_read_def ac_simps)

lemma read_range_loop_flat:
  fixes w :: "'x world_scheme"
  shows "wp (read_range_loop mtd page off len)
     (\<lambda>(r, d) w'. r = 0 \<longrightarrow> d = mem_read (mtd_offset mtd + off) len (nand w) \<and> (0 < len \<longrightarrow> off + len \<le> mtd_size mtd)) w"
proof (induction len arbitrary: off w rule: less_induct)
  case (less len)
  have same: "keeps (nand :: 'x world_scheme \<Rightarrow> _) (ursus_read_exact mtd a n)" for a n
    by (intro keeps_intros) (simp add: view_defs)
  have step: "wp (read_range_loop mtd page (off + k) (len - k) \<bind> (\<lambda>(r', d'). ret (r', d @ d')))
      (\<lambda>(r, d) w'. r = 0 \<longrightarrow> d = mem_read (mtd_offset mtd + off) len (nand w) \<and> (0 < len \<longrightarrow> off + len \<le> mtd_size mtd)) w''"
    if "0 < k" "k \<le> len" "d = mem_read (mtd_offset mtd + off) k (nand w)" "nand w'' = nand w"
      "off + k \<le> mtd_size mtd"
    for k d and w'' :: "'x world_scheme"
  proof -
    have "wp (read_range_loop mtd page (off + k) (len - k))
        (\<lambda>(r, d) w'. r = 0 \<longrightarrow> d = mem_read (mtd_offset mtd + off + k) (len - k) (nand w)
           \<and> (0 < len - k \<longrightarrow> off + k + (len - k) \<le> mtd_size mtd)) w''"
      using less [of "len - k" "off + k" w''] that by (simp add: add.assoc)
    then show ?thesis
      using that mem_read_append [of "mtd_offset mtd + off" k "nand w" "len - k"]
      by (auto elim!: wp_mono)
  qed
  have direct: "wp (ursus_read_exact mtd off k \<bind>
        (\<lambda>(r, d). if r \<noteq> 0 then ret (r, d)
                  else read_range_loop mtd page (off + k) (len - k) \<bind> (\<lambda>(r', d'). ret (r', d @ d'))))
      (\<lambda>(r, d) w'. r = 0 \<longrightarrow> d = mem_read (mtd_offset mtd + off) len (nand w) \<and> (0 < len \<longrightarrow> off + len \<le> mtd_size mtd)) w"
    if "0 < k" "k \<le> len" for k
    by (rule wp_bindI [OF wp_conj [OF wp_read_exact keeps_wp [OF same]]])
       (auto simp del: wp_bind intro!: step that)
  have partial: "wp (ursus_read_exact mtd (off - i) page \<bind>
        (\<lambda>(r, d). if r \<noteq> 0 then ret (r, [])
                  else read_range_loop mtd page (off + n) (len - n) \<bind>
                       (\<lambda>(r', d'). ret (r', slice i n d @ d'))))
      (\<lambda>(r, d) w'. r = 0 \<longrightarrow> d = mem_read (mtd_offset mtd + off) len (nand w) \<and> (0 < len \<longrightarrow> off + len \<le> mtd_size mtd)) w"
    if "0 < n" "n \<le> len" "i + n \<le> page" "i \<le> off" for i n
  proof (rule wp_bindI [OF wp_conj [OF wp_read_exact keeps_wp [OF same]]], clarify)
    fix r :: int and d and w'' :: "'x world_scheme"
    assume *: "nand w'' = nand w" "r = 0 \<longrightarrow> off - i + page \<le> mtd_size mtd \<and>
        d = mem_read (mtd_offset mtd + (off - i)) page (nand w)"
    have "wp (read_range_loop mtd page (off + n) (len - n) \<bind> (\<lambda>(r', d'). ret (r', slice i n d @ d')))
        (\<lambda>(r, d) w'. r = 0 \<longrightarrow> d = mem_read (mtd_offset mtd + off) len (nand w) \<and> (0 < len \<longrightarrow> off + len \<le> mtd_size mtd)) w''"
      if "r = 0"
      using * that \<open>0 < n\<close> \<open>n \<le> len\<close> \<open>i + n \<le> page\<close> \<open>i \<le> off\<close> 
      by (intro step) (simp_all add: slice_mem_read, linarith)
    then show "wp (if r \<noteq> 0 then ret (r, [])
                  else read_range_loop mtd page (off + n) (len - n) \<bind> (\<lambda>(r', d'). ret (r', slice i n d @ d')))
        (\<lambda>(r, d) w'. r = 0 \<longrightarrow> d = mem_read (mtd_offset mtd + off) len (nand w) \<and> (0 < len \<longrightarrow> off + len \<le> mtd_size mtd)) w''"
      by (cases "r = 0") simp_all
  qed
  let ?whole = "len - len mod page"
  let ?direct = "if ?whole > URSUS_READ_CHUNK then URSUS_READ_CHUNK - URSUS_READ_CHUNK mod page else ?whole"
  let ?in = "off mod page"
  let ?n = "min len (page - ?in)"
  consider (zero) "len = 0" | (stuck) "len \<noteq> 0" "page = 0 \<or> URSUS_READ_CHUNK < page"
    | (pages) "len \<noteq> 0" "0 < page" "page \<le> URSUS_READ_CHUNK" "?in = 0" "page \<le> len"
    | (part) "len \<noteq> 0" "0 < page" "page \<le> URSUS_READ_CHUNK" "\<not> (?in = 0 \<and> page \<le> len)"
    by linarith
  then show ?case
  proof cases
    case pages
    have "0 < ?direct" "?direct \<le> len"
      using mod_part_pos [OF pages(2,3)] mod_part_pos [OF pages(2,5)] by auto
    from direct [OF this] show ?thesis
      by (subst read_range_loop.simps) (use pages in \<open>simp add: Let_def del: wp_bind\<close>)
  next
    case part
    then have "?in < page"
      by simp
    with part have "0 < ?n" "?n \<le> len" "?in + ?n \<le> page" "?in \<le> off"
      by (auto simp: mod_less_eq_dividend min_def)
    from partial [OF this] show ?thesis
      by (subst read_range_loop.simps) (use part in \<open>auto simp add: Let_def simp del: wp_bind\<close>)
  qed (simp_all add: read_range_loop.simps mem_read_def)
qed

lemma wp_read_range:
  "wp (ursus_read_range mtd off len)
     (\<lambda>(r, d) w'. r = 0 \<longrightarrow> d = mem_read (mtd_offset mtd + off) len (nand w) \<and> (0 < len \<longrightarrow> off + len \<le> mtd_size mtd)) w"
proof -
  have same: "keeps nand (malloc_buf n)" for n
    by (intro keeps_intros) (simp add: view_defs)
  show ?thesis
    unfolding ursus_read_range_def
    by (rule wp_bindI [OF keeps_wp [OF same]])
       (auto split: option.split intro: wp_mono [OF read_range_loop_flat])
qed

text \<open>A range that passes \<open>ursus_bad_in_range\<close> meets no bad block.\<close>

lemma bad_in_range_loop_ok:
  fixes w :: "'x world_scheme"
  shows "wp (bad_in_range_loop mtd off e)
     (\<lambda>r w'. r = 0 \<longrightarrow> (\<forall>k. off + k * erasesize mtd < e \<longrightarrow>
         \<not> bad_blocks w ((mtd_offset mtd + (off + k * erasesize mtd)) div erasesize mtd))
       \<or> erasesize mtd = 0) w"
proof (induction "e - off" arbitrary: off w rule: less_induct)
  case less
  show ?case
  proof (cases "off < e \<and> 0 < erasesize mtd")
    case True
    have rest: "wp (bad_in_range_loop mtd (off + erasesize mtd) e)
       (\<lambda>r w'. r = 0 \<longrightarrow> (\<forall>k. off + k * erasesize mtd < e \<longrightarrow>
         \<not> bad_blocks w ((mtd_offset mtd + (off + k * erasesize mtd)) div erasesize mtd))
       \<or> erasesize mtd = 0) w'"
      if "bad_blocks w' = bad_blocks w" "\<not> bad_blocks w ((mtd_offset mtd + off) div erasesize mtd)"
      for w' :: "'x world_scheme"
    proof (rule wp_mono [OF less [of "off + erasesize mtd" w']])
      show "e - (off + erasesize mtd) < e - off"
        using True by linarith
    next
      fix r w''
      assume *: "r = 0 \<longrightarrow> (\<forall>k. off + erasesize mtd + k * erasesize mtd < e \<longrightarrow>
         \<not> bad_blocks w' ((mtd_offset mtd + (off + erasesize mtd + k * erasesize mtd)) div erasesize mtd))
       \<or> erasesize mtd = 0"
      show "r = 0 \<longrightarrow> (\<forall>k. off + k * erasesize mtd < e \<longrightarrow>
         \<not> bad_blocks w ((mtd_offset mtd + (off + k * erasesize mtd)) div erasesize mtd))
       \<or> erasesize mtd = 0"
      proof (intro impI disjI1 allI)
        fix k
        assume "r = 0" "off + k * erasesize mtd < e"
        with * that True show "\<not> bad_blocks w ((mtd_offset mtd + (off + k * erasesize mtd)) div erasesize mtd)"
          by (cases k) (auto simp: add.assoc dest!: spec [of _ "k - 1"])
      qed
    qed
    show ?thesis
      using True rest by (subst bad_in_range_loop.simps) (auto simp: mtd_block_isbad_def)
  next
    case False
    then show ?thesis
      by (subst bad_in_range_loop.simps) auto
  qed
qed

lemma wp_bad_in_range:
  assumes "0 < erasesize mtd" "erasesize mtd dvd mtd_offset mtd"
  shows "wp (ursus_bad_in_range mtd start len)
     (\<lambda>r w'. r = 0 \<longrightarrow> (\<forall>a. start \<le> a \<and> a < start + len \<longrightarrow>
         \<not> bad_blocks w ((mtd_offset mtd + a) div erasesize mtd))) w"
  unfolding ursus_bad_in_range_def
proof (rule wp_mono [OF bad_in_range_loop_ok], intro impI allI)
  fix r and w' :: "'a world_scheme" and a
  let ?es = "erasesize mtd" and ?base = "start - start mod erasesize mtd"
  assume *: "r = 0 \<longrightarrow> (\<forall>k. ?base + k * ?es < start + len \<longrightarrow>
      \<not> bad_blocks w ((mtd_offset mtd + (?base + k * ?es)) div ?es)) \<or> ?es = 0"
    and r: "r = (0::int)" and a: "start \<le> a \<and> a < start + len"
  obtain b where b: "?base = b * ?es"
    by (metis minus_mod_eq_div_mult)
  let ?k = "a div ?es - b"
  have "b \<le> a div ?es"
    using a b assms(1) by (metis div_le_mono minus_mod_eq_div_mult mult_right_cancel not_gr_zero order_refl)
  then have "?base + ?k * ?es = a div ?es * ?es"
    by (simp add: b flip: add_mult_distrib)
  moreover have "(mtd_offset mtd + a div ?es * ?es) div ?es = (mtd_offset mtd + a) div ?es"
    using assms by (simp add: div_plus_div_distrib_dvd_left)
  moreover have "a div ?es * ?es < start + len"
    using a by (meson div_times_less_eq_dividend order_le_less_trans)
  ultimately show "\<not> bad_blocks w ((mtd_offset mtd + a) div ?es)"
    using * r assms(1) by (metis less_not_refl)
qed

subsection \<open>The mtd read command\<close>

text \<open>Asking for more than the device has left fails.\<close>

lemma mtd_io_loop_too_long:
  fixes w :: "'x world_scheme"
  assumes "0 < erasesize mtd" "0 < writesize mtd"
  shows "mtd_size mtd < off + remaining \<Longrightarrow> 0 < remaining \<Longrightarrow> writesize mtd dvd remaining \<Longrightarrow>
         wp (mtd_io_loop n True mtd off remaining buf) (\<lambda>r w'. r \<noteq> 0) w"
proof (induction n arbitrary: off remaining buf w)
  case (Suc n)
  have skip: "wp (mtd_io_loop n True mtd (off + erasesize mtd) remaining buf) (\<lambda>r w'. r \<noteq> 0) w'"
    for w' :: "'x world_scheme"
    using Suc by simp
  have page: "wp (mtd_io_loop n True mtd (off + writesize mtd) (remaining - writesize mtd) b)
      (\<lambda>r w'. r \<noteq> 0) w'" if "off + writesize mtd \<le> mtd_size mtd" for b and w' :: "'x world_scheme"
  proof -
    have "writesize mtd < remaining"
      using Suc.prems that dvd_imp_le by force
    with Suc show ?thesis by simp
  qed
  show ?case
    using Suc.prems(2) skip page assms(2)
    by (auto simp: mtd_block_isbad_def mtd_read_def Let_def)
qed simp

lemma mtd_io_loop_read:
  fixes w :: "'x world_scheme"
  assumes "0 < erasesize mtd" "0 < writesize mtd"
  shows "mtd_size mtd \<le> off + remaining \<Longrightarrow> writesize mtd dvd remaining \<Longrightarrow>
         wp (mtd_io_loop n True mtd off remaining buf)
           (\<lambda>r w'. (\<forall>x < buf. ram w' x = ram w x) \<and>
              (r = 0 \<longrightarrow> mem_read buf remaining (ram w') =
                        mem_read (mtd_offset mtd + off) remaining (nand w))) w"
proof (induction n arbitrary: off remaining buf w)
  case (Suc n)
  let ?ws = "writesize mtd"
  let ?Q = "\<lambda>r w'. (\<forall>x < buf. ram w' x = ram w x) \<and>
              (r = (0::int) \<longrightarrow> mem_read buf remaining (ram w') =
                        mem_read (mtd_offset mtd + off) remaining (nand w))"
  have skip: "wp (mtd_io_loop n True mtd (off + erasesize mtd) remaining buf) ?Q w'"
    if "ram w' = ram w" "0 < remaining" for w' :: "'x world_scheme"
    using wp_conj [OF mtd_io_loop_too_long [OF assms, of "off + erasesize mtd" remaining n buf w']
        Suc.IH [of "off + erasesize mtd" remaining buf w']] Suc.prems assms that
    by (auto elim!: wp_mono)
  have page: "wp (mtd_io_loop n True mtd (off + ?ws) (remaining - ?ws) (buf + ?ws)) ?Q w'"
    if w': "ram w' = mem_write buf (mem_read (mtd_offset mtd + off) ?ws (nand w)) (ram w)"
      "nand w' = nand w" and rem: "0 < remaining" for w' :: "'x world_scheme"
  proof -
    have le: "?ws \<le> remaining"
      using Suc.prems(2) rem by (simp add: dvd_imp_le)
    then have "wp (mtd_io_loop n True mtd (off + ?ws) (remaining - ?ws) (buf + ?ws))
           (\<lambda>r v. (\<forall>x < buf + ?ws. ram v x = ram w' x) \<and>
              (r = 0 \<longrightarrow> mem_read (buf + ?ws) (remaining - ?ws) (ram v) =
                        mem_read (mtd_offset mtd + (off + ?ws)) (remaining - ?ws) (nand w'))) w'"
      using Suc.prems by (intro Suc.IH) simp_all
    then show ?thesis
    proof (rule wp_mono)
      fix r :: int and v :: "'x world_scheme"
      assume *: "(\<forall>x < buf + ?ws. ram v x = ram w' x) \<and>
              (r = 0 \<longrightarrow> mem_read (buf + ?ws) (remaining - ?ws) (ram v) =
                        mem_read (mtd_offset mtd + (off + ?ws)) (remaining - ?ws) (nand w'))"
      then have "mem_read buf ?ws (ram v) = mem_read buf ?ws (ram w')"
        by (simp add: mem_read_def)
      then have "mem_read buf ?ws (ram v) = mem_read (mtd_offset mtd + off) ?ws (nand w)"
        by (simp add: w')
      with * le w' mem_read_append [of buf ?ws "ram v" "remaining - ?ws"]
        mem_read_append [of "mtd_offset mtd + off" ?ws "nand w" "remaining - ?ws"]
      show "?Q r v"
        by (auto simp: mem_write_def add.assoc)
    qed
  qed
  show ?case
    using skip page assms(2)
    by (auto simp: mtd_block_isbad_def mtd_read_def Let_def)
qed simp

declare mtd_first_good.simps [simp del] mtd_io_loop.simps [simp del] mtd_erase_loop.simps [simp del]

lemma round_up_multiple: "0 < a \<Longrightarrow> (a * k + a - Suc 0) div a = (k :: nat)"
  by (rule div_nat_eqI) (auto simp: algebra_simps)

text \<open>Reading a whole device succeeds only with its exact contents in RAM.\<close>

lemma run_mtd_read_whole:
  fixes w :: "'x world_scheme"
  assumes dev: "mtd_named n w = Some m" "0 < erasesize m" "0 < writesize m" "writesize m dvd mtd_size m"
    "0 < mtd_size m" and addr: "addr < 2 ^ 32"
  shows "wp (run_mtd (Mtd_read n addr 0 (mtd_size m)))
           (\<lambda>r w'. r = 0 \<longrightarrow> mem_read addr (mtd_size m) (ram w') = mem_read (mtd_offset m) (mtd_size m) (nand w)) w"
proof -
  let ?Q = "\<lambda>r w'. r = (0::int) \<longrightarrow> mem_read addr (mtd_size m) (ram w') = mem_read (mtd_offset m) (mtd_size m) (nand w)"
  have round: "(mtd_size m + writesize m - 1) div writesize m * writesize m = mtd_size m"
    using dev(3,4) by (auto elim!: dvdE simp: round_up_multiple)
  have loop: "wp (mtd_io_loop k True m g (mtd_size m) addr) ?Q v"
    if "nand v = nand w" for k g and v :: "'x world_scheme"
  proof (cases "g = 0")
    case True
    then show ?thesis
      using mtd_io_loop_read [OF dev(2,3), of 0 "mtd_size m" k addr v] dev(4) that
      by (auto elim!: wp_mono)
  next
    case False
    then show ?thesis
      using mtd_io_loop_too_long [OF dev(2,3), of g "mtd_size m" k addr v] dev(4,5)
      by (auto elim!: wp_mono)
  qed
  have same: "keeps (nand :: 'x world_scheme \<Rightarrow> _) (mtd_first_good k m 0)" for k
    by (intro keeps_first_good) (simp_all add: view_defs)
  have "wp (mtd_io_on True m addr 0 (mtd_size m)) ?Q w"
    unfolding mtd_io_on_def round Let_def
    using addr dev(3) loop
    by (auto simp: mod_less split: option.split intro!: wp_mono [OF keeps_wp [OF same]]
          elim!: wp_mono)
  then show ?thesis
    using dev(1) by (auto simp: run_mtd_def do_mtd_io_def elim!: wp_mono)
qed

end
