(* ===== verification/Ubi_Table.thy ===== *)
theory Ubi_Table
  imports Mtd
begin

text \<open>
  The lower half of the UBI layer: the eraseblock operations it builds on (an environment driven
  by the oracle), the volume table with its two copies (\<open>drivers/mtd/ubi/vtbl.c\<close>), and attaching a
  device.  A volume is addressed by its index in the volume array, which is also its identifier.
\<close>

section \<open>Access to the attached device\<close>

definition get_ubi :: "('x world_scheme, ubi_device) state" where
  "get_ubi = gets (\<lambda>w. the (ubi w))"

definition upd_ubi :: "(ubi_device \<Rightarrow> ubi_device) \<Rightarrow> ('x world_scheme, unit) state" where
  "upd_ubi f = modify (\<lambda>w. w\<lparr>ubi := map_option f (ubi w)\<rparr>)"

definition get_vol :: "nat \<Rightarrow> ('x world_scheme, ubi_volume) state" where
  "get_vol i = gets (\<lambda>w. the (volumes (the (ubi w)) ! i))"

definition upd_vol :: "nat \<Rightarrow> (ubi_volume \<Rightarrow> ubi_volume) \<Rightarrow> ('x world_scheme, unit) state" where
  "upd_vol i f = upd_ubi (\<lambda>d. d\<lparr>volumes := (volumes d)[i := map_option f (volumes d ! i)]\<rparr>)"

definition upd_media :: "(ubi_media \<Rightarrow> ubi_media) \<Rightarrow> ('x world_scheme, unit) state" where
  "upd_media f = modify (\<lambda>w. w\<lparr>media := f (media w)\<rparr>)"

section \<open>Eraseblock operations\<close>

text \<open>
  \<open>drivers/mtd/ubi/eba.c\<close> and \<open>wl.c\<close> are below the model.  What is used of them: an unmapped
  block reads as 0xff; a write that reports success has stored bytes of the same number; a failed
  one has not changed the block and may have switched the device to read-only mode; an atomic
  change of a volume table copy stores the new table or leaves the old one.
\<close>

definition ubi_io :: "('x world_scheme, nat \<times> int) state" where
  "ubi_io = do {
     t \<leftarrow> io_tick;
     e \<leftarrow> io_result t;
     touch_raw t;
     ro \<leftarrow> gets (\<lambda>w. goes_ro (orc w) t);
     when_m (e \<noteq> 0 \<and> ro) (upd_ubi (\<lambda>d. d\<lparr>ro_mode := True\<rparr>));
     ret (t, e)
   }"

definition eba_read_leb :: "nat \<Rightarrow> nat \<Rightarrow> nat \<Rightarrow> nat \<Rightarrow> ('x world_scheme, int \<times> bytes) state" where
  "eba_read_leb i lnum off len = do {
     l \<leftarrow> gets (\<lambda>w. leb_map (media w) i lnum);
     case l of
       None \<Rightarrow> ret (0, replicate len 0xff)
     | Some p \<Rightarrow> do {
         t \<leftarrow> io_tick;
         e \<leftarrow> io_result t;
         gets (\<lambda>w. let d = take len (drop off (fst p) @ replicate len 0xff)
                   in (e, if e = 0 then d else noisy (io_noise (orc w) t) d))
       }
   }"

definition set_leb :: "nat \<Rightarrow> nat \<Rightarrow> (bytes \<times> nat) option \<Rightarrow> ubi_media \<Rightarrow> ubi_media" where
  "set_leb i lnum x m = m\<lparr>leb_map := (leb_map m)(i := (leb_map m i)(lnum := x))\<rparr>"

definition eba_write_leb :: "nat \<Rightarrow> nat \<Rightarrow> bytes \<Rightarrow> nat \<Rightarrow> ('x world_scheme, int) state" where
  "eba_write_leb i lnum data ebs = do {
     u \<leftarrow> get_ubi;
     if ro_mode u then ret (- EROFS)
     else do {
       (t, e) \<leftarrow> ubi_io;
       noise \<leftarrow> gets (\<lambda>w. io_noise (orc w) t);
       when_m (e = 0) (upd_media (set_leb i lnum (Some (noisy noise data, ebs))));
       ret e
     }
   }"

definition eba_unmap_leb :: "nat \<Rightarrow> nat \<Rightarrow> ('x world_scheme, int) state" where
  "eba_unmap_leb i lnum = do {
     u \<leftarrow> get_ubi;
     l \<leftarrow> gets (\<lambda>w. leb_map (media w) i lnum);
     if ro_mode u then ret (- EROFS)
     else if l = None then ret 0
     else do {
       upd_media (set_leb i lnum None);
       (t, e) \<leftarrow> ubi_io;
       ret e
     }
   }"

definition eba_change_vtbl_copy :: "nat \<Rightarrow> ('x world_scheme, int) state" where
  "eba_change_vtbl_copy copy = do {
     u \<leftarrow> get_ubi;
     if ro_mode u then ret (- EROFS)
     else do {
       (t, e) \<leftarrow> ubi_io;
       when_m (e = 0) (upd_media (\<lambda>m. if copy = 0 then m\<lparr>lvol0 := Some (vtbl u)\<rparr> else m\<lparr>lvol1 := Some (vtbl u)\<rparr>));
       ret e
     }
   }"

definition ubi_wl_flush :: "('x world_scheme, int) state" where
  "ubi_wl_flush = do { (t, e) \<leftarrow> ubi_io; ret e }"

section \<open>The volume table\<close>

definition UBI_VOL_NAME_MAX :: nat where "UBI_VOL_NAME_MAX = 127"
definition UBI_MAX_VOLUMES :: nat where "UBI_MAX_VOLUMES = 128"
definition UBI_VTBL_RECORD_SIZE :: nat where "UBI_VTBL_RECORD_SIZE = 172"
definition UBI_VID_DYNAMIC :: nat where "UBI_VID_DYNAMIC = 1"
definition UBI_VID_STATIC :: nat where "UBI_VID_STATIC = 2"
definition UBI_LAYOUT_VOLUME_NAME :: string where "UBI_LAYOUT_VOLUME_NAME = ''layout volume''"
definition UBI_LAYOUT_VOLUME_ID :: nat where "UBI_LAYOUT_VOLUME_ID = 0x7fffffff - 4096"
definition UBI_LAYOUT_VOLUME_EBS :: nat where "UBI_LAYOUT_VOLUME_EBS = 2"

definition empty_vtbl_record :: ubi_vtbl_record where
  "empty_vtbl_record =
     \<lparr>vr_reserved_pebs = 0, vr_alignment = 0, vr_data_pad = 0, vr_vol_type = 0, vr_upd_marker = 0,
      vr_name_len = 0, vr_name = [], vr_flags = 0, vr_crc_ok = True\<rparr>"

definition ubi_update_layout_vol :: "('x world_scheme, int) state" where
  "ubi_update_layout_vol = do {
     e \<leftarrow> eba_change_vtbl_copy 0;
     if e \<noteq> 0 then ret e else eba_change_vtbl_copy 1
   }"

definition ubi_change_vtbl_record :: "nat \<Rightarrow> ubi_vtbl_record option \<Rightarrow> ('x world_scheme, int) state" where
  "ubi_change_vtbl_record idx r = do {
     upd_ubi (\<lambda>d. d\<lparr>vtbl := (vtbl d)[idx :=
       (case r of None \<Rightarrow> empty_vtbl_record | Some rec \<Rightarrow> rec\<lparr>vr_crc_ok := True\<rparr>)]\<rparr>);
     ubi_update_layout_vol
   }"

record ubi_rename_entry =
  re_vol :: nat
  re_new_name :: string
  re_remove :: bool

fun rename_records :: "ubi_rename_entry list \<Rightarrow> ubi_vtbl_record list \<Rightarrow> ubi_vtbl_record list" where
  "rename_records [] tbl = tbl"
| "rename_records (re # res) tbl =
     rename_records res
       (tbl[re_vol re :=
          (if re_remove re then empty_vtbl_record
           else (tbl ! re_vol re)\<lparr>vr_name_len := length (re_new_name re), vr_name := re_new_name re,
                                  vr_crc_ok := True\<rparr>)])"

definition ubi_vtbl_rename_volumes :: "ubi_rename_entry list \<Rightarrow> ('x world_scheme, int) state" where
  "ubi_vtbl_rename_volumes res = do {
     upd_ubi (\<lambda>d. d\<lparr>vtbl := rename_records res (vtbl d)\<rparr>);
     ubi_update_layout_vol
   }"

definition vtbl_record_bad :: "ubi_device \<Rightarrow> ubi_vtbl_record \<Rightarrow> bool" where
  "vtbl_record_bad d r =
     (vr_reserved_pebs r < 0 \<or> vr_alignment r < 0 \<or> vr_data_pad r < 0
      \<or> vr_alignment r > int (leb_size d) \<or> vr_alignment r = 0
      \<or> (vr_alignment r \<noteq> 1 \<and> vr_alignment r AND (int (min_io_size d) - 1) \<noteq> 0)
      \<or> vr_data_pad r \<noteq> int (leb_size d) mod vr_alignment r
      \<or> (vr_vol_type r \<noteq> UBI_VID_DYNAMIC \<and> vr_vol_type r \<noteq> UBI_VID_STATIC)
      \<or> (vr_upd_marker r \<noteq> 0 \<and> vr_upd_marker r \<noteq> 1)
      \<or> vr_reserved_pebs r > good_peb_count d
      \<or> vr_name_len r > UBI_VOL_NAME_MAX
      \<or> vr_name r = []
      \<or> vr_name_len r \<noteq> min (length (vr_name r)) (vr_name_len r + 1))"

fun vtbl_check_records :: "ubi_device \<Rightarrow> ubi_vtbl_record list \<Rightarrow> int" where
  "vtbl_check_records d [] = 0"
| "vtbl_check_records d (r # rs) =
     (if \<not> vr_crc_ok r then 1
      else if vr_reserved_pebs r = 0
      then if r \<noteq> empty_vtbl_record then - EINVAL else vtbl_check_records d rs
      else if vtbl_record_bad d r then - EINVAL
      else vtbl_check_records d rs)"

definition same_record_name :: "ubi_vtbl_record \<Rightarrow> ubi_vtbl_record \<Rightarrow> bool" where
  "same_record_name r s =
     (vr_name_len r > 0 \<and> vr_name_len r = vr_name_len s
      \<and> take (vr_name_len r) (vr_name r) = take (vr_name_len r) (vr_name s))"

fun vtbl_names_clash :: "ubi_vtbl_record list \<Rightarrow> bool" where
  "vtbl_names_clash [] = False"
| "vtbl_names_clash (r # rs) = (list_ex (same_record_name r) rs \<or> vtbl_names_clash rs)"

text \<open>A copy that holds fewer records than the table has slots fails the checksum.\<close>

definition vtbl_check :: "ubi_device \<Rightarrow> ubi_vtbl_record list \<Rightarrow> int" where
  "vtbl_check d tbl =
     (let e = vtbl_check_records d (take (vtbl_slots d) tbl)
      in if length tbl < vtbl_slots d then 1
         else if e \<noteq> 0 then e
         else if vtbl_names_clash (take (vtbl_slots d) tbl) then - EINVAL else 0)"

section \<open>Attaching\<close>

definition create_vtbl :: "nat \<Rightarrow> ubi_vtbl_record list \<Rightarrow> ('x world_scheme, int) state" where
  "create_vtbl copy tbl = do {
     (t, e) \<leftarrow> ubi_io;
     when_m (e = 0) (upd_media (\<lambda>m. if copy = 0 then m\<lparr>lvol0 := Some tbl, media_empty := False\<rparr>
                                 else m\<lparr>lvol1 := Some tbl, media_empty := False\<rparr>));
     ret e
   }"

text \<open>The table that is used, or the error.\<close>

definition process_lvol :: "ubi_device \<Rightarrow> ('x world_scheme, int + ubi_vtbl_record list) state" where
  "process_lvol d = do {
     m \<leftarrow> gets media;
     let c0 = (case lvol0 m of None \<Rightarrow> 1 | Some tbl \<Rightarrow> vtbl_check d tbl);
     if c0 < 0 then ret (Inl (- EINVAL))
     else if c0 = 0
     then if lvol1 m = lvol0 m then ret (Inr (the (lvol0 m)))
          else do {
            e \<leftarrow> create_vtbl 1 (the (lvol0 m));
            ret (if e \<noteq> 0 then Inl e else Inr (the (lvol0 m)))
          }
     else let c1 = (case lvol1 m of None \<Rightarrow> 1 | Some tbl \<Rightarrow> vtbl_check d tbl)
          in if c1 \<noteq> 0 then ret (Inl (- EINVAL))
             else do {
               e \<leftarrow> create_vtbl 0 (the (lvol1 m));
               ret (if e \<noteq> 0 then Inl e else Inr (the (lvol1 m)))
             }
   }"

definition create_empty_lvol :: "ubi_device \<Rightarrow> ('x world_scheme, int + ubi_vtbl_record list) state" where
  "create_empty_lvol d =
     (let tbl = replicate (vtbl_slots d) empty_vtbl_record
      in do {
        e0 \<leftarrow> create_vtbl 0 tbl;
        if e0 \<noteq> 0 then ret (Inl e0)
        else do {
          e1 \<leftarrow> create_vtbl 1 tbl;
          ret (if e1 \<noteq> 0 then Inl e1 else Inr tbl)
        }
      })"

text \<open>
  A static volume's size is recovered from the headers of its eraseblocks: the count of blocks
  found has to be the number of used blocks that the headers record.
\<close>

definition static_lebs :: "ubi_media \<Rightarrow> nat \<Rightarrow> nat \<Rightarrow> nat list" where
  "static_lebs m i n = filter (\<lambda>l. leb_map m i l \<noteq> None) [0..<n]"

definition new_volume :: "nat \<Rightarrow> ubi_volume" where
  "new_volume i =
     \<lparr>vol_id = i, vol_type = UBI_DYNAMIC_VOLUME, vol_name_len = 0, vol_name = [], alignment = 0,
      data_pad = 0, reserved_pebs = 0, usable_leb_size = 0, used_ebs = 0, last_eb_bytes = 0,
      used_bytes = 0, upd_marker = False, updating = False, corrupted = False, checked = False,
      skip_check = False, upd_ebs = 0, upd_bytes = 0, upd_received = 0, upd_buf = [], readers = 0,
      writers = 0, exclusive = False\<rparr>"

definition UBI_VTBL_AUTORESIZE_FLG :: nat where "UBI_VTBL_AUTORESIZE_FLG = 1"
definition UBI_VTBL_SKIP_CRC_CHECK_FLG :: nat where "UBI_VTBL_SKIP_CRC_CHECK_FLG = 2"

definition init_volume :: "ubi_device \<Rightarrow> ubi_media \<Rightarrow> nat \<Rightarrow> ubi_vtbl_record \<Rightarrow> ubi_volume option" where
  "init_volume d m i r =
     (if vr_reserved_pebs r = 0 then None
      else
        let n = nat (vr_reserved_pebs r);
            usable = leb_size d - nat (vr_data_pad r);
            v = (new_volume i)
              \<lparr>reserved_pebs := n, alignment := nat (vr_alignment r), data_pad := nat (vr_data_pad r),
               upd_marker := vr_upd_marker r \<noteq> 0,
               vol_type := (if vr_vol_type r = UBI_VID_DYNAMIC then UBI_DYNAMIC_VOLUME else UBI_STATIC_VOLUME),
               vol_name_len := vr_name_len r, usable_leb_size := usable,
               vol_name := take (vr_name_len r) (vr_name r),
               skip_check := vr_flags r AND UBI_VTBL_SKIP_CRC_CHECK_FLG \<noteq> 0\<rparr>
        in if vr_vol_type r = UBI_VID_DYNAMIC
           then Some (v\<lparr>used_ebs := n, last_eb_bytes := usable, used_bytes := n * usable\<rparr>)
           else case static_lebs m i n of
                  [] \<Rightarrow> Some v
                | l # ls \<Rightarrow>
                    let ebs = snd (the (leb_map m i l));
                        last_size = length (fst (the (leb_map m i (last (l # ls)))))
                    in if length (l # ls) \<noteq> ebs then Some (v\<lparr>corrupted := True\<rparr>)
                       else Some (v\<lparr>used_ebs := ebs, used_bytes := (ebs - 1) * usable + last_size,
                                    last_eb_bytes := last_size\<rparr>))"

definition layout_volume :: "ubi_device \<Rightarrow> ubi_volume" where
  "layout_volume d =
     (new_volume UBI_LAYOUT_VOLUME_ID)
       \<lparr>reserved_pebs := UBI_LAYOUT_VOLUME_EBS, alignment := 1,
        vol_name_len := length UBI_LAYOUT_VOLUME_NAME, vol_name := UBI_LAYOUT_VOLUME_NAME,
        usable_leb_size := leb_size d, used_ebs := UBI_LAYOUT_VOLUME_EBS,
        last_eb_bytes := UBI_LAYOUT_VOLUME_EBS, used_bytes := UBI_LAYOUT_VOLUME_EBS * leb_size d\<rparr>"

definition init_volumes :: "ubi_device \<Rightarrow> ubi_media \<Rightarrow> int + ubi_device" where
  "init_volumes d m =
     (let recs = take (vtbl_slots d) (vtbl d);
          vols = map (\<lambda>(i, r). init_volume d m i r) (enumerate 0 recs) @ [Some (layout_volume d)];
          present = filter (\<lambda>v. v \<noteq> None) vols;
          rsvd = sum_list (map (\<lambda>v. int (reserved_pebs (the v))) present)
      in if length (filter (\<lambda>r. vr_reserved_pebs r \<noteq> 0 \<and> vr_flags r AND UBI_VTBL_AUTORESIZE_FLG \<noteq> 0) recs) > 1
         then Inl (- EINVAL)
         else Inr (d\<lparr>volumes := vols, vol_count := int (length present),
                     rsvd_pebs := rsvd_pebs d + rsvd, avail_pebs := avail_pebs d - rsvd\<rparr>))"

text \<open>Eraseblocks of volumes that the table does not know are dropped.\<close>

definition check_attaching_info :: "ubi_device \<Rightarrow> ubi_media \<Rightarrow> ubi_media" where
  "check_attaching_info d m =
     m\<lparr>leb_map := (\<lambda>i. if i < vtbl_slots d \<and> volumes d ! i = None then (\<lambda>_. None) else leb_map m i)\<rparr>"

definition ubi_read_volume_table :: "ubi_device \<Rightarrow> ('x world_scheme, int + ubi_device) state" where
  "ubi_read_volume_table d0 =
     (let d = d0\<lparr>vtbl_slots := min (leb_size d0 div UBI_VTBL_RECORD_SIZE) UBI_MAX_VOLUMES\<rparr>
      in do {
        m \<leftarrow> gets media;
        r \<leftarrow> (if lvol0 m = None \<and> lvol1 m = None
             then if media_empty m then create_empty_lvol d else ret (Inl (- EINVAL))
             else process_lvol d);
        case r of
          Inl e \<Rightarrow> ret (Inl e)
        | Inr tbl \<Rightarrow> do {
            m \<leftarrow> gets media;
            case init_volumes (d\<lparr>vtbl := tbl, avail_pebs := good_peb_count d - corr_peb_count d\<rparr>) m of
              Inl e \<Rightarrow> ret (Inl e)
            | Inr d' \<Rightarrow> do {
                upd_media (check_attaching_info d');
                ret (Inr d')
              }
          }
      })"

text \<open>Is every good block of the UBI region erased?\<close>

definition region_blank :: "'x world_scheme \<Rightarrow> bool" where
  "region_blank w =
     list_all (\<lambda>a. nand w a = 0xff \<or> bad_blocks w (a div 0x20000))
       [URSUS_UBI_BASE..<URSUS_UBI_BASE + URSUS_UBI_SIZE]"

definition scan_device :: "nat \<Rightarrow> ('x world_scheme, unit) state" where
  "scan_device t =
     modify (\<lambda>w. if media_stale w
                 then w\<lparr>media := (if region_blank w then blank_media else scan_media (scan (orc w) t)),
                       media_stale := False\<rparr>
                 else w)"

definition WL_RESERVED_PEBS :: int where "WL_RESERVED_PEBS = 1"
definition EBA_RESERVED_PEBS :: int where "EBA_RESERVED_PEBS = 1"

text \<open>The accounting of \<open>ubi_wl_init\<close> and \<open>ubi_eba_init\<close>.\<close>

definition reserve_pebs :: "int \<Rightarrow> ubi_device \<Rightarrow> int + ubi_device" where
  "reserve_pebs bad_limit d =
     (if avail_pebs d < WL_RESERVED_PEBS then Inl (- ENOSPC)
      else if avail_pebs d - WL_RESERVED_PEBS < EBA_RESERVED_PEBS then Inl (- ENOSPC)
      else
        let a = avail_pebs d - WL_RESERVED_PEBS - EBA_RESERVED_PEBS;
            level = max 0 (bad_limit - bad_peb_count d);
            beb = (if a < level then a else level)
        in Inr (d\<lparr>avail_pebs := a - beb, beb_rsvd_level := level, beb_rsvd_pebs := beb,
                  rsvd_pebs := rsvd_pebs d + WL_RESERVED_PEBS + EBA_RESERVED_PEBS + beb\<rparr>))"

definition new_device :: "mtd_info \<Rightarrow> ubi_scan \<Rightarrow> ubi_device" where
  "new_device mtd sc =
     \<lparr>dev_mtd = mtd_name mtd, leb_size = erasesize mtd - 2 * writesize mtd, min_io_size = writesize mtd,
      vtbl_slots = 0, volumes = [], vtbl = [], peb_count = int (mtd_size mtd div erasesize mtd),
      good_peb_count = scan_good sc, bad_peb_count = scan_bad sc, corr_peb_count = scan_corr sc,
      avail_pebs = 0, rsvd_pebs = 0, beb_rsvd_pebs = 0, beb_rsvd_level = 0, vol_count = 0,
      ro_mode = False\<rparr>"

definition ubi_attach :: "mtd_info \<Rightarrow> ('x world_scheme, int) state" where
  "ubi_attach mtd = do {
     t \<leftarrow> io_tick;
     e \<leftarrow> io_result t;
     if e \<noteq> 0 then ret e
     else do {
       scan_device t;
       sc \<leftarrow> gets (\<lambda>w. scan (orc w) t);
       r \<leftarrow> ubi_read_volume_table (new_device mtd sc);
       case r of
         Inl e \<Rightarrow> ret e
       | Inr d \<Rightarrow>
           (case reserve_pebs (scan_bad_limit sc) d of
              Inl e \<Rightarrow> ret e
            | Inr d' \<Rightarrow> do { modify (\<lambda>w. w\<lparr>ubi := Some d'\<rparr>); ret 0 })
     }
   }"

end
