(* ===== verification/Ubi_Volumes.thy ===== *)
theory Ubi_Volumes
  imports Ubi_Table
begin

text \<open>
  The upper half of the UBI layer and the \<open>ubi\<close> command: volume creation, removal and renaming
  (\<open>drivers/mtd/ubi/vmt.c\<close>), volume update (\<open>upd.c\<close>, \<open>misc.c\<close>), opening by name (\<open>kapi.c\<close>), and
  \<open>cmd/ubi.c\<close> with the result folding of \<open>run_command\<close>.  Tokenising of command lines is left out:
  a command is a value of \<open>ubi_command\<close>.
\<close>

section \<open>Finding volumes\<close>

definition volume_named :: "ubi_device \<Rightarrow> string \<Rightarrow> nat \<Rightarrow> bool" where
  "volume_named d n i = (case volumes d ! i of None \<Rightarrow> False | Some v \<Rightarrow> vol_name v = n)"

text \<open>0 when a volume of that name exists, the layout volume included.\<close>

definition ubi_check :: "string \<Rightarrow> ('x world_scheme, int) state" where
  "ubi_check n = gets (\<lambda>w. let d = the (ubi w)
     in if list_ex (volume_named d n) [0..<vtbl_slots d + 1] then 0 else 1)"

definition ubi_find_volume :: "string \<Rightarrow> ('x world_scheme, nat option) state" where
  "ubi_find_volume n = gets (\<lambda>w. let d = the (ubi w) in find (volume_named d n) [0..<vtbl_slots d])"

section \<open>Creating and removing\<close>

record ubi_mkvol_req =
  req_vol_id :: "nat option"
  req_alignment :: nat
  req_bytes :: int
  req_vol_type :: ubi_vol_type
  req_name :: string
  req_skip_check :: bool

definition verify_mkvol_req :: "ubi_device \<Rightarrow> ubi_mkvol_req \<Rightarrow> int" where
  "verify_mkvol_req d req =
     (if req_bytes req < 0 then EINVAL
      else if (case req_vol_id req of None \<Rightarrow> False | Some i \<Rightarrow> i \<ge> vtbl_slots d) then EINVAL
      else if req_alignment req = 0 then EINVAL
      else if req_bytes req = 0 then ENOMEM
      else if req_alignment req > leb_size d then EINVAL
      else if req_alignment req \<noteq> 1 \<and> req_alignment req mod min_io_size d \<noteq> 0 then EINVAL
      else if length (req_name req) > UBI_VOL_NAME_MAX then ENAMETOOLONG
      else 0)"

definition vacant_id :: "ubi_device \<Rightarrow> nat option" where
  "vacant_id d = find (\<lambda>i. volumes d ! i = None) [0..<vtbl_slots d]"

definition mkvol :: "ubi_device \<Rightarrow> ubi_mkvol_req \<Rightarrow> nat \<Rightarrow> ubi_volume" where
  "mkvol d req i =
     (let usable = leb_size d - leb_size d mod req_alignment req;
          n = (nat (req_bytes req) + usable - 1) div usable;
          v = (new_volume i)
            \<lparr>skip_check := req_skip_check req, usable_leb_size := usable, reserved_pebs := n,
             alignment := req_alignment req, data_pad := leb_size d mod req_alignment req,
             vol_type := req_vol_type req, vol_name_len := length (req_name req),
             vol_name := req_name req\<rparr>
      in if req_vol_type req = UBI_DYNAMIC_VOLUME
         then v\<lparr>used_ebs := n, last_eb_bytes := usable, used_bytes := n * usable\<rparr>
         else v\<lparr>used_ebs := 0, last_eb_bytes := usable\<rparr>)"

definition vtbl_record_of :: "ubi_volume \<Rightarrow> ubi_vtbl_record" where
  "vtbl_record_of v =
     empty_vtbl_record\<lparr>vr_reserved_pebs := int (reserved_pebs v), vr_alignment := int (alignment v),
       vr_data_pad := int (data_pad v), vr_name_len := vol_name_len v,
       vr_vol_type := (if vol_type v = UBI_DYNAMIC_VOLUME then UBI_VID_DYNAMIC else UBI_VID_STATIC),
       vr_flags := (if skip_check v then UBI_VTBL_SKIP_CRC_CHECK_FLG else 0),
       vr_name := vol_name v\<rparr>"

definition move_pebs :: "int \<Rightarrow> ubi_device \<Rightarrow> ubi_device" where
  "move_pebs n d = d\<lparr>avail_pebs := avail_pebs d - n, rsvd_pebs := rsvd_pebs d + n\<rparr>"

text \<open>The part of \<open>ubi_create_volume\<close> after the request has been accepted.\<close>

definition commit_volume :: "ubi_volume \<Rightarrow> ('x world_scheme, int) state" where
  "commit_volume v = do {
     upd_ubi (move_pebs (int (reserved_pebs v)));
     e \<leftarrow> ubi_wl_flush;
     r \<leftarrow> (if e \<noteq> 0 then ret e
          else do {
            tbl \<leftarrow> memalign_addr;
            if tbl = 0 then ret (- ENOMEM)
            else do {
              upd_media (\<lambda>m. m\<lparr>leb_map := (leb_map m)(vol_id v := (\<lambda>_. None))\<rparr>);
              ubi_change_vtbl_record (vol_id v) (Some (vtbl_record_of v))
            }
          });
     if r \<noteq> 0
     then do { upd_ubi (move_pebs (- int (reserved_pebs v))); ret r }
     else do {
       upd_ubi (\<lambda>d. d\<lparr>volumes := (volumes d)[vol_id v := Some v], vol_count := vol_count d + 1\<rparr>);
       ret 0
     }
   }"

definition ubi_create_volume :: "ubi_mkvol_req \<Rightarrow> ('x world_scheme, int) state" where
  "ubi_create_volume req = do {
     d \<leftarrow> get_ubi;
     if ro_mode d then ret (- EROFS)
     else do {
       p \<leftarrow> memalign_addr;
       if p = 0 then ret (- ENOMEM)
       else case (case req_vol_id req of None \<Rightarrow> vacant_id d | Some i \<Rightarrow> Some i) of
              None \<Rightarrow> ret (- ENFILE)
            | Some i \<Rightarrow>
                if volumes d ! i \<noteq> None then ret (- EEXIST)
                else if list_ex (\<lambda>j. case volumes d ! j of None \<Rightarrow> False
                       | Some v \<Rightarrow> vol_name_len v = length (req_name req) \<and> vol_name v = req_name req)
                       [0..<vtbl_slots d] then ret (- EEXIST)
                else if int (reserved_pebs (mkvol d req i)) > avail_pebs d then ret (- ENOSPC)
                else commit_volume (mkvol d req i)
     }
   }"

definition ubi_create_vol :: "string \<Rightarrow> int \<Rightarrow> bool \<Rightarrow> nat option \<Rightarrow> bool \<Rightarrow> ('x world_scheme, int) state" where
  "ubi_create_vol n sz dynamic i skipcheck =
     (let req = \<lparr>req_vol_id = i, req_alignment = 1, req_bytes = sz,
                 req_vol_type = (if dynamic then UBI_DYNAMIC_VOLUME else UBI_STATIC_VOLUME),
                 req_name = n, req_skip_check = skipcheck\<rparr>
      in do {
        d \<leftarrow> get_ubi;
        if verify_mkvol_req d req \<noteq> 0 then ret (verify_mkvol_req d req)
        else ubi_create_volume req
      })"

fun unmap_lebs :: "nat \<Rightarrow> nat list \<Rightarrow> ('x world_scheme, int) state" where
  "unmap_lebs i [] = ret 0"
| "unmap_lebs i (l # ls) = do {
     e \<leftarrow> eba_unmap_leb i l;
     if e \<noteq> 0 then ret e else unmap_lebs i ls
   }"

text \<open>The tail of \<open>ubi_remove_vol\<close>: give the blocks back, and refill the bad-block reserve.\<close>

definition release_volume :: "nat \<Rightarrow> nat \<Rightarrow> ubi_device \<Rightarrow> ubi_device" where
  "release_volume i n d =
     (let d1 = move_pebs (- int n) (d\<lparr>volumes := (volumes d)[i := None]\<rparr>);
          gap = beb_rsvd_level d1 - beb_rsvd_pebs d1;
          k = (if avail_pebs d1 \<ge> gap then gap else avail_pebs d1)
      in (if gap > 0 then (move_pebs k d1)\<lparr>beb_rsvd_pebs := beb_rsvd_pebs d1 + k\<rparr> else d1)
           \<lparr>vol_count := vol_count d - 1\<rparr>)"

definition ubi_remove_vol :: "string \<Rightarrow> ('x world_scheme, int) state" where
  "ubi_remove_vol n = do {
     f \<leftarrow> ubi_find_volume n;
     case f of
       None \<Rightarrow> ret ENODEV
     | Some i \<Rightarrow> do {
         d \<leftarrow> get_ubi;
         v \<leftarrow> get_vol i;
         e \<leftarrow> (if ro_mode d then ret EROFS
              else do {
                e \<leftarrow> ubi_change_vtbl_record i None;
                if e \<noteq> 0 then ret e else unmap_lebs i [0..<reserved_pebs v]
              });
         if e \<noteq> 0 then ret (if e < 0 then - e else e)
         else do { upd_ubi (release_volume i (reserved_pebs v)); ret 0 }
       }
   }"

section \<open>Renaming\<close>

definition ubi_remove_volume :: "nat \<Rightarrow> bool \<Rightarrow> ('x world_scheme, int) state" where
  "ubi_remove_volume i no_vtbl = do {
     d \<leftarrow> get_ubi;
     v \<leftarrow> get_vol i;
     if ro_mode d then ret (- EROFS)
     else do {
       e \<leftarrow> (if no_vtbl then ret 0 else ubi_change_vtbl_record i None);
       e \<leftarrow> (if e \<noteq> 0 then ret e else unmap_lebs i [0..<reserved_pebs v]);
       if e \<noteq> 0 then ret e
       else do {
         upd_ubi (\<lambda>d.
           let d1 = move_pebs (- int (reserved_pebs v)) (d\<lparr>volumes := (volumes d)[i := None]\<rparr>);
               need = beb_rsvd_level d1 - beb_rsvd_pebs d1;
               k = min need (avail_pebs d1)
           in (if need \<le> 0 \<or> avail_pebs d1 = 0 then d1
               else (move_pebs k d1)\<lparr>beb_rsvd_pebs := beb_rsvd_pebs d1 + k\<rparr>)\<lparr>vol_count := vol_count d - 1\<rparr>);
         ret 0
       }
     }
   }"

fun apply_renames :: "ubi_rename_entry list \<Rightarrow> ('x world_scheme, int) state" where
  "apply_renames [] = ret 0"
| "apply_renames (re # res) =
     (if re_remove re
      then do {
        e \<leftarrow> ubi_remove_volume (re_vol re) True;
        if e \<noteq> 0 then ret e else apply_renames res
      }
      else do {
        upd_vol (re_vol re) (\<lambda>v. v\<lparr>vol_name_len := length (re_new_name re), vol_name := re_new_name re\<rparr>);
        apply_renames res
      })"

definition ubi_rename_volumes :: "ubi_rename_entry list \<Rightarrow> ('x world_scheme, int) state" where
  "ubi_rename_volumes res = do {
     e \<leftarrow> ubi_vtbl_rename_volumes res;
     if e \<noteq> 0 then ret e else apply_renames res
   }"

definition ubi_rename_vol :: "string \<Rightarrow> string \<Rightarrow> ('x world_scheme, int) state" where
  "ubi_rename_vol oldname newname = do {
     f \<leftarrow> ubi_find_volume oldname;
     case f of
       None \<Rightarrow> ret ENODEV
     | Some i \<Rightarrow> do {
         c \<leftarrow> ubi_check newname;
         d \<leftarrow> get_ubi;
         if c = 0 then ret EINVAL
         else if ro_mode d then ret EROFS
         else ubi_rename_volumes [\<lparr>re_vol = i, re_new_name = newname, re_remove = False\<rparr>]
       }
   }"

section \<open>Updating a volume\<close>

definition set_update_marker :: "nat \<Rightarrow> ('x world_scheme, int) state" where
  "set_update_marker i = do {
     v \<leftarrow> get_vol i;
     d \<leftarrow> get_ubi;
     if upd_marker v then ret 0
     else do {
       e \<leftarrow> ubi_change_vtbl_record i (Some ((vtbl d ! i)\<lparr>vr_upd_marker := 1\<rparr>));
       upd_vol i (\<lambda>v. v\<lparr>upd_marker := True\<rparr>);
       ret e
     }
   }"

definition set_static_size :: "nat \<Rightarrow> ubi_volume \<Rightarrow> ubi_volume" where
  "set_static_size n v =
     v\<lparr>corrupted := False, used_bytes := n,
       used_ebs := n div usable_leb_size v + (if n mod usable_leb_size v \<noteq> 0 then 1 else 0),
       last_eb_bytes := (if n mod usable_leb_size v \<noteq> 0 then n mod usable_leb_size v else usable_leb_size v)\<rparr>"

definition clear_update_marker :: "nat \<Rightarrow> nat \<Rightarrow> ('x world_scheme, int) state" where
  "clear_update_marker i n = do {
     d \<leftarrow> get_ubi;
     upd_vol i (\<lambda>v. if vol_type v = UBI_STATIC_VOLUME then set_static_size n v else v);
     e \<leftarrow> ubi_change_vtbl_record i (Some ((vtbl d ! i)\<lparr>vr_upd_marker := 0\<rparr>));
     upd_vol i (\<lambda>v. v\<lparr>upd_marker := False\<rparr>);
     ret e
   }"

definition ubi_start_update :: "nat \<Rightarrow> nat \<Rightarrow> ('x world_scheme, int) state" where
  "ubi_start_update i n = do {
     upd_vol i (\<lambda>v. v\<lparr>updating := True\<rparr>);
     d \<leftarrow> get_ubi;
     b \<leftarrow> malloc_buf (leb_size d);
     case b of
       None \<Rightarrow> ret (- ENOMEM)
     | Some junk \<Rightarrow> do {
         upd_vol i (\<lambda>v. v\<lparr>upd_buf := junk\<rparr>);
         e \<leftarrow> set_update_marker i;
         v \<leftarrow> get_vol i;
         e \<leftarrow> (if e \<noteq> 0 then ret e else unmap_lebs i [0..<reserved_pebs v]);
         if e \<noteq> 0 then ret e
         else if n = 0
         then do {
           e \<leftarrow> ubi_wl_flush;
           e \<leftarrow> (if e \<noteq> 0 then ret e else clear_update_marker i 0);
           if e \<noteq> 0 then ret e
           else do { upd_vol i (\<lambda>v. v\<lparr>upd_buf := [], updating := False\<rparr>); ret 0 }
         }
         else do {
           upd_vol i (\<lambda>v. v\<lparr>upd_ebs := (n + usable_leb_size v - 1) div usable_leb_size v,
                            upd_bytes := n, upd_received := 0\<rparr>);
           ret 0
         }
       }
   }"

definition align_up :: "nat \<Rightarrow> nat \<Rightarrow> nat" where
  "align_up n a = ((n + a - 1) div a) * a"

text \<open>The length without the trailing 0xff bytes, rounded up to the I/O unit.\<close>

definition ubi_calc_data_len :: "nat \<Rightarrow> bytes \<Rightarrow> nat" where
  "ubi_calc_data_len min_io buf = align_up (length (dropWhile (\<lambda>b. b = 0xff) (rev buf))) min_io"

definition write_leb :: "nat \<Rightarrow> nat \<Rightarrow> bytes \<Rightarrow> nat \<Rightarrow> ('x world_scheme, int) state" where
  "write_leb i lnum data ebs = do {
     d \<leftarrow> get_ubi;
     v \<leftarrow> get_vol i;
     if vol_type v = UBI_DYNAMIC_VOLUME
     then let padded = data @ replicate (align_up (length data) (min_io_size d) - length data) 0xff;
              len = ubi_calc_data_len (min_io_size d) padded
          in if len = 0 then ret 0 else eba_write_leb i lnum (take len padded) 0
     else eba_write_leb i lnum data ebs
   }"

text \<open>
  The loop of \<open>ubi_more_update_data\<close> over whole eraseblocks; \<open>buf\<close> is the data still to write.
  An eraseblock size of 0 does not occur.
\<close>

function more_update_loop :: "nat \<Rightarrow> nat \<Rightarrow> nat \<Rightarrow> bytes \<Rightarrow> ('x world_scheme, int) state" where
  "more_update_loop i usable lnum buf =
     (if buf = [] \<or> usable = 0 then ret 0
      else
        let len = (if length buf > usable then usable else length buf)
        in do {
          upd_vol i (\<lambda>v. v\<lparr>upd_buf := take len buf @ drop len (upd_buf v)\<rparr>);
          v \<leftarrow> get_vol i;
          e \<leftarrow> (if len = usable \<or> upd_received v + len = upd_bytes v
               then write_leb i lnum (take len buf) (upd_ebs v) else ret 0);
          if e \<noteq> 0 then ret e
          else do {
            upd_vol i (\<lambda>v. v\<lparr>upd_received := upd_received v + len\<rparr>);
            more_update_loop i usable (lnum + 1) (drop len buf)
          }
        })"
  by pat_completeness auto

termination more_update_loop
  by (relation "measure (\<lambda>(_, _, _, buf). length buf)") (auto split: if_splits)

definition ubi_more_update_data :: "nat \<Rightarrow> bytes \<Rightarrow> ('x world_scheme, int) state" where
  "ubi_more_update_data i buf0 = do {
     d \<leftarrow> get_ubi;
     v \<leftarrow> get_vol i;
     if ro_mode d then ret (- EROFS)
     else
       let usable = usable_leb_size v;
           lnum = upd_received v div usable;
           offs = upd_received v mod usable;
           buf = take (upd_bytes v - upd_received v) buf0;
           head = min (usable - offs) (length buf)
       in do {
         e \<leftarrow> (if offs = 0 then ret 0
              else do {
                upd_vol i (\<lambda>v. v\<lparr>upd_buf := take offs (upd_buf v) @ take head buf @ drop (offs + head) (upd_buf v)\<rparr>);
                v \<leftarrow> get_vol i;
                if offs + head = usable \<or> upd_received v + head = upd_bytes v
                then write_leb i lnum (take (offs + head) (upd_buf v)) (upd_ebs v)
                else ret 0
              });
         if e \<noteq> 0 then ret e
         else do {
           when_m (offs \<noteq> 0) (upd_vol i (\<lambda>v. v\<lparr>upd_received := upd_received v + head\<rparr>));
           e \<leftarrow> (if offs = 0 then more_update_loop i usable lnum buf
                else more_update_loop i usable (lnum + 1) (drop head buf));
           v \<leftarrow> get_vol i;
           if upd_received v = upd_bytes v
           then do {
             e \<leftarrow> ubi_wl_flush;
             e \<leftarrow> (if e \<noteq> 0 then ret e else clear_update_marker i (upd_bytes v));
             if e \<noteq> 0 then ret e
             else do {
               upd_vol i (\<lambda>v. v\<lparr>updating := False, upd_buf := []\<rparr>);
               ret (int (length buf))
             }
           }
           else ret e
         }
       }
   }"

text \<open>0: intact, 1: corrupted, negative: error.\<close>

fun check_lebs :: "nat \<Rightarrow> nat list \<Rightarrow> ('x world_scheme, int) state" where
  "check_lebs i [] = ret 0"
| "check_lebs i (l # ls) = do {
     v \<leftarrow> get_vol i;
     (e, _) \<leftarrow> eba_read_leb i l 0 (if l = used_ebs v - 1 then last_eb_bytes v else usable_leb_size v);
     if e \<noteq> 0 then ret (if e = - EBADMSG then 1 else e) else check_lebs i ls
   }"

definition ubi_check_volume :: "nat \<Rightarrow> ('x world_scheme, int) state" where
  "ubi_check_volume i = do {
     v \<leftarrow> get_vol i;
     if vol_type v \<noteq> UBI_STATIC_VOLUME then ret 0
     else do {
       b \<leftarrow> malloc_buf (usable_leb_size v);
       if b = None then ret (- ENOMEM) else check_lebs i [0..<used_ebs v]
     }
   }"

text \<open>The part of \<open>ubi_volume_continue_write\<close> after the volume has been found.\<close>

definition continue_update :: "nat \<Rightarrow> bytes \<Rightarrow> ('x world_scheme, int) state" where
  "continue_update i buf = do {
     v \<leftarrow> get_vol i;
     if \<not> updating v then ret EINVAL
     else do {
       e \<leftarrow> ubi_more_update_data i buf;
       if e < 0 then ret (- e)
       else if e \<noteq> 0
       then do {
         e \<leftarrow> ubi_check_volume i;
         if e < 0 then ret (- e)
         else do {
           upd_vol i (\<lambda>v. v\<lparr>corrupted := (corrupted v \<or> e \<noteq> 0), checked := True\<rparr>);
           ret 0
         }
       }
       else ret 0
     }
   }"

definition ubi_volume_continue_write :: "string \<Rightarrow> bytes \<Rightarrow> ('x world_scheme, int) state" where
  "ubi_volume_continue_write n buf = do {
     f \<leftarrow> ubi_find_volume n;
     case f of
       None \<Rightarrow> ret ENODEV
     | Some i \<Rightarrow> continue_update i buf
   }"

definition ubi_volume_begin_write :: "string \<Rightarrow> bytes \<Rightarrow> nat \<Rightarrow> ('x world_scheme, int) state" where
  "ubi_volume_begin_write n buf full_size = do {
     f \<leftarrow> ubi_find_volume n;
     case f of
       None \<Rightarrow> ret ENODEV
     | Some i \<Rightarrow> do {
         d \<leftarrow> get_ubi;
         v \<leftarrow> get_vol i;
         if length buf > reserved_pebs v * (leb_size d - data_pad v) then ret EINVAL
         else do {
           e \<leftarrow> ubi_start_update i full_size;
           if e < 0 then ret (- e)
           else if full_size = 0 then ret 0
           else ubi_volume_continue_write n buf
         }
       }
   }"

definition ubi_volume_write :: "string \<Rightarrow> bytes \<Rightarrow> ('x world_scheme, int) state" where
  "ubi_volume_write n buf = ubi_volume_begin_write n buf (length buf)"

section \<open>Reading a volume\<close>

text \<open>
  The do-while loop of \<open>ubi_volume_read\<close>.  The result is the error and the number of bytes not
  read.  A chunk of length 0 would repeat forever.
\<close>

function ubi_read_loop ::
  "nat \<Rightarrow> nat \<Rightarrow> nat \<Rightarrow> nat \<Rightarrow> nat \<Rightarrow> nat \<Rightarrow> nat \<Rightarrow> ('x world_scheme, int \<times> nat) state" where
  "ubi_read_loop i usable tbuf_size lnum off sz buf =
     (let len0 = (if sz > tbuf_size then tbuf_size else sz);
          len = (if off + len0 \<ge> usable then usable - off else len0)
      in if len = 0 then do { modify (\<lambda>w. w\<lparr>hung := True\<rparr>); ret (EIO, sz) }
         else do {
           (e, d) \<leftarrow> eba_read_leb i lnum off len;
           if e \<noteq> 0 then ret (- e, sz)
           else do {
             ram_write buf d;
             if sz \<le> len then ret (0, 0)
             else if off + len = usable then ubi_read_loop i usable tbuf_size (lnum + 1) 0 (sz - len) (buf + len)
             else ubi_read_loop i usable tbuf_size lnum (off + len) (sz - len) (buf + len)
           }
         })"
  by pat_completeness auto

termination ubi_read_loop
  by (relation "measure (\<lambda>(_, _, _, _, _, sz, _). sz)") (auto simp: Let_def split: if_splits)

fun hex_digits :: "nat \<Rightarrow> string" where
  "hex_digits n =
     (if n < 16 then [''0123456789abcdef'' ! n]
      else hex_digits (n div 16) @ [''0123456789abcdef'' ! (n mod 16)])"

declare hex_digits.simps [simp del]

definition env_set :: "string \<Rightarrow> string \<Rightarrow> ('x world_scheme, unit) state" where
  "env_set n x = modify (\<lambda>w. w\<lparr>env := (env w)(n \<mapsto> x)\<rparr>)"

definition ubi_volume_read :: "string \<Rightarrow> nat \<Rightarrow> nat \<Rightarrow> ('x world_scheme, int) state" where
  "ubi_volume_read n buf sz0 = do {
     f \<leftarrow> ubi_find_volume n;
     case f of
       None \<Rightarrow> ret ENODEV
     | Some i \<Rightarrow> do {
         d \<leftarrow> get_ubi;
         v \<leftarrow> get_vol i;
         if updating v then ret EBUSY
         else if upd_marker v then ret EBADF
         else if used_bytes v = 0 then ret 0
         else
           let sz1 = (if sz0 = 0 then used_bytes v else sz0);
               sz = (if sz1 > used_bytes v then used_bytes v else sz1);
               tbuf_size = (if sz < usable_leb_size v then align_up sz (min_io_size d) else usable_leb_size v)
           in do {
             tbuf \<leftarrow> malloc_buf tbuf_size;
             if tbuf = None then ret ENOMEM
             else do {
               (e, left) \<leftarrow> ubi_read_loop i (usable_leb_size v) tbuf_size 0 0 sz buf;
               when_m (left = 0) (env_set ''filesize'' (hex_digits sz));
               ret e
             }
           }
       }
   }"

section \<open>Opening by name\<close>

datatype ubi_open_mode = UBI_READONLY | UBI_READWRITE | UBI_EXCLUSIVE

definition ubi_close_volume :: "nat \<Rightarrow> ubi_open_mode \<Rightarrow> ('x world_scheme, unit) state" where
  "ubi_close_volume i mode =
     upd_vol i (\<lambda>v. case mode of
        UBI_READONLY \<Rightarrow> v\<lparr>readers := readers v - 1\<rparr>
      | UBI_READWRITE \<Rightarrow> v\<lparr>writers := writers v - 1\<rparr>
      | UBI_EXCLUSIVE \<Rightarrow> v\<lparr>exclusive := False\<rparr>)"

definition ubi_open_volume :: "nat \<Rightarrow> ubi_open_mode \<Rightarrow> ('x world_scheme, int + nat) state" where
  "ubi_open_volume i mode = do {
     u \<leftarrow> gets ubi;
     case u of
       None \<Rightarrow> ret (Inl (- ENODEV))
     | Some d \<Rightarrow>
         if i \<ge> vtbl_slots d then ret (Inl (- EINVAL))
         else do {
           desc \<leftarrow> memalign_addr;
           if desc = 0 then ret (Inl (- ENOMEM))
           else case volumes d ! i of
                  None \<Rightarrow> ret (Inl (- ENODEV))
                | Some v \<Rightarrow>
                    if (case mode of
                          UBI_READONLY \<Rightarrow> exclusive v
                        | UBI_READWRITE \<Rightarrow> exclusive v \<or> writers v > 0
                        | UBI_EXCLUSIVE \<Rightarrow> exclusive v \<or> writers v > 0 \<or> readers v > 0)
                    then ret (Inl (- EBUSY))
                    else do {
                      upd_vol i (\<lambda>v. case mode of
                          UBI_READONLY \<Rightarrow> v\<lparr>readers := readers v + 1\<rparr>
                        | UBI_READWRITE \<Rightarrow> v\<lparr>writers := writers v + 1\<rparr>
                        | UBI_EXCLUSIVE \<Rightarrow> v\<lparr>exclusive := True\<rparr>);
                      if \<not> checked v \<and> \<not> skip_check v
                      then do {
                        e \<leftarrow> ubi_check_volume i;
                        if e < 0
                        then do { ubi_close_volume i mode; ret (Inl e) }
                        else do {
                          upd_vol i (\<lambda>v. v\<lparr>corrupted := (corrupted v \<or> e = 1), checked := True\<rparr>);
                          ret (Inr i)
                        }
                      }
                      else ret (Inr i)
                    }
         }
   }"

definition ubi_open_volume_nm :: "string \<Rightarrow> ubi_open_mode \<Rightarrow> ('x world_scheme, int + nat) state" where
  "ubi_open_volume_nm n mode =
     (if length n > UBI_VOL_NAME_MAX then ret (Inl (- EINVAL))
      else do {
        u \<leftarrow> gets ubi;
        case u of
          None \<Rightarrow> ret (Inl (- ENODEV))
        | Some d \<Rightarrow>
            (case find (\<lambda>i. case volumes d ! i of None \<Rightarrow> False
                          | Some v \<Rightarrow> vol_name_len v = length n \<and> vol_name v = n) [0..<vtbl_slots d] of
               None \<Rightarrow> ret (Inl (- ENODEV))
             | Some i \<Rightarrow> ubi_open_volume i mode)
      })"

section \<open>The ubi command\<close>

definition ubi_detach :: "('x world_scheme, int) state" where
  "ubi_detach = do { modify (\<lambda>w. w\<lparr>ubi := None\<rparr>); ret 0 }"

definition ubi_dev_scan :: "mtd_info \<Rightarrow> ('x world_scheme, int) state" where
  "ubi_dev_scan mtd = do { e \<leftarrow> ubi_attach mtd; ret (- e) }"

definition ubi_part :: "string \<Rightarrow> ('x world_scheme, int) state" where
  "ubi_part n = do {
     u \<leftarrow> gets ubi;
     if (case u of None \<Rightarrow> False | Some d \<Rightarrow> dev_mtd d = n) then ret 0
     else do {
       ubi_detach;
       m \<leftarrow> get_mtd_device_nm n;
       case m of
         None \<Rightarrow> ret 1
       | Some mtd \<Rightarrow> ubi_dev_scan mtd
     }
   }"

datatype ubi_command =
    Ubi_detach
  | Ubi_part string
  | Ubi_check string
  | Ubi_create string nat bool "nat option"
  | Ubi_remove string
  | Ubi_rename string string
  | Ubi_write nat string nat
  | Ubi_read nat string nat

definition do_ubi :: "ubi_command \<Rightarrow> ('x world_scheme, int) state" where
  "do_ubi c =
     (case c of
        Ubi_detach \<Rightarrow> ubi_detach
      | Ubi_part n \<Rightarrow> ubi_part n
      | _ \<Rightarrow> do {
          u \<leftarrow> gets ubi;
          case u of
            None \<Rightarrow> ret 1
          | Some d \<Rightarrow>
              (case c of
                 Ubi_check n \<Rightarrow> ubi_check n
               | Ubi_create n sz dynamic i \<Rightarrow>
                   ubi_create_vol n (if sz = 0 then avail_pebs d * int (leb_size d) else int sz) dynamic i False
               | Ubi_remove n \<Rightarrow> ubi_remove_vol n
               | Ubi_rename a b \<Rightarrow> ubi_rename_vol a b
               | Ubi_write addr n sz \<Rightarrow> do {
                   data \<leftarrow> ram_read addr sz;
                   ubi_volume_write n data
                 }
               | Ubi_read addr n sz \<Rightarrow> ubi_volume_read n addr sz
               | _ \<Rightarrow> ret 1)
        })"

definition run_ubi :: "ubi_command \<Rightarrow> ('x world_scheme, int) state" where
  "run_ubi c = do { r \<leftarrow> do_ubi c; ret (if r \<noteq> 0 then 1 else 0) }"

section \<open>Saving the environment\<close>

text \<open>
  The environment lives in two UBI volumes of the partition \<open>ubi\<close> (\<open>env/ubi.c\<close>), so saving it
  attaches that partition.  The exported image is a parameter.
\<close>

definition env_ubi_save :: "('x world_scheme, int) state" where
  "env_ubi_save = do {
     t \<leftarrow> io_tick;
     x \<leftarrow> gets (\<lambda>w. env_export (orc w) t (env w));
     if fst x \<noteq> 0 then ret (fst x)
     else do {
       p \<leftarrow> ubi_part ''ubi'';
       if p \<noteq> 0 then ret 1
       else do {
         valid \<leftarrow> gets gd_env_valid;
         r \<leftarrow> ubi_volume_write (if valid = ENV_VALID then ''ubootenv2'' else ''ubootenv'') (snd x);
         if r \<noteq> 0 then ret 1
         else do {
           modify (\<lambda>w. w\<lparr>gd_env_valid := (if valid = ENV_VALID then ENV_REDUND else ENV_VALID)\<rparr>);
           ret 0
         }
       }
     }
   }"

definition env_save :: "('x world_scheme, int) state" where
  "env_save = do { r \<leftarrow> env_ubi_save; ret (if r = 0 then 0 else - ENODEV) }"

end
