(* ===== verification/Ubi_Frames.thy ===== *)
theory Ubi_Frames
  imports Ubi_Volumes
begin

text \<open>
  What the UBI operations leave alone.  A view is \<open>blind\<close> to volume \<open>j\<close> when it ignores the
  update state and the eraseblocks of that volume, the volume table and its copies on flash, the
  read-only flag, raw flash bytes of the UBI region and time.  Every operation on volume \<open>j\<close> that
  does not create, remove or rename keeps such a view.  A view that ignores the whole UBI layer is
  kept by every command.
\<close>

section \<open>Blind views\<close>

text \<open>The attributes of a volume that only creation and renaming set.\<close>

definition attrs :: "ubi_volume \<Rightarrow> nat \<times> ubi_vol_type \<times> nat \<times> string \<times> nat \<times> nat \<times> nat \<times> nat" where
  "attrs v = (vol_id v, vol_type v, vol_name_len v, vol_name v, alignment v, data_pad v,
              reserved_pebs v, usable_leb_size v)"

definition blind :: "nat \<Rightarrow> ('x world_scheme \<Rightarrow> 'v) \<Rightarrow> bool" where
  "blind j f =
     (ignores_time f \<and> ignores_raw f
      \<and> (\<forall>w r. f (w\<lparr>ubi := map_option (\<lambda>d. d\<lparr>ro_mode := r\<rparr>) (ubi w)\<rparr>) = f w)
      \<and> (\<forall>w g. f (w\<lparr>ubi := map_option (\<lambda>d. d\<lparr>vtbl := g d\<rparr>) (ubi w)\<rparr>) = f w)
      \<and> (\<forall>w g. (\<forall>v. attrs (g v) = attrs v) \<longrightarrow>
            f (w\<lparr>ubi := map_option (\<lambda>d. d\<lparr>volumes := (volumes d)[j := map_option g (volumes d ! j)]\<rparr>) (ubi w)\<rparr>)
            = f w)
      \<and> (\<forall>w a. f (w\<lparr>media := (media w)\<lparr>lvol0 := a\<rparr>\<rparr>) = f w)
      \<and> (\<forall>w a. f (w\<lparr>media := (media w)\<lparr>lvol1 := a\<rparr>\<rparr>) = f w)
      \<and> (\<forall>w x. f (w\<lparr>media := (media w)\<lparr>leb_map := (leb_map (media w))(j := x)\<rparr>\<rparr>) = f w))"

definition vol_state :: "nat \<Rightarrow> 'x world_scheme \<Rightarrow> ubi_volume option \<times> (nat \<Rightarrow> (bytes \<times> nat) option)" where
  "vol_state i w = (volumes (the (ubi w)) ! i, leb_map (media w) i)"

definition vol_attrs :: "'x world_scheme \<Rightarrow> (nat \<times> ubi_vol_type \<times> nat \<times> string \<times> nat \<times> nat \<times> nat \<times> nat) option list" where
  "vol_attrs w = map (map_option attrs) (volumes (the (ubi w)))"

definition dev_params :: "'x world_scheme \<Rightarrow> (string \<times> nat \<times> nat \<times> nat \<times> int \<times> int) option" where
  "dev_params w = map_option (\<lambda>d. (dev_mtd d, leb_size d, min_io_size d, vtbl_slots d,
      avail_pebs d, rsvd_pebs d)) (ubi w)"

lemma blind_ignores [simp]: "blind j f \<Longrightarrow> ignores_time f" "blind j f \<Longrightarrow> ignores_raw f"
  by (simp_all add: blind_def)

lemma blind_vol_state:
  assumes "i \<noteq> j"
  shows "blind j (vol_state i :: 'x world_scheme \<Rightarrow> _)"
proof -
  have *: "vol_state i (w\<lparr>ubi := map_option h (ubi w)\<rparr>) = vol_state i w"
    if "\<And>d. volumes (h d) ! i = volumes d ! i" for h and w :: "'x world_scheme"
    using that by (cases "ubi w") (simp_all add: vol_state_def)
  show ?thesis
    using assms
    by (simp add: blind_def view_defs *) (simp add: vol_state_def)
qed

lemma blind_vol_attrs: "blind j vol_attrs"
proof -
  have "map (map_option attrs) (volumes (the (map_option h u))) = map (map_option attrs) (volumes (the u))"
    if "\<And>d. map (map_option attrs) (volumes (h d)) = map (map_option attrs) (volumes d)"
    for h :: "ubi_device \<Rightarrow> ubi_device" and u
    using that by (cases u) simp_all
  moreover have "map (map_option attrs) (xs[j := map_option g (xs ! j)]) = map (map_option attrs) xs"
    if "\<forall>v. attrs (g v) = attrs v" for g xs
    using that
    by (cases "j < length xs") (auto intro!: nth_equalityI simp: nth_list_update option.map_comp comp_def)
  ultimately show ?thesis
    by (simp add: blind_def view_defs vol_attrs_def)
qed

lemma blind_dev_params: "blind j dev_params"
  by (simp add: blind_def view_defs dev_params_def option.map_comp comp_def)

section \<open>Operations on one volume\<close>

lemma keeps_get_ubi [keeps_intros]: "keeps f get_ubi"
  by (simp add: get_ubi_def keeps_gets)

lemma keeps_get_vol [keeps_intros]: "keeps f (get_vol i)"
  by (simp add: get_vol_def keeps_gets)

lemma wp_get_ubi [simp]: "wp get_ubi Q = (\<lambda>w. Q (the (ubi w)) w)"
  by (simp add: get_ubi_def)

lemma wp_get_vol [simp]: "wp (get_vol i) Q = (\<lambda>w. Q (the (volumes (the (ubi w)) ! i)) w)"
  by (simp add: get_vol_def)

lemma keeps_ubi_find_volume [keeps_intros]: "keeps f (ubi_find_volume n)"
  by (simp add: ubi_find_volume_def keeps_gets)

lemma keeps_ubi_check [keeps_intros]: "keeps f (ubi_check n)"
  by (simp add: ubi_check_def keeps_gets)

lemma keeps_upd_vol_blind:
  "blind j f \<Longrightarrow> (\<And>v. attrs (g v) = attrs v) \<Longrightarrow> keeps f (upd_vol j g)"
  unfolding upd_vol_def upd_ubi_def
  by (rule keeps_modify) (unfold blind_def, blast)

lemma keeps_upd_vtbl_blind:
  "blind j f \<Longrightarrow> keeps f (upd_ubi (\<lambda>d. d\<lparr>vtbl := g d\<rparr>))"
  unfolding upd_ubi_def by (rule keeps_modify) (unfold blind_def, blast)

lemma keeps_upd_ro_blind:
  "blind j f \<Longrightarrow> keeps f (upd_ubi (\<lambda>d. d\<lparr>ro_mode := r\<rparr>))"
  unfolding upd_ubi_def by (rule keeps_modify) (unfold blind_def, blast)

lemma keeps_upd_lvol_blind:
  "blind j f \<Longrightarrow> keeps f (upd_media (\<lambda>m. if b then m\<lparr>lvol0 := x\<rparr> else m\<lparr>lvol1 := y\<rparr>))"
  unfolding upd_media_def by (rule keeps_modify) (cases b; simp only: if_True if_False; unfold blind_def; blast)

lemma keeps_set_leb_blind: "blind j f \<Longrightarrow> keeps f (upd_media (set_leb j l x))"
  unfolding upd_media_def set_leb_def by (rule keeps_modify) (unfold blind_def, blast)

lemma keeps_ubi_io_blind: "blind j f \<Longrightarrow> keeps f ubi_io"
  unfolding ubi_io_def
  by (intro keeps_intros keeps_upd_ro_blind; (assumption | erule blind_ignores))

lemma keeps_eba_read_leb [keeps_intros]: "ignores_time f \<Longrightarrow> keeps f (eba_read_leb i l off len)"
  unfolding eba_read_leb_def by (intro keeps_intros)

lemma keeps_eba_write_leb_blind: "blind j f \<Longrightarrow> keeps f (eba_write_leb j l d e)"
  unfolding eba_write_leb_def by (intro keeps_intros keeps_ubi_io_blind keeps_set_leb_blind)

lemma keeps_eba_unmap_leb_blind: "blind j f \<Longrightarrow> keeps f (eba_unmap_leb j l)"
  unfolding eba_unmap_leb_def by (intro keeps_intros keeps_ubi_io_blind keeps_set_leb_blind)

lemma keeps_update_layout_blind: "blind j f \<Longrightarrow> keeps f ubi_update_layout_vol"
  unfolding ubi_update_layout_vol_def eba_change_vtbl_copy_def
  by (intro keeps_intros keeps_ubi_io_blind keeps_upd_lvol_blind)

lemma keeps_change_vtbl_blind: "blind j f \<Longrightarrow> keeps f (ubi_change_vtbl_record i r)"
  unfolding ubi_change_vtbl_record_def
  by (intro keeps_intros keeps_upd_vtbl_blind keeps_update_layout_blind)

lemma keeps_wl_flush_blind: "blind j f \<Longrightarrow> keeps f ubi_wl_flush"
  unfolding ubi_wl_flush_def by (intro keeps_intros keeps_ubi_io_blind)

lemma keeps_unmap_lebs_blind: "blind j f \<Longrightarrow> keeps f (unmap_lebs j ls)"
  by (induction ls; unfold unmap_lebs.simps; intro keeps_intros keeps_eba_unmap_leb_blind; assumption?)

lemma keeps_set_update_marker_blind: "blind j f \<Longrightarrow> keeps f (set_update_marker j)"
  unfolding set_update_marker_def
  by (intro keeps_intros keeps_change_vtbl_blind keeps_upd_vol_blind; (assumption | simp add: attrs_def))

lemma keeps_clear_update_marker_blind: "blind j f \<Longrightarrow> keeps f (clear_update_marker j n)"
  unfolding clear_update_marker_def
  by (intro keeps_intros keeps_change_vtbl_blind keeps_upd_vol_blind;
      (assumption | simp add: attrs_def set_static_size_def))

lemma keeps_start_update_blind: "blind j f \<Longrightarrow> keeps f (ubi_start_update j n)"
  unfolding ubi_start_update_def
  by (intro keeps_intros keeps_upd_vol_blind keeps_set_update_marker_blind keeps_unmap_lebs_blind
        keeps_wl_flush_blind keeps_clear_update_marker_blind; (assumption | simp add: attrs_def))

lemma keeps_write_leb_blind: "blind j f \<Longrightarrow> keeps f (write_leb j l d e)"
  unfolding write_leb_def by (intro keeps_intros keeps_eba_write_leb_blind)

declare more_update_loop.simps [simp del] ubi_read_loop.simps [simp del]

lemma keeps_more_update_loop_blind: "blind j f \<Longrightarrow> keeps f (more_update_loop j u l buf)"
proof (induction "length buf" arbitrary: l buf rule: less_induct)
  case less
  show ?case
    by (subst more_update_loop.simps, intro keeps_intros keeps_upd_vol_blind keeps_write_leb_blind less)
       (simp_all add: attrs_def)
qed

lemma keeps_more_update_blind: "blind j f \<Longrightarrow> keeps f (ubi_more_update_data j buf)"
  unfolding ubi_more_update_data_def
  by (intro keeps_intros keeps_upd_vol_blind keeps_write_leb_blind keeps_more_update_loop_blind
        keeps_wl_flush_blind keeps_clear_update_marker_blind; (assumption | simp add: attrs_def))

lemma keeps_check_lebs [keeps_intros]: "ignores_time f \<Longrightarrow> keeps f (check_lebs j ls)"
  by (induction ls; unfold check_lebs.simps; intro keeps_intros; assumption?)

lemma keeps_check_volume [keeps_intros]: "ignores_time f \<Longrightarrow> keeps f (ubi_check_volume j)"
  unfolding ubi_check_volume_def by (intro keeps_intros)

section \<open>Commands\<close>

definition ubi_free :: "('x world_scheme \<Rightarrow> 'v) \<Rightarrow> bool" where
  "ubi_free f =
     (ignores_time f \<and> ignores_ram f \<and> ignores_hung f \<and> ignores_ubi f \<and> ignores_media f
      \<and> ignores_raw f \<and> ignores_env f)"

lemma ubi_free_ignores [simp]:
  "ubi_free f \<Longrightarrow> ignores_time f" "ubi_free f \<Longrightarrow> ignores_ram f" "ubi_free f \<Longrightarrow> ignores_hung f"
  "ubi_free f \<Longrightarrow> ignores_ubi f" "ubi_free f \<Longrightarrow> ignores_media f" "ubi_free f \<Longrightarrow> ignores_raw f"
  "ubi_free f \<Longrightarrow> ignores_env f"
  by (simp_all add: ubi_free_def)

text \<open>Views that ignore the UBI device and its medium; reading a volume also needs RAM and environment.\<close>

definition calm :: "('x world_scheme \<Rightarrow> 'v) \<Rightarrow> bool" where
  "calm f = (ignores_time f \<and> ignores_ubi f \<and> ignores_media f \<and> ignores_raw f)"

lemma calm_ignores [simp]:
  "calm f \<Longrightarrow> ignores_time f" "calm f \<Longrightarrow> ignores_ubi f" "calm f \<Longrightarrow> ignores_media f" "calm f \<Longrightarrow> ignores_raw f"
  by (simp_all add: calm_def)

lemma ubi_free_calm: "ubi_free f \<Longrightarrow> calm f"
  by (simp add: calm_def)

lemma calm_blind: "calm f \<Longrightarrow> blind j f"
  unfolding blind_def calm_def ignores_ubi_def ignores_media_def
  by (intro conjI allI impI; elim conjE; (assumption | simp))

lemma ubi_free_blind: "ubi_free f \<Longrightarrow> blind j f"
  by (intro calm_blind ubi_free_calm)

lemma ubi_free_nand_at: "(\<And>a. P a \<Longrightarrow> \<not> ubi_region a) \<Longrightarrow> ubi_free (nand_at P)"
  by (auto simp: ubi_free_def view_defs nand_at_def fun_eq_iff)

lemma keeps_upd_ubi: "ignores_ubi f \<Longrightarrow> keeps f (upd_ubi g)"
  by (simp add: upd_ubi_def keeps_modify view_defs)

lemma keeps_upd_vol: "ignores_ubi f \<Longrightarrow> keeps f (upd_vol i g)"
  by (simp add: upd_vol_def keeps_upd_ubi)

lemma keeps_upd_media [keeps_intros]: "ignores_media f \<Longrightarrow> keeps f (upd_media g)"
  by (simp add: upd_media_def keeps_modify view_defs)

lemma keeps_env_set [keeps_intros]: "ignores_env f \<Longrightarrow> keeps f (env_set n x)"
  by (simp add: env_set_def keeps_modify view_defs)

lemma keeps_ubi_detach [keeps_intros]: "ignores_ubi f \<Longrightarrow> keeps f ubi_detach"
  unfolding ubi_detach_def by (intro keeps_assign keeps_intros)

lemmas calm_intros = keeps_assign keeps_intros keeps_upd_ubi keeps_upd_vol calm_ignores calm_blind
  keeps_ubi_io_blind [OF calm_blind]
  keeps_change_vtbl_blind [OF calm_blind]
  keeps_update_layout_blind [OF calm_blind]
  keeps_wl_flush_blind [OF calm_blind]
  keeps_unmap_lebs_blind [OF calm_blind]
  keeps_start_update_blind [OF calm_blind]
  keeps_more_update_blind [OF calm_blind]

lemma keeps_create_vtbl: "calm f \<Longrightarrow> keeps f (create_vtbl c tbl)"
  unfolding create_vtbl_def by (intro calm_intros)

lemma keeps_process_lvol: "calm f \<Longrightarrow> keeps f (process_lvol d)"
  unfolding process_lvol_def by (intro calm_intros keeps_create_vtbl)

lemma keeps_read_volume_table: "calm f \<Longrightarrow> keeps f (ubi_read_volume_table d)"
  unfolding ubi_read_volume_table_def create_empty_lvol_def
  by (intro calm_intros keeps_case_sum keeps_create_vtbl keeps_process_lvol)

lemma keeps_scan_device: "calm f \<Longrightarrow> keeps f (scan_device t)"
  unfolding scan_device_def
  by (rule keeps_modify) (drule calm_ignores(3), simp add: ignores_media_def)

lemma keeps_ubi_attach: "calm f \<Longrightarrow> keeps f (ubi_attach m)"
  unfolding ubi_attach_def
  by (intro calm_intros keeps_case_sum keeps_scan_device keeps_read_volume_table)

lemma keeps_ubi_part: "calm f \<Longrightarrow> keeps f (ubi_part n)"
  unfolding ubi_part_def ubi_dev_scan_def
  by (intro calm_intros keeps_ubi_attach)

lemma keeps_ubi_create_vol: "calm f \<Longrightarrow> keeps f (ubi_create_vol n sz dyn i skip)"
  unfolding ubi_create_vol_def ubi_create_volume_def commit_volume_def
  by (intro calm_intros)

lemma keeps_ubi_remove_vol: "calm f \<Longrightarrow> keeps f (ubi_remove_vol n)"
  unfolding ubi_remove_vol_def by (intro calm_intros)

lemma keeps_apply_renames: "calm f \<Longrightarrow> keeps f (apply_renames res)"
  by (induction res; unfold apply_renames.simps ubi_remove_volume_def; intro calm_intros; assumption?)

lemma keeps_ubi_rename_volumes: "calm f \<Longrightarrow> keeps f (ubi_rename_volumes res)"
  unfolding ubi_rename_volumes_def ubi_vtbl_rename_volumes_def
  by (intro calm_intros keeps_apply_renames)

lemma keeps_ubi_rename_vol: "calm f \<Longrightarrow> keeps f (ubi_rename_vol a b)"
  unfolding ubi_rename_vol_def by (intro calm_intros keeps_ubi_rename_volumes)

lemma keeps_ubi_volume_write: "calm f \<Longrightarrow> keeps f (ubi_volume_write n buf)"
  unfolding ubi_volume_write_def ubi_volume_begin_write_def ubi_volume_continue_write_def
    continue_update_def
  by (intro calm_intros)

lemma keeps_read_loop:
  "ignores_time f \<Longrightarrow> ignores_ram f \<Longrightarrow> ignores_hung f \<Longrightarrow> keeps f (ubi_read_loop i u t l off sz buf)"
proof (induction sz arbitrary: l off buf rule: less_induct)
  case (less sz)
  show ?case
    by (subst ubi_read_loop.simps, intro keeps_assign keeps_intros less) (use less.prems in simp_all)
qed

lemma keeps_ubi_volume_read: "ubi_free f \<Longrightarrow> keeps f (ubi_volume_read n buf sz)"
  unfolding ubi_volume_read_def by (intro calm_intros keeps_read_loop ubi_free_ignores)

lemma keeps_do_ubi: "ubi_free f \<Longrightarrow> keeps f (do_ubi c)"
  by (cases c; simp only: do_ubi_def ubi_command.case;
      intro calm_intros ubi_free_calm ubi_free_ignores keeps_ubi_part keeps_ubi_create_vol keeps_ubi_remove_vol
        keeps_ubi_rename_vol keeps_ubi_volume_write keeps_ubi_volume_read)

lemma keeps_run_ubi_calm: "calm f \<Longrightarrow> (\<forall>a n sz. c \<noteq> Ubi_read a n sz) \<Longrightarrow> keeps f (run_ubi c)"
  unfolding run_ubi_def do_ubi_def
  by (cases c; simp only: ubi_command.case ubi_command.inject simp_thms;
      intro calm_intros keeps_ubi_part keeps_ubi_create_vol keeps_ubi_remove_vol
        keeps_ubi_rename_vol keeps_ubi_volume_write; blast)

lemma keeps_run_ubi: "ubi_free f \<Longrightarrow> keeps f (run_ubi c)"
  unfolding run_ubi_def by (intro keeps_intros keeps_do_ubi)

lemma keeps_env_save: "ubi_free f \<Longrightarrow> keeps f env_save"
  unfolding env_save_def env_ubi_save_def
  by (intro calm_intros ubi_free_calm ubi_free_ignores keeps_ubi_part keeps_ubi_volume_write)

lemma keeps_close_volume: "calm f \<Longrightarrow> keeps f (ubi_close_volume i m)"
  unfolding ubi_close_volume_def by (intro calm_intros)

lemma keeps_open_volume_nm: "calm f \<Longrightarrow> keeps f (ubi_open_volume_nm n m)"
  unfolding ubi_open_volume_nm_def ubi_open_volume_def by (intro calm_intros keeps_close_volume)

end
