(* ===== verification/Ubi_Content.thy ===== *)
theory Ubi_Content
  imports Ubi_Frames
begin

text \<open>
  What the UBI operations do to the contents and the names of volumes.  A volume is read as one
  flat sequence of bytes; the names of all volumes form a list.  The lemmas say what a command
  that reports success has done, and what it has left alone in either case.
\<close>

section \<open>Names and contents\<close>

abbreviation vol :: "'x world_scheme \<Rightarrow> nat \<Rightarrow> ubi_volume option" where
  "vol w i \<equiv> volumes (the (ubi w)) ! i"

definition vview :: "(ubi_volume \<Rightarrow> 'p) \<Rightarrow> nat \<Rightarrow> 'x world_scheme \<Rightarrow> 'p option" where
  "vview P i w = (case ubi w of None \<Rightarrow> None | Some d \<Rightarrow> map_option P (volumes d ! i))"

definition vnames :: "'x world_scheme \<Rightarrow> string option list" where
  "vnames w = (case ubi w of None \<Rightarrow> []
     | Some d \<Rightarrow> map (\<lambda>i. map_option vol_name (volumes d ! i)) [0..<vtbl_slots d])"

definition find_name :: "string option list \<Rightarrow> string \<Rightarrow> nat option" where
  "find_name xs n = find (\<lambda>i. xs ! i = Some n) [0..<length xs]"

definition uniq_name :: "string \<Rightarrow> string option list \<Rightarrow> bool" where
  "uniq_name n xs =
     (\<forall>i < length xs. \<forall>j < length xs. xs ! i = Some n \<longrightarrow> xs ! j = Some n \<longrightarrow> i = j)"

definition vol_byte :: "'x world_scheme \<Rightarrow> nat \<Rightarrow> nat \<Rightarrow> nat \<Rightarrow> byte" where
  "vol_byte w i u k =
     (case leb_map (media w) i (k div u) of
        None \<Rightarrow> 0xff
      | Some p \<Rightarrow> if k mod u < length (fst p) then fst p ! (k mod u) else 0xff)"

definition vol_data :: "'x world_scheme \<Rightarrow> nat \<Rightarrow> nat \<Rightarrow> bytes" where
  "vol_data w i n = map (vol_byte w i (usable_leb_size (the (vol w i)))) [0..<n]"

lemma length_vol_data [simp]: "length (vol_data w i n) = n"
  by (simp add: vol_data_def)

lemma find_upt_Some:
  "find P [0..<n] = Some i \<longleftrightarrow> i < n \<and> P i \<and> (\<forall>j < i. \<not> P j)"
  by (auto simp: find_Some_iff nth_append)

lemma find_name_Some:
  "find_name xs n = Some i \<longleftrightarrow> i < length xs \<and> xs ! i = Some n \<and> (\<forall>j < i. xs ! j \<noteq> Some n)"
  by (simp add: find_name_def find_upt_Some)

lemma find_name_None: "find_name xs n = None \<longleftrightarrow> (\<forall>i < length xs. xs ! i \<noteq> Some n)"
  by (auto simp: find_name_def find_None_iff)

lemma find_name_uniq:
  "uniq_name n xs \<Longrightarrow> i < length xs \<Longrightarrow> xs ! i = Some n \<Longrightarrow> find_name xs n = Some i"
  unfolding find_name_Some uniq_name_def by (metis nat_neq_iff order.strict_trans)

lemma vnames_attached: "ubi w = Some d \<Longrightarrow> vnames w = map (\<lambda>i. map_option vol_name (volumes d ! i)) [0..<vtbl_slots d]"
  by (simp add: vnames_def)

lemma volume_named_iff: "volume_named d n i = (map_option vol_name (volumes d ! i) = Some n)"
  by (auto simp: volume_named_def split: option.split)

lemma wp_ubi_find_volume:
  assumes "ubi w \<noteq> None"
  shows "wp (ubi_find_volume n) Q w = Q (find_name (vnames w) n) w"
proof -
  obtain d where d: "ubi w = Some d"
    using assms by blast
  have "find (volume_named d n) [0..<vtbl_slots d] = find_name (vnames w) n"
    unfolding find_name_def using d
    by (auto simp: vnames_attached volume_named_iff intro!: find_cong)
  then show ?thesis
    using d by (simp add: ubi_find_volume_def Let_def)
qed

section \<open>Reading\<close>

lemma vol_byte_at:
  "k < u \<Longrightarrow> vol_byte w i u (lnum * u + k) =
     (case leb_map (media w) i lnum of None \<Rightarrow> 0xff
      | Some p \<Rightarrow> if k < length (fst p) then fst p ! k else 0xff)"
  by (simp add: vol_byte_def split: option.split)

lemma vol_byte_leb:
  "off + len \<le> u \<Longrightarrow> leb_map (media w) i lnum = Some p \<Longrightarrow>
   map (vol_byte w i u) [lnum * u + off..<lnum * u + off + len] =
   take len (drop off (fst p) @ replicate len 0xff)"
  by (rule nth_equalityI) (auto simp: vol_byte_at add.assoc nth_append min_def)

lemma vol_byte_unmapped:
  "off + len \<le> u \<Longrightarrow> leb_map (media w) i lnum = None \<Longrightarrow>
   map (vol_byte w i u) [lnum * u + off..<lnum * u + off + len] = replicate len 0xff"
  by (rule nth_equalityI) (auto simp: vol_byte_at add.assoc)

lemma wp_eba_read_leb:
  assumes "off + len \<le> u"
  shows "wp (eba_read_leb i lnum off len) (\<lambda>(e, d) w'. e \<le> 0 \<and> length d = len \<and>
     (e = 0 \<longrightarrow> d = map (vol_byte w i u) [lnum * u + off..<lnum * u + off + len])) w"
  using assms
  by (auto simp: eba_read_leb_def vol_byte_leb vol_byte_unmapped Let_def split: option.split)

lemma mem_write_map_split:
  "n \<le> k \<Longrightarrow> mem_write (a + n) (map g [p + n..<p + k]) (mem_write a (map g [p..<p + n]) m)
   = mem_write a (map g [p..<p + k]) m"
  by (rule ext) (auto simp: mem_write_def)

lemma vol_byte_media: "media w' = media w \<Longrightarrow> vol_byte w' = vol_byte w"
  by (simp add: vol_byte_def fun_eq_iff)

lemma wp_eba_read_full:
  assumes "off + len \<le> u"
  shows "wp (eba_read_leb i lnum off len) (\<lambda>(e, d) w'. e \<le> 0 \<and> length d = len \<and>
     (e = 0 \<longrightarrow> d = map (vol_byte w i u) [lnum * u + off..<lnum * u + off + len])
     \<and> media w' = media w \<and> ram w' = ram w) w"
proof -
  have "keeps (\<lambda>w. (media w, ram w)) (eba_read_leb i lnum off len)"
    by (intro keeps_intros) (simp add: view_defs)
  from wp_conj [OF wp_eba_read_leb [OF assms] keeps_wp [OF this]]
  show ?thesis by (rule wp_mono) auto
qed

lemma wp_read_loop:
  "wp (ubi_read_loop i u t lnum off sz buf)
     (\<lambda>(e, rest) w'. 0 \<le> e \<and> (e = 0 \<longrightarrow> rest = 0 \<and>
        ram w' = mem_write buf (map (vol_byte w i u) [lnum * u + off..<lnum * u + off + sz]) (ram w))) w"
proof (induction sz arbitrary: lnum off buf w rule: less_induct)
  case (less sz)
  define len where "len = (if off + (if sz > t then t else sz) \<ge> u then u - off else if sz > t then t else sz)"
  show ?case
  proof (cases "len = 0")
    case True
    then show ?thesis
      by (subst ubi_read_loop.simps) (simp add: Let_def len_def)
  next
    case False
    then have fit: "off + len \<le> u" and ne: "0 < len"
      by (auto simp: len_def split: if_splits)
    have rest: "wp (if sz \<le> len then ret (0, 0)
        else if off + len = u then ubi_read_loop i u t (lnum + 1) 0 (sz - len) (buf + len)
        else ubi_read_loop i u t lnum (off + len) (sz - len) (buf + len))
      (\<lambda>(e, rest) w'. 0 \<le> e \<and> (e = 0 \<longrightarrow> rest = 0 \<and>
        ram w' = mem_write buf (map (vol_byte w i u) [lnum * u + off..<lnum * u + off + sz]) (ram w))) w1"
      if w1: "ram w1 = mem_write buf (map (vol_byte w i u) [lnum * u + off..<lnum * u + off + len]) (ram w)"
         "media w1 = media w" for w1 :: "'a world_scheme"
    proof (cases "sz \<le> len")
      case True
      then have "len = sz" by (auto simp: len_def split: if_splits)
      then show ?thesis using w1 by simp
    next
      case False
      let ?p = "lnum * u + off"
      have split: "mem_write (buf + len) (map (vol_byte w i u) [?p + len..<?p + len + (sz - len)]) (ram w1)
          = mem_write buf (map (vol_byte w i u) [?p..<?p + sz]) (ram w)"
        using False mem_write_map_split [of len sz buf "vol_byte w i u" ?p "ram w"]
        by (simp add: w1 add.assoc)
      have lt: "sz - len < sz" using ne False by simp
      show ?thesis
        using less.IH [OF lt, of "lnum + 1" 0 "buf + len" w1] less.IH [OF lt, of lnum "off + len" "buf + len" w1]
          False split vol_byte_media [OF w1(2)]
        by (auto simp: algebra_simps)
    qed
    have "wp (do { (e, d) \<leftarrow> eba_read_leb i lnum off len;
         if e \<noteq> 0 then ret (- e, sz)
         else do {
           ram_write buf d;
           if sz \<le> len then ret (0, 0)
           else if off + len = u then ubi_read_loop i u t (lnum + 1) 0 (sz - len) (buf + len)
           else ubi_read_loop i u t lnum (off + len) (sz - len) (buf + len)
         }})
      (\<lambda>(e, rest) w'. 0 \<le> e \<and> (e = 0 \<longrightarrow> rest = 0 \<and>
        ram w' = mem_write buf (map (vol_byte w i u) [lnum * u + off..<lnum * u + off + sz]) (ram w))) w"
    proof (rule wp_bindI [OF wp_eba_read_full [OF fit]])
      fix a :: "int \<times> bytes" and w1 :: "'a world_scheme"
      assume A: "(case a of (e, d) \<Rightarrow> \<lambda>w'. e \<le> 0 \<and> length d = len \<and>
         (e = 0 \<longrightarrow> d = map (vol_byte w i u) [lnum * u + off..<lnum * u + off + len])
         \<and> media w' = media w \<and> ram w' = ram w) w1"
      obtain e d where a: "a = (e, d)" by (cases a)
      show "wp (case a of (e, d) \<Rightarrow> if e \<noteq> 0 then ret (- e, sz)
         else do {
           ram_write buf d;
           if sz \<le> len then ret (0, 0)
           else if off + len = u then ubi_read_loop i u t (lnum + 1) 0 (sz - len) (buf + len)
           else ubi_read_loop i u t lnum (off + len) (sz - len) (buf + len)
         })
      (\<lambda>(e, rest) w'. 0 \<le> e \<and> (e = 0 \<longrightarrow> rest = 0 \<and>
        ram w' = mem_write buf (map (vol_byte w i u) [lnum * u + off..<lnum * u + off + sz]) (ram w))) w1"
        using A rest [of "w1\<lparr>ram := mem_write buf d (ram w1)\<rparr>"] by (auto simp: a)
    qed
    then show ?thesis
      using False by (subst ubi_read_loop.simps) (simp only: Let_def len_def [symmetric] if_False)
  qed
qed

text \<open>
  A successful \<open>ubi read\<close> has copied the first bytes of the volume to RAM: as many as asked for,
  or all the volume has; an empty volume leaves the buffer as it was.
\<close>

definition read_length :: "ubi_volume \<Rightarrow> nat \<Rightarrow> nat" where
  "read_length v sz = (if sz = 0 then used_bytes v else min sz (used_bytes v))"

lemma wp_ubi_volume_read:
  assumes "ubi w \<noteq> None"
  shows "wp (ubi_volume_read n buf sz) (\<lambda>e w'. e = 0 \<longrightarrow>
     (\<exists>i v. find_name (vnames w) n = Some i \<and> v = the (vol w i) \<and> \<not> updating v \<and> \<not> upd_marker v
        \<and> ram w' = mem_write buf (vol_data w i (read_length v sz)) (ram w))) w"
proof (cases "find_name (vnames w) n")
  case None
  then show ?thesis
    by (simp add: ubi_volume_read_def wp_ubi_find_volume assms)
next
  case (Some i)
  let ?v = "the (vol w i)" and ?k = "read_length (the (vol w i)) sz"
  let ?Q = "\<lambda>e w'. e = 0 \<longrightarrow> ram w' = mem_write buf (vol_data w i ?k) (ram w)"
  have loop: "wp (do { (e, left) \<leftarrow> ubi_read_loop i (usable_leb_size ?v) t 0 0 ?k buf;
             when_m (left = 0) (env_set ''filesize'' (hex_digits ?k)); ret e }) ?Q w1"
    if "ram w1 = ram w" "media w1 = media w" for t and w1 :: "'a world_scheme"
    by (rule wp_bindI [OF wp_read_loop])
       (use that vol_byte_media [OF that(2)] in \<open>auto simp: vol_data_def env_set_def\<close>)
  have "wp (if used_bytes ?v = 0 then ret 0 else
           let sz1 = (if sz = 0 then used_bytes ?v else sz);
               sz = (if sz1 > used_bytes ?v then used_bytes ?v else sz1);
               tbuf_size = (if sz < usable_leb_size ?v then align_up sz (min_io_size (the (ubi w))) else usable_leb_size ?v)
           in do {
             tbuf \<leftarrow> malloc_buf tbuf_size;
             if tbuf = None then ret ENOMEM
             else do {
               (e, left) \<leftarrow> ubi_read_loop i (usable_leb_size ?v) tbuf_size 0 0 sz buf;
               when_m (left = 0) (env_set ''filesize'' (hex_digits sz));
               ret e
             }
           }) ?Q w"
  proof (cases "used_bytes ?v = 0")
    case True
    then show ?thesis by (simp add: read_length_def vol_data_def)
  next
    case False
    have "(if (if sz = 0 then used_bytes ?v else sz) > used_bytes ?v then used_bytes ?v
           else (if sz = 0 then used_bytes ?v else sz)) = ?k"
      by (simp add: read_length_def)
    then show ?thesis
      using False loop by (simp add: Let_def malloc_buf_def)
  qed
  then have "wp (ubi_volume_read n buf sz)
      (\<lambda>e w'. e = 0 \<longrightarrow> \<not> updating ?v \<and> \<not> upd_marker ?v \<and> ?Q e w') w"
    using Some by (simp add: ubi_volume_read_def wp_ubi_find_volume assms)
  then show ?thesis
    by (rule wp_mono) (use Some in simp)
qed

lemma keeps_ubi_volume_read_dev:
  "ignores_time f \<Longrightarrow> ignores_ram f \<Longrightarrow> ignores_hung f \<Longrightarrow> ignores_env f \<Longrightarrow>
   keeps f (ubi_volume_read n buf sz)"
  unfolding ubi_volume_read_def by (intro keeps_intros keeps_read_loop)

section \<open>Writing\<close>

text \<open>
  A \<open>quiet\<close> view depends on the volumes in memory only; the operations below the volume layer
  keep it, and so does every update of a volume that keeps its observed fields.
\<close>

definition quiet :: "('x world_scheme \<Rightarrow> 'v) \<Rightarrow> bool" where
  "quiet f =
     (ignores_time f \<and> ignores_raw f \<and> ignores_media f
      \<and> (\<forall>w r. f (w\<lparr>ubi := map_option (\<lambda>d. d\<lparr>ro_mode := r\<rparr>) (ubi w)\<rparr>) = f w)
      \<and> (\<forall>w g. f (w\<lparr>ubi := map_option (\<lambda>d. d\<lparr>vtbl := g d\<rparr>) (ubi w)\<rparr>) = f w))"

lemma quiet_ignores: "quiet f \<Longrightarrow> ignores_time f" "quiet f \<Longrightarrow> ignores_raw f" "quiet f \<Longrightarrow> ignores_media f"
  by (simp_all add: quiet_def)

lemma quiet_vview: "quiet (vview P i)"
  by (auto simp: quiet_def view_defs vview_def split: option.split)

lemma quiet_vnames: "quiet vnames"
  by (auto simp: quiet_def view_defs vnames_def split: option.split)

lemma quiet_dev_params: "quiet dev_params"
  by (simp add: quiet_def view_defs dev_params_def option.map_comp comp_def)

lemma quiet_pair: "quiet f \<Longrightarrow> quiet g \<Longrightarrow> quiet (\<lambda>w. (f w, g w))"
  by (simp add: quiet_def view_defs)

lemma keeps_upd_ro_quiet: "quiet f \<Longrightarrow> keeps f (upd_ubi (\<lambda>d. d\<lparr>ro_mode := r\<rparr>))"
  unfolding upd_ubi_def by (rule keeps_modify) (unfold quiet_def, blast)

lemma keeps_upd_vtbl_quiet: "quiet f \<Longrightarrow> keeps f (upd_ubi (\<lambda>d. d\<lparr>vtbl := g d\<rparr>))"
  unfolding upd_ubi_def by (rule keeps_modify) (unfold quiet_def, blast)

lemma keeps_ubi_io_quiet: "quiet f \<Longrightarrow> keeps f ubi_io"
  unfolding ubi_io_def by (intro keeps_intros keeps_upd_ro_quiet quiet_ignores)

lemma keeps_update_layout_quiet: "quiet f \<Longrightarrow> keeps f ubi_update_layout_vol"
  unfolding ubi_update_layout_vol_def eba_change_vtbl_copy_def
  by (intro keeps_intros keeps_ubi_io_quiet quiet_ignores)

lemma keeps_change_vtbl_quiet: "quiet f \<Longrightarrow> keeps f (ubi_change_vtbl_record i r)"
  unfolding ubi_change_vtbl_record_def
  by (intro keeps_intros keeps_upd_vtbl_quiet keeps_update_layout_quiet)

lemma keeps_wl_flush_quiet: "quiet f \<Longrightarrow> keeps f ubi_wl_flush"
  unfolding ubi_wl_flush_def by (intro keeps_intros keeps_ubi_io_quiet)

lemma keeps_eba_unmap_quiet: "quiet f \<Longrightarrow> keeps f (eba_unmap_leb i l)"
  unfolding eba_unmap_leb_def by (intro keeps_intros keeps_ubi_io_quiet quiet_ignores)

lemma keeps_unmap_lebs_quiet: "quiet f \<Longrightarrow> keeps f (unmap_lebs i ls)"
  by (induction ls; unfold unmap_lebs.simps; intro keeps_intros keeps_eba_unmap_quiet; assumption?)

lemma keeps_write_leb_quiet: "quiet f \<Longrightarrow> keeps f (write_leb i l d e)"
  unfolding write_leb_def eba_write_leb_def
  by (intro keeps_intros keeps_ubi_io_quiet quiet_ignores)

lemmas quiet_intros = keeps_intros quiet_ignores keeps_ubi_io_quiet keeps_update_layout_quiet
  keeps_change_vtbl_quiet keeps_wl_flush_quiet keeps_unmap_lebs_quiet keeps_write_leb_quiet

lemma nth_upd_map:
  "xs[j := map_option g (xs ! j)] ! i = (if i = j \<and> j < length xs then map_option g (xs ! j) else xs ! i)"
  by (cases "j < length xs") (simp_all add: nth_list_update list_update_beyond)

lemma keeps_upd_vol_vview:
  "(\<And>v. P (g v) = P v) \<Longrightarrow> keeps (vview P i) (upd_vol j g)"
  unfolding upd_vol_def upd_ubi_def
  by (rule keeps_modify) (auto simp: vview_def option.map_comp comp_def nth_upd_map split: option.split)

text \<open>The index names a volume that exists.\<close>

definition alive :: "nat \<Rightarrow> 'x world_scheme \<Rightarrow> bool" where
  "alive i w = (case ubi w of None \<Rightarrow> False | Some d \<Rightarrow> i < length (volumes d) \<and> volumes d ! i \<noteq> None)"

lemma quiet_alive: "quiet (alive i)"
  by (auto simp: quiet_def view_defs alive_def split: option.split)

lemma keeps_upd_vol_alive: "keeps (alive i) (upd_vol j g)"
  unfolding upd_vol_def upd_ubi_def
  by (rule keeps_modify) (auto simp: alive_def nth_upd_map split: option.split)

lemma alive_vol: "alive i w \<Longrightarrow> \<exists>d v. ubi w = Some d \<and> volumes d ! i = Some v \<and> i < length (volumes d)"
  by (auto simp: alive_def split: option.splits)

lemma vview_vol: "vview P i w = Some x \<Longrightarrow> P (the (vol w i)) = x"
  by (auto simp: vview_def split: option.splits)

lemma alive_vview: "alive i w \<Longrightarrow> vview P i w = Some (P (the (vol w i)))"
  by (auto simp: vview_def alive_def split: option.splits)

lemma wp_upd_vol:
  "alive i w \<Longrightarrow> wp (upd_vol i g) (\<lambda>_ w'. alive i w' \<and> vview P i w' = Some (P (g (the (vol w i))))) w"
  by (auto simp: upd_vol_def upd_ubi_def alive_def vview_def split: option.splits)

lemma wp_start_update_updating:
  assumes "alive i w" "n \<noteq> 0"
  shows "wp (ubi_start_update i n) (\<lambda>_ w'. vview updating i w' = Some True) w"
  unfolding ubi_start_update_def set_update_marker_def clear_update_marker_def
  by (rule wp_bindI [OF wp_upd_vol [OF assms(1), where P = updating]],
      rule wp_mono [OF keeps_wp [where f = "vview updating i"]],
      intro quiet_intros quiet_vview keeps_upd_vol_vview)
     (use assms(2) in simp_all)

lemma ens_upd_vol:
  "(\<And>v. P (g v) = x) \<Longrightarrow> ens (alive i) (\<lambda>e w'. e = 0 \<longrightarrow> vview P i w' = Some x) (do { upd_vol i g; ret (a :: int) })"
  by (rule ensI, rule wp_bindI [OF wp_upd_vol [where P = P]]) simp_all

lemma ens_start_update_bytes:
  "n \<noteq> 0 \<Longrightarrow> ens (alive i) (\<lambda>e w'. e = 0 \<longrightarrow> vview upd_bytes i w' = Some n) (ubi_start_update i n)"
  unfolding ubi_start_update_def set_update_marker_def clear_update_marker_def
  by (intro ens_intros ens_upd_vol ens_bind ens_return quiet_intros quiet_alive keeps_upd_vol_alive)
     simp_all

text \<open>A volume whose update has ended has the size of the update, if it is static.\<close>

definition sized :: "nat \<Rightarrow> ubi_volume \<Rightarrow> bool" where
  "sized n v = (vol_type v = UBI_STATIC_VOLUME \<longrightarrow> used_bytes v = n)"

definition upd_done :: "nat \<Rightarrow> ubi_volume \<Rightarrow> bool" where
  "upd_done n v = (updating v \<or> sized n v)"

definition upd_open :: "nat \<Rightarrow> nat \<Rightarrow> 'x world_scheme \<Rightarrow> bool" where
  "upd_open i n w = (alive i w \<and> vview (\<lambda>v. (updating v, upd_bytes v)) i w = Some (True, n))"

lemma keeps_eq: "keeps f m \<Longrightarrow> keeps (\<lambda>s. f s = c) m"
  by (simp add: keeps_def)

lemma keeps_conj: "keeps P m \<Longrightarrow> keeps Q m \<Longrightarrow> keeps (\<lambda>s. P s \<and> Q s) m"
  by (simp add: keeps_def)

lemma keeps_upd_open_vol:
  "(\<And>v. updating (g v) = updating v) \<Longrightarrow> (\<And>v. upd_bytes (g v) = upd_bytes v) \<Longrightarrow>
   keeps (upd_open i n) (upd_vol i g)"
  unfolding upd_open_def
  by (intro keeps_conj keeps_eq keeps_upd_vol_alive keeps_upd_vol_vview) simp

lemma quiet_upd_open: "quiet (upd_open i n)"
  by (auto simp: quiet_def view_defs upd_open_def alive_def vview_def split: option.split)

lemma keeps_more_update_loop_open: "keeps (upd_open i n) (more_update_loop i u l buf)"
proof (induction "length buf" arbitrary: l buf rule: less_induct)
  case less
  show ?case
    by (subst more_update_loop.simps,
        intro quiet_intros quiet_upd_open keeps_upd_open_vol less) simp_all
qed

lemma upd_open_done: "upd_open i n w \<Longrightarrow> vview (upd_done n) i w = Some True"
  by (auto simp: upd_open_def upd_done_def vview_def alive_def split: option.splits)

lemma wp_clear_update_marker:
  "alive i w \<Longrightarrow> wp (clear_update_marker i n) (\<lambda>_ w'. alive i w' \<and> vview (sized n) i w' = Some True) w"
  unfolding clear_update_marker_def
  by (rule wp_bind_keeps [OF keeps_get_ubi [where f = "alive i"]],
      rule wp_bindI [OF wp_upd_vol [where P = "sized n"]], simp,
      rule wp_mono [OF keeps_wp [where f = "\<lambda>w. (alive i w, vview (sized n) i w)"]],
      intro keeps_pair quiet_intros quiet_alive quiet_vview keeps_upd_vol_alive keeps_upd_vol_vview)
     (simp_all add: sized_def set_static_size_def)

lemma ens_finish_update:
  "ens (upd_open i n) (\<lambda>_ w'. vview (upd_done n) i w' = Some True) (do {
     e \<leftarrow> ubi_wl_flush;
     e \<leftarrow> (if e \<noteq> 0 then ret e else clear_update_marker i n);
     if e \<noteq> 0 then ret e
     else do { upd_vol i (\<lambda>v. v\<lparr>updating := False, upd_buf := []\<rparr>); ret x }
   })"
proof (rule ensI, rule wp_bind_keeps [OF keeps_wl_flush_quiet [OF quiet_upd_open]])
  fix e :: int and w w1 :: "'a world_scheme"
  assume "upd_open i n w" "upd_open i n w1 = upd_open i n w"
  then have w1: "upd_open i n w1" by simp
  have clear: "wp (clear_update_marker i n) (\<lambda>_ w'. upd_open i n w' \<and> vview (sized n) i w' = Some True) w1"
  proof -
    have "keeps (upd_open i n) (clear_update_marker i n)"
      unfolding clear_update_marker_def
      by (intro quiet_intros quiet_upd_open keeps_upd_open_vol) (simp_all add: set_static_size_def)
    from wp_conj [OF keeps_wp [OF this] wp_clear_update_marker]
    show ?thesis by (rule wp_mono) (use w1 in \<open>auto simp: upd_open_def\<close>)
  qed
  have "wp (if e \<noteq> 0 then ret e else clear_update_marker i n)
      (\<lambda>e w'. upd_open i n w' \<and> (e = 0 \<longrightarrow> vview (sized n) i w' = Some True)) w1"
    using w1 by (auto intro: wp_mono [OF clear])
  then show "wp (do { e \<leftarrow> (if e \<noteq> 0 then ret e else clear_update_marker i n);
      if e \<noteq> 0 then ret e
      else do { upd_vol i (\<lambda>v. v\<lparr>updating := False, upd_buf := []\<rparr>); ret x } })
      (\<lambda>_ w'. vview (upd_done n) i w' = Some True) w1"
  proof (rule wp_bindI)
    fix e' :: int and w2 :: "'a world_scheme"
    assume w2: "upd_open i n w2 \<and> (e' = 0 \<longrightarrow> vview (sized n) i w2 = Some True)"
    show "wp (if e' \<noteq> 0 then ret e'
      else do { upd_vol i (\<lambda>v. v\<lparr>updating := False, upd_buf := []\<rparr>); ret x })
      (\<lambda>_ w'. vview (upd_done n) i w' = Some True) w2"
    proof (cases "e' = 0")
      case True
      then have sz: "sized n (the (vol w2 i))" and al: "alive i w2"
        using w2 vview_vol [of "sized n" i w2] by (auto simp: upd_open_def)
      show ?thesis
        using True
        by (simp, intro wp_mono [OF wp_upd_vol [OF al, where P = "upd_done n"]])
           (use sz in \<open>simp add: upd_done_def sized_def\<close>)
    qed (use w2 in \<open>simp add: upd_open_done\<close>)
  qed
qed

lemma ens_get_vol:
  "(\<And>w. A w \<Longrightarrow> p (the (vol w i))) \<Longrightarrow> (\<And>v. p v \<Longrightarrow> ens A R (k v)) \<Longrightarrow> ens A R (State_Monad.bind (get_vol i) k)"
  by (simp add: ens_def)

lemma ens_more_update:
  "ens (upd_open i n) (\<lambda>_ w'. vview (upd_done n) i w' = Some True) (ubi_more_update_data i buf)"
proof -
  have tail: "ens (upd_open i n) (\<lambda>_ w'. vview (upd_done n) i w' = Some True)
     (do { v \<leftarrow> get_vol i;
           if upd_received v = upd_bytes v
           then do {
             e \<leftarrow> ubi_wl_flush;
             e \<leftarrow> (if e \<noteq> 0 then ret e else clear_update_marker i (upd_bytes v));
             if e \<noteq> 0 then ret e
             else do { upd_vol i (\<lambda>v. v\<lparr>updating := False, upd_buf := []\<rparr>); ret x }
           }
           else ret e })" for x and e :: int
    by (rule ens_get_vol [where p = "\<lambda>v. upd_bytes v = n"])
       (auto simp: upd_open_def upd_open_done [unfolded upd_open_def] intro!: ens_if ens_return ens_finish_update
          dest: vview_vol)
  show ?thesis
    unfolding ubi_more_update_data_def
    by (intro tail ens_intros ens_bind ens_return upd_open_done quiet_intros quiet_upd_open
          keeps_upd_open_vol keeps_more_update_loop_open) simp_all
qed


text \<open>Programs whose result is zero or a negative error number.\<close>

definition nonpos :: "('s, int) state \<Rightarrow> bool" where
  "nonpos m = (\<forall>s. fst (run_state m s) \<le> 0)"

lemma nonpos_wp: "nonpos m \<Longrightarrow> wp m (\<lambda>e _. e \<le> 0) s"
  by (auto simp: nonpos_def wp_def split_beta)

lemma nonpos_return: "e \<le> 0 \<Longrightarrow> nonpos (ret e)"
  by (simp add: nonpos_def)

lemma nonpos_bind_int: "nonpos m \<Longrightarrow> (\<And>e. e \<le> 0 \<Longrightarrow> nonpos (k e)) \<Longrightarrow> nonpos (State_Monad.bind m k)"
  by (auto simp: nonpos_def run_state_bind split_beta)

lemma nonpos_bind_ubi_io: "(\<And>t e. e \<le> 0 \<Longrightarrow> nonpos (k (t, e))) \<Longrightarrow> nonpos (State_Monad.bind ubi_io k)"
  by (auto simp: nonpos_def run_state_bind ubi_io_def io_result_def touch_raw_def when_m_def split_beta)

lemma nonpos_bind: "(\<And>a. nonpos (k a)) \<Longrightarrow> nonpos (State_Monad.bind m k)"
  by (auto simp: nonpos_def run_state_bind split_beta)

lemma nonpos_if: "(b \<Longrightarrow> nonpos m) \<Longrightarrow> (\<not> b \<Longrightarrow> nonpos n) \<Longrightarrow> nonpos (if b then m else n)"
  by simp

lemma nonpos_case_option:
  "(x = None \<Longrightarrow> nonpos m) \<Longrightarrow> (\<And>a. x = Some a \<Longrightarrow> nonpos (g a)) \<Longrightarrow>
   nonpos (case x of None \<Rightarrow> m | Some a \<Rightarrow> g a)"
  by (simp split: option.split)

lemmas nonpos_intros = nonpos_if nonpos_case_option nonpos_bind_ubi_io nonpos_bind_int nonpos_bind nonpos_return

lemma nonpos_change_vtbl_record: "nonpos (ubi_change_vtbl_record i r)"
  unfolding ubi_change_vtbl_record_def ubi_update_layout_vol_def eba_change_vtbl_copy_def
  by (simp only: prod.case | rule nonpos_intros | simp)+

lemma nonpos_unmap_lebs: "nonpos (unmap_lebs i ls)"
  by (induction ls; unfold unmap_lebs.simps eba_unmap_leb_def;
      (simp only: prod.case | assumption | rule nonpos_intros | simp)+)

lemma nonpos_wl_flush: "nonpos ubi_wl_flush"
  unfolding ubi_wl_flush_def by (simp only: prod.case | rule nonpos_intros | simp)+

lemma nonpos_set_update_marker: "nonpos (set_update_marker i)"
  unfolding set_update_marker_def
  by (rule nonpos_change_vtbl_record nonpos_intros | simp)+

lemma nonpos_clear_update_marker: "nonpos (clear_update_marker i n)"
  unfolding clear_update_marker_def
  by (rule nonpos_change_vtbl_record nonpos_intros | simp)+

lemma nonpos_start_update: "nonpos (ubi_start_update i n)"
  unfolding ubi_start_update_def
  by (rule nonpos_set_update_marker nonpos_clear_update_marker nonpos_unmap_lebs nonpos_wl_flush
      nonpos_intros | simp)+

lemma blind_vnames: "blind j vnames"
proof -
  have "map_option vol_name (xs[j := map_option g (xs ! j)] ! i) = map_option vol_name (xs ! i)"
    if "\<forall>v. attrs (g v) = attrs v" for g xs i
    using that by (auto simp: nth_upd_map attrs_def option.map_comp comp_def)
  then show ?thesis
    by (auto simp: blind_def view_defs vnames_def split: option.split)
qed

lemma blind_alive: "blind j (alive i)"
  by (auto simp: blind_def view_defs alive_def nth_upd_map split: option.split)

definition attached :: "'x world_scheme \<Rightarrow> bool" where
  "attached w = (ubi w \<noteq> None)"

lemma blind_attached: "blind j attached"
  by (auto simp: blind_def view_defs attached_def)

lemma alive_attached: "alive i w \<Longrightarrow> attached w"
  by (auto simp: alive_def attached_def split: option.splits)

lemma find_name_alive:
  "find_name (vnames w) n = Some i \<Longrightarrow> vtbl_slots (the (ubi w)) \<le> length (volumes (the (ubi w))) \<Longrightarrow> alive i w"
  by (auto simp: find_name_Some vnames_def alive_def split: option.splits)

text \<open>A volume update keeps what is blind to its volume.\<close>

lemma wp_ubi_volume_write_blind:
  assumes "attached w" "find_name (vnames w) n = Some i" "blind i f"
  shows "wp (ubi_volume_write n buf) (\<lambda>_ w'. f w' = f w) w"
proof -
  let ?g = "\<lambda>w. (f w, vnames w, attached w)"
  have start: "keeps ?g (ubi_start_update i k)" for k
    by (intro keeps_pair keeps_start_update_blind assms(3) blind_vnames blind_attached)
  have "keeps f (continue_update i buf)"
    unfolding continue_update_def using blind_ignores(1) [OF assms(3)]
    by (intro keeps_intros keeps_more_update_blind keeps_upd_vol_blind assms(3)) (simp_all add: attrs_def)
  then have "wp (ubi_volume_continue_write n buf) (\<lambda>_ w'. f w' = f w1) w1"
    if "?g w1 = ?g w" for w1 :: "'a world_scheme"
    using that assms keeps_wp [of f "continue_update i buf" w1]
    by (simp add: ubi_volume_continue_write_def wp_ubi_find_volume attached_def)
  then have tail: "wp (if e < 0 then ret (- e) else if length buf = 0 then ret 0
      else ubi_volume_continue_write n buf) (\<lambda>_ w'. f w' = f w) w1"
    if "?g w1 = ?g w" for e and w1 :: "'a world_scheme"
    using that by simp
  have "wp (do { e \<leftarrow> ubi_start_update i (length buf); if e < 0 then ret (- e) else if length buf = 0 then ret 0
      else ubi_volume_continue_write n buf }) (\<lambda>_ w'. f w' = f w) w"
    by (rule wp_bind_keeps [OF start]) (rule tail)
  then show ?thesis
    using assms
    by (simp add: ubi_volume_write_def ubi_volume_begin_write_def wp_ubi_find_volume attached_def)
qed

text \<open>A successful \<open>ubi write\<close> of a static volume has set its size.\<close>

lemma wp_ubi_volume_write_sized:
  assumes "alive i w" "find_name (vnames w) n = Some i" "buf \<noteq> []"
  shows "wp (ubi_volume_write n buf) (\<lambda>e w'. e = 0 \<longrightarrow> vview (upd_done (length buf)) i w' = Some True) w"
proof -
  let ?n = "length buf" and ?R = "\<lambda>e w'. e = 0 \<longrightarrow> vview (upd_done (length buf)) i w' = Some True"
  have "ens (upd_open i ?n) (\<lambda>_ w'. vview (upd_done ?n) i w' = Some True) (continue_update i buf)"
    unfolding continue_update_def
    by (rule ens_get_vol [where p = updating], force simp: upd_open_def dest: vview_vol,
        simp, rule ensI, rule wp_bindI [OF ensD [OF ens_more_update]], assumption,
        rule wp_mono [OF keeps_wp [where f = "vview (upd_done ?n) i"]],
        intro keeps_intros quiet_ignores quiet_vview keeps_upd_vol_vview)
       (simp_all add: upd_done_def sized_def)
  then have cont: "wp (ubi_volume_continue_write n buf) ?R w1"
    if "find_name (vnames w1) n = Some i" "upd_open i ?n w1" for w1 :: "'a world_scheme"
    using that alive_attached [of i w1]
    by (auto simp: ubi_volume_continue_write_def wp_ubi_find_volume upd_open_def attached_def
        intro: wp_mono dest!: ensD [where s = w1])
  have start: "wp (ubi_start_update i ?n) (\<lambda>e w'. e \<le> 0 \<and> vnames w' = vnames w \<and> (e = 0 \<longrightarrow> upd_open i ?n w')) w"
  proof -
    have "keeps (\<lambda>w. (alive i w, vnames w)) (ubi_start_update i ?n)"
      by (intro keeps_pair keeps_start_update_blind blind_vnames blind_alive)
    from wp_conj [OF keeps_wp [OF this] wp_conj [OF nonpos_wp [OF nonpos_start_update]
        wp_conj [OF wp_start_update_updating [OF assms(1)] ensD [OF ens_start_update_bytes assms(1)]]]]
    show ?thesis
      by (rule wp_mono) (use assms in \<open>auto simp: upd_open_def alive_vview\<close>)
  qed
  have "wp (do { e \<leftarrow> ubi_start_update i ?n; if e < 0 then ret (- e) else if ?n = 0 then ret 0
      else ubi_volume_continue_write n buf }) ?R w"
    by (rule wp_bindI [OF start]) (use assms cont in auto)
  then show ?thesis
    using assms alive_attached [OF assms(1)]
    by (simp add: ubi_volume_write_def ubi_volume_begin_write_def wp_ubi_find_volume attached_def)
qed

end
