(* ===== verification/Ubi_Naming.thy ===== *)
theory Ubi_Naming
  imports Ubi_Content
begin

text \<open>
  Creating, removing and renaming volumes: what happens to the list of volumes, and to the
  eraseblocks of the volumes that are not involved, when the operation succeeds and when it fails.
\<close>

section \<open>The list of volumes\<close>

definition vols :: "'x world_scheme \<Rightarrow> (ubi_volume option list \<times> nat) option" where
  "vols w = map_option (\<lambda>d. (volumes d, vtbl_slots d)) (ubi w)"

definition lebs_but :: "nat \<Rightarrow> 'x world_scheme \<Rightarrow> nat \<Rightarrow> nat \<Rightarrow> (bytes \<times> nat) option" where
  "lebs_but i w = (leb_map (media w))(i := (\<lambda>_. None))"

lemma lebs_but_eq: "lebs_but i w' = lebs_but i w \<Longrightarrow> j \<noteq> i \<Longrightarrow> leb_map (media w') j = leb_map (media w) j"
  unfolding lebs_but_def by (metis fun_upd_other)

lemma quiet_vols: "quiet vols"
  by (simp add: quiet_def view_defs vols_def option.map_comp comp_def)

lemma vols_Some: "vols w = Some (vs, k) \<longleftrightarrow> (\<exists>d. ubi w = Some d \<and> volumes d = vs \<and> vtbl_slots d = k)"
  by (auto simp: vols_def)

lemma vols_determine:
  assumes "vols w' = vols w"
  shows "vnames w' = vnames w" "vview P i w' = vview P i w" "alive i w' = alive i w" "attached w' = attached w"
    "attached w \<Longrightarrow> vol w' i = vol w i"
  using assms
  by (cases "ubi w"; cases "ubi w'"; simp add: vols_def vnames_def vview_def alive_def attached_def)+

lemma vnames_vols: "vols w = Some (vs, k) \<Longrightarrow> vnames w = map (\<lambda>i. map_option vol_name (vs ! i)) [0..<k]"
  by (auto simp: vols_Some vnames_def)

lemma blind_lebs_but: "blind j (lebs_but j)"
  by (simp add: blind_def view_defs lebs_but_def)

lemma keeps_upd_ubi_vols:
  "(\<And>d. volumes (g d) = volumes d) \<Longrightarrow> (\<And>d. vtbl_slots (g d) = vtbl_slots d) \<Longrightarrow> keeps vols (upd_ubi g)"
  unfolding upd_ubi_def by (rule keeps_modify) (simp add: vols_def option.map_comp comp_def)

lemma keeps_upd_ubi_media: "keeps (lebs_but i) (upd_ubi g)"
  unfolding upd_ubi_def by (rule keeps_modify) (simp add: lebs_but_def)

lemma keeps_vol_is:
  "keeps vols m \<Longrightarrow> keeps (\<lambda>w. vols w = c) m"
  by (rule keeps_eq)

lemma ens_upd_ubi:
  "(\<And>w. A w \<Longrightarrow> R a (w\<lparr>ubi := map_option g (ubi w)\<rparr>)) \<Longrightarrow> ens A R (do { upd_ubi g; ret a })"
  by (simp add: ens_def upd_ubi_def)

section \<open>Creating\<close>

lemma keeps_commit_volume_lebs: "keeps (lebs_but (vol_id v)) (commit_volume v)"
proof -
  have "keeps (lebs_but (vol_id v)) (upd_media (\<lambda>m. m\<lparr>leb_map := (leb_map m)(vol_id v := (\<lambda>_. None))\<rparr>))"
    unfolding upd_media_def by (rule keeps_modify) (simp add: lebs_but_def)
  then show ?thesis
    unfolding commit_volume_def
    by (intro keeps_upd_ubi_media keeps_wl_flush_blind [OF blind_lebs_but]
        keeps_change_vtbl_blind [OF blind_lebs_but] keeps_bind keeps_if keeps_return keeps_memalign_addr
        blind_ignores(1) [OF blind_lebs_but])
qed

lemma ens_commit_volume:
  "ens (\<lambda>w. vols w = Some (vs, k))
       (\<lambda>e w'. vols w' = Some (if e = 0 then vs[vol_id v := Some v] else vs, k))
       (commit_volume v)"
  unfolding commit_volume_def
  by (intro ens_if ens_upd_ubi ens_bind ens_return keeps_vol_is quiet_intros quiet_vols keeps_upd_ubi_vols)
     (auto simp: move_pebs_def vols_Some)

lemma wp_commit_volume:
  assumes "vols w = Some (vs, k)"
  shows "wp (commit_volume v) (\<lambda>e w'. vols w' = Some (if e = 0 then vs[vol_id v := Some v] else vs, k)
     \<and> lebs_but (vol_id v) w' = lebs_but (vol_id v) w) w"
  by (rule wp_conj [OF ensD [OF ens_commit_volume] keeps_wp [OF keeps_commit_volume_lebs]]) (rule assms)

text \<open>The eraseblocks of all volumes that exist.\<close>

definition lebs_of :: "ubi_volume option list \<Rightarrow> nat \<Rightarrow> 'x world_scheme \<Rightarrow> nat \<Rightarrow> nat \<Rightarrow> (bytes \<times> nat) option" where
  "lebs_of vs k w = (\<lambda>j. if j < k \<and> vs ! j \<noteq> None then leb_map (media w) j else (\<lambda>_. None))"

lemma lebs_of_but: "lebs_but i w' = lebs_but i w \<Longrightarrow> vs ! i = None \<Longrightarrow> lebs_of vs k w' = lebs_of vs k w"
  unfolding lebs_of_def by (rule ext) (metis lebs_but_eq)

lemma lebs_of_eq: "lebs_of vs k w' = lebs_of vs k w \<Longrightarrow> j < k \<Longrightarrow> vs ! j \<noteq> None \<Longrightarrow>
   leb_map (media w') j = leb_map (media w) j"
  unfolding lebs_of_def by meson

lemma mkvol_simps [simp]:
  "vol_id (mkvol d req i) = i" "vol_name (mkvol d req i) = req_name req"
  "vol_name_len (mkvol d req i) = length (req_name req)" "vol_type (mkvol d req i) = req_vol_type req"
  by (simp_all add: mkvol_def new_volume_def Let_def)

text \<open>Every name is as long as the recorded length, and the array has a slot for every record.\<close>

definition wf_vols :: "ubi_volume option list \<times> nat \<Rightarrow> bool" where
  "wf_vols = (\<lambda>(vs, k). k \<le> length vs \<and>
     (\<forall>i < k. \<forall>v. vs ! i = Some v \<longrightarrow> vol_name_len v = length (vol_name v)))"

lemma vacant_id_Some: "vacant_id d = Some i \<Longrightarrow> i < vtbl_slots d \<and> volumes d ! i = None"
  by (simp add: vacant_id_def find_upt_Some)

text \<open>A dynamic volume has room for its whole size; a static one starts empty.\<close>

definition roomy :: "nat \<Rightarrow> ubi_volume \<Rightarrow> bool" where
  "roomy sz v = (vol_type v = UBI_DYNAMIC_VOLUME \<longrightarrow> sz \<le> used_bytes v)"

lemma ceil_mult_ge: "0 < u \<Longrightarrow> n \<le> ((n + u - 1) div u) * u" for n u :: nat
proof -
  assume u: "0 < u"
  have "n + u - 1 = ((n + u - 1) div u) * u + (n + u - 1) mod u"
    by simp
  moreover have "(n + u - 1) mod u < u"
    using u by simp
  ultimately show ?thesis
    by linarith
qed

lemma mkvol_roomy: "0 < leb_size d \<Longrightarrow> req_alignment req = 1 \<Longrightarrow> roomy (nat (req_bytes req)) (mkvol d req i)"
  using ceil_mult_ge [of "leb_size d" "nat (req_bytes req)"] by (simp add: roomy_def mkvol_def Let_def)

definition created ::
  "string \<Rightarrow> ubi_vol_type \<Rightarrow> nat \<Rightarrow> ubi_volume option list \<Rightarrow> nat \<Rightarrow> ubi_volume option list \<Rightarrow> bool" where
  "created n t sz vs k vs' =
     (\<exists>i v. i < k \<and> vs ! i = None \<and> vs' = vs[i := Some v] \<and> vol_name v = n \<and> vol_name_len v = length n
        \<and> vol_type v = t \<and> roomy sz v
        \<and> (\<forall>j < k. \<forall>u. vs ! j = Some u \<longrightarrow> vol_name_len u = length n \<longrightarrow> vol_name u \<noteq> n))"

lemma wp_ubi_create_vol:
  assumes "vols w = Some (vs, k)"
  shows "wp (ubi_create_vol n sz dynamic None skip) (\<lambda>e w'. lebs_of vs k w' = lebs_of vs k w \<and>
      (if e = 0 then \<exists>vs'. vols w' = Some (vs', k) \<and>
           created n (if dynamic then UBI_DYNAMIC_VOLUME else UBI_STATIC_VOLUME) (nat sz) vs k vs'
       else vols w' = vols w)) w"
proof -
  obtain d where d: "ubi w = Some d" "volumes d = vs" "vtbl_slots d = k"
    using assms by (auto simp: vols_Some)
  let ?req = "\<lparr>req_vol_id = None, req_alignment = 1, req_bytes = sz,
     req_vol_type = (if dynamic then UBI_DYNAMIC_VOLUME else UBI_STATIC_VOLUME),
     req_name = n, req_skip_check = skip\<rparr>"
  let ?w = "w\<lparr>tick := Suc (tick w), clock := clock w + elapse (orc w) (tick w)\<rparr>"
  define R where "R = (\<lambda>(e :: int) (w' :: 'a world_scheme). lebs_of vs k w' = lebs_of vs k w \<and>
      (if e = 0 then \<exists>vs'. vols w' = Some (vs', k) \<and>
           created n (if dynamic then UBI_DYNAMIC_VOLUME else UBI_STATIC_VOLUME) (nat sz) vs k vs'
       else vols w' = vols w))"
  let ?clash = "list_ex (\<lambda>j. case volumes d ! j of None \<Rightarrow> False
      | Some v \<Rightarrow> vol_name_len v = length n \<and> vol_name v = n) [0..<vtbl_slots d]"
  have commit: "wp (commit_volume (mkvol d ?req i)) R ?w" if i: "vacant_id d = Some i" "\<not> ?clash" "0 < leb_size d" for i
  proof -
    have "vols ?w = Some (vs, k)" "lebs_but i ?w = lebs_but i w"
      using assms by (simp_all add: vols_def lebs_but_def)
    note c = wp_commit_volume [OF this(1), of "mkvol d ?req i"] this(2)
    have v: "i < k" "vs ! i = None" using vacant_id_Some [OF i(1)] d by simp_all
    have names: "\<forall>j < k. \<forall>u. vs ! j = Some u \<longrightarrow> vol_name_len u = length n \<longrightarrow> vol_name u \<noteq> n"
      using i(2) d by (force simp: list_ex_iff)
    show ?thesis
    proof (rule wp_mono [OF c(1)])
      fix e :: int and w' :: "'a world_scheme"
      assume A: "vols w' = Some (if e = 0 then vs[vol_id (mkvol d ?req i) := Some (mkvol d ?req i)] else vs, k)
        \<and> lebs_but (vol_id (mkvol d ?req i)) w' = lebs_but (vol_id (mkvol d ?req i)) ?w"
      then have "lebs_of vs k w' = lebs_of vs k w"
        using c(2) v by (intro lebs_of_but [of i]) simp_all
      moreover have "created n (if dynamic then UBI_DYNAMIC_VOLUME else UBI_STATIC_VOLUME) (nat sz) vs k
          (vs[i := Some (mkvol d ?req i)])"
        unfolding created_def using v names mkvol_roomy [OF i(3), of ?req i] by (intro exI [of _ i] exI [of _ "mkvol d ?req i"]) simp
      ultimately show "R e w'"
        using A assms by (simp add: R_def)
    qed
  qed
  have fail: "R e w1" if "e \<noteq> 0" "ubi w1 = ubi w" "media w1 = media w" for e :: int and w1 :: "'a world_scheme"
    using that by (simp add: R_def vols_def lebs_of_def cong: if_cong)
  have "wp (ubi_create_volume ?req) R w" if "0 < leb_size d"
    using commit fail d that
    by (auto simp: ubi_create_volume_def memalign_addr_def split: option.split)
  then have "wp (ubi_create_vol n sz dynamic None skip) R w"
    using d fail by (auto simp: ubi_create_vol_def Let_def verify_mkvol_req_def)
  then show ?thesis
    by (simp add: R_def)
qed

section \<open>Removing\<close>

lemma keeps_remove_lebs:
  "keeps (lebs_but i) (do { e \<leftarrow> ubi_change_vtbl_record i r; if e \<noteq> 0 then ret e else unmap_lebs i ls })"
  by (intro keeps_bind keeps_if keeps_return keeps_change_vtbl_blind [OF blind_lebs_but]
      keeps_unmap_lebs_blind [OF blind_lebs_but])

lemma release_volume_simps [simp]:
  "volumes (release_volume i n d) = (volumes d)[i := None]" "vtbl_slots (release_volume i n d) = vtbl_slots d"
  by (simp_all add: release_volume_def move_pebs_def Let_def)

lemma wp_ubi_remove_vol:
  assumes "vols w = Some (vs, k)"
  shows "wp (ubi_remove_vol n) (\<lambda>e w'.
      (case find_name (vnames w) n of
         None \<Rightarrow> e \<noteq> 0 \<and> vols w' = vols w \<and> media w' = media w
       | Some i \<Rightarrow> vols w' = Some (if e = 0 then vs[i := None] else vs, k)
           \<and> lebs_but i w' = lebs_but i w)) w"
proof (cases "find_name (vnames w) n")
  case None
  then show ?thesis
    using assms by (auto simp: ubi_remove_vol_def wp_ubi_find_volume vols_Some)
next
  case (Some i)
  obtain d where d: "ubi w = Some d"
    using assms by (auto simp: vols_Some)
  let ?m = "\<lambda>v :: ubi_volume. do {
     e \<leftarrow> (if ro_mode d then ret EROFS
          else do {
            e \<leftarrow> ubi_change_vtbl_record i None;
            if e \<noteq> 0 then ret e else unmap_lebs i [0..<reserved_pebs v]
          });
     if e \<noteq> 0 then ret (if e < 0 then - e else e)
     else do { upd_ubi (release_volume i (reserved_pebs v)); ret 0 }
   } :: ('a world_scheme, int) state"
  have e: "ens (\<lambda>w. vols w = Some (vs, k))
     (\<lambda>e w'. vols w' = Some (if e = 0 then vs[i := None] else vs, k)) (?m v)" for v
    by (intro ens_if ens_upd_ubi ens_bind ens_return keeps_vol_is quiet_intros quiet_vols)
       (auto simp: vols_def)
  have k: "keeps (lebs_but i) (?m v)" for v
    by (intro keeps_bind [of _ "if _ then _ else _"] keeps_if keeps_return keeps_remove_lebs keeps_bind keeps_upd_ubi_media)
  have "wp (?m v) (\<lambda>e w'. vols w' = Some (if e = 0 then vs[i := None] else vs, k)
      \<and> lebs_but i w' = lebs_but i w) w" for v
    by (rule wp_conj [OF ensD [OF e] keeps_wp [OF k]]) (rule assms)
  then show ?thesis
    using Some d by (simp add: ubi_remove_vol_def wp_ubi_find_volume)
qed

section \<open>Renaming\<close>

definition set_name :: "string \<Rightarrow> ubi_volume \<Rightarrow> ubi_volume" where
  "set_name n v = v\<lparr>vol_name_len := length n, vol_name := n\<rparr>"

fun rename_vols :: "ubi_rename_entry list \<Rightarrow> ubi_volume option list \<Rightarrow> ubi_volume option list" where
  "rename_vols [] vs = vs"
| "rename_vols (re # res) vs =
     rename_vols res (vs[re_vol re := map_option (set_name (re_new_name re)) (vs ! re_vol re)])"

lemma ens_apply_renames:
  "\<forall>re \<in> set res. \<not> re_remove re \<Longrightarrow>
   ens (\<lambda>w. vols w = Some (vs, k)) (\<lambda>e w'. e = 0 \<and> vols w' = Some (rename_vols res vs, k)) (apply_renames res)"
proof (induction res arbitrary: vs)
  case (Cons re res)
  have "wp (apply_renames res) (\<lambda>e w'. e = 0 \<and> vols w' = Some (rename_vols (re # res) vs, k)) w'"
    if "vols w' = Some (vs[re_vol re := map_option (set_name (re_new_name re)) (vs ! re_vol re)], k)"
    for w' :: "'a world_scheme"
    using ensD [OF Cons.IH that] Cons.prems by simp
  then show ?case
    using Cons.prems
    by (auto simp: ens_def upd_vol_def upd_ubi_def vols_Some set_name_def [abs_def])
qed (simp add: ens_return)

lemma keeps_apply_renames_media:
  "\<forall>re \<in> set res. \<not> re_remove re \<Longrightarrow> keeps (\<lambda>w. leb_map (media w)) (apply_renames res)"
  by (induction res) (auto simp: upd_vol_def upd_ubi_def intro!: keeps_intros)

lemma blind_leb_map: "j \<noteq> i \<Longrightarrow> blind j (\<lambda>w. leb_map (media w) i)"
  by (simp add: blind_def view_defs)

lemma keeps_rename_lebs:
  assumes "\<forall>re \<in> set res. \<not> re_remove re"
  shows "keeps (\<lambda>w. leb_map (media w)) (ubi_rename_volumes res)"
proof -
  have "keeps (\<lambda>w. leb_map (media w) i) ubi_update_layout_vol" for i
    by (intro keeps_update_layout_blind [of "Suc i"] blind_leb_map) simp
  then have "keeps (\<lambda>w. leb_map (media w)) ubi_update_layout_vol"
    unfolding keeps_def by blast
  then show ?thesis
    unfolding ubi_rename_volumes_def ubi_vtbl_rename_volumes_def upd_ubi_def
    by (intro keeps_intros keeps_apply_renames_media assms) simp_all
qed

lemma wp_ubi_rename_volumes:
  assumes "vols w = Some (vs, k)" "\<forall>re \<in> set res. \<not> re_remove re"
  shows "wp (ubi_rename_volumes res) (\<lambda>e w'. vols w' = Some (if e = 0 then rename_vols res vs else vs, k)
     \<and> leb_map (media w') = leb_map (media w)) w"
proof (rule wp_conj [OF _ keeps_wp [OF keeps_rename_lebs [OF assms(2)]]])
  have "keeps vols (ubi_vtbl_rename_volumes res)"
    unfolding ubi_vtbl_rename_volumes_def by (intro quiet_intros quiet_vols keeps_upd_vtbl_quiet)
  then show "wp (ubi_rename_volumes res) (\<lambda>e w'. vols w' = Some (if e = 0 then rename_vols res vs else vs, k)) w"
    unfolding ubi_rename_volumes_def
    by (rule wp_bind_keeps)
       (use assms in \<open>auto intro: wp_mono [OF ensD [OF ens_apply_renames]]\<close>)
qed

lemma wp_ubi_check:
  assumes "vols w = Some (vs, k)"
  shows "wp (ubi_check n) Q w \<longleftrightarrow> Q (if list_ex (\<lambda>i. map_option vol_name (vs ! i) = Some n) [0..<k + 1] then 0 else 1) w"
  using assms by (auto simp: ubi_check_def vols_Some volume_named_iff [abs_def] Let_def)

lemma wp_ubi_rename_vol:
  assumes "vols w = Some (vs, k)"
  shows "wp (ubi_rename_vol a b) (\<lambda>e w'. leb_map (media w') = leb_map (media w) \<and>
     (if e = 0
      then \<exists>i. find_name (vnames w) a = Some i \<and> find_name (vnames w) b = None
             \<and> vols w' = Some (vs[i := map_option (set_name b) (vs ! i)], k)
      else vols w' = vols w)) w"
proof -
  obtain d where d: "ubi w = Some d" "volumes d = vs" "vtbl_slots d = k"
    using assms by (auto simp: vols_Some)
  show ?thesis
  proof (cases "find_name (vnames w) a")
    case (Some i)
    have "find_name (vnames w) b = None"
      if "\<not> list_ex (\<lambda>i. map_option vol_name (vs ! i) = Some b) [0..<k + 1]"
      using that assms by (auto simp: find_name_None vnames_vols list_ex_iff)
    moreover note wp_ubi_rename_volumes [OF assms, of "[\<lparr>re_vol = i, re_new_name = b, re_remove = False\<rparr>]"]
    ultimately show ?thesis
      using Some d assms
      by (auto simp: ubi_rename_vol_def wp_ubi_find_volume wp_ubi_check [OF assms] elim!: wp_mono)
  qed (use d in \<open>simp add: ubi_rename_vol_def wp_ubi_find_volume\<close>)
qed

section \<open>Open and close\<close>

text \<open>
  Opening a volume changes its reference counts and may note that a static volume was checked;
  \<open>core\<close> is what is left of a volume without these fields.
\<close>

definition core :: "ubi_volume \<Rightarrow> ubi_volume" where
  "core v = v\<lparr>readers := 0, writers := 0, exclusive := False, corrupted := False, checked := False\<rparr>"

definition cvols :: "'x world_scheme \<Rightarrow> (ubi_volume option list \<times> nat) option" where
  "cvols w = map_option (\<lambda>(vs, k). (map (map_option core) vs, k)) (vols w)"

lemma cvols_vols: "vols w' = vols w \<Longrightarrow> cvols w' = cvols w"
  by (simp add: cvols_def)

lemma core_simps [simp]:
  "vol_name (core v) = vol_name v" "vol_name_len (core v) = vol_name_len v" "vol_type (core v) = vol_type v"
  "usable_leb_size (core v) = usable_leb_size v" "used_bytes (core v) = used_bytes v"
  "updating (core v) = updating v" "upd_marker (core v) = upd_marker v"
  "core (set_name n v) = set_name n (core v)" "core (core v) = core v"
  by (simp_all add: core_def set_name_def)

lemma keeps_upd_vol_cvols:
  assumes "\<And>v. core (g v) = core v"
  shows "keeps cvols (upd_vol i g)"
proof -
  have "map (map_option core) (xs[i := map_option g (xs ! i)]) = map (map_option core) xs" for xs
    by (rule nth_equalityI) (auto simp: nth_upd_map option.map_comp comp_def assms)
  then show ?thesis
    unfolding upd_vol_def upd_ubi_def
    by (intro keeps_modify) (simp add: cvols_def vols_def option.map_comp comp_def)
qed

lemma quiet_cvols: "quiet cvols"
  by (simp add: quiet_def view_defs cvols_def vols_def option.map_comp comp_def)

lemma keeps_close_cvols: "keeps cvols (ubi_close_volume i m)"
  unfolding ubi_close_volume_def
  by (rule keeps_upd_vol_cvols) (simp add: core_def split: ubi_open_mode.split)

lemma keeps_close_media: "keeps media (ubi_close_volume i m)"
  unfolding ubi_close_volume_def upd_vol_def upd_ubi_def by (rule keeps_modify) simp

lemma keeps_upd_vol_media: "keeps media (upd_vol i g)"
  unfolding upd_vol_def upd_ubi_def by (rule keeps_modify) simp

lemma keeps_open_nm_cvols: "keeps cvols (ubi_open_volume_nm n m)"
  unfolding ubi_open_volume_nm_def ubi_open_volume_def
  by (intro keeps_intros keeps_close_cvols keeps_upd_vol_cvols quiet_ignores quiet_cvols)
     (simp_all add: core_def split: ubi_open_mode.split)

lemma keeps_open_nm_media: "keeps media (ubi_open_volume_nm n m)"
  unfolding ubi_open_volume_nm_def ubi_open_volume_def
  by (intro keeps_intros keeps_close_media keeps_upd_vol_media) (simp_all add: view_defs)

text \<open>The result of opening: a negative error, or the volume of that name.\<close>

definition opened :: "'x world_scheme \<Rightarrow> string \<Rightarrow> int + nat \<Rightarrow> bool" where
  "opened w n r = (case r of Inl e \<Rightarrow> e < 0 | Inr i \<Rightarrow> find_name (vnames w) n = Some i)"

lemma find_name_len:
  assumes "wf_vols (vs, k)" "vols w = Some (vs, k)"
  shows "find (\<lambda>i. case vs ! i of None \<Rightarrow> False | Some v \<Rightarrow> vol_name_len v = length n \<and> vol_name v = n) [0..<k]
    = find_name (vnames w) n"
  unfolding find_name_def vnames_vols [OF assms(2)]
  using assms(1) by (auto simp: wf_vols_def intro!: find_cong split: option.split)

lemma wp_ubi_open_volume:
  "wp (ubi_open_volume i m) (\<lambda>r _. case r of Inl e \<Rightarrow> e < 0 | Inr j \<Rightarrow> j = i) w"
  by (auto simp: ubi_open_volume_def memalign_addr_def Let_def upd_vol_def upd_ubi_def ubi_close_volume_def
      split: option.split intro!: wpI)

lemma wp_ubi_open_volume_nm:
  assumes "wf_vols (vs, k)" "vols w = Some (vs, k)"
  shows "wp (ubi_open_volume_nm n m) (\<lambda>r _. opened w n r) w"
proof -
  obtain d where d: "ubi w = Some d" "volumes d = vs" "vtbl_slots d = k"
    using assms by (auto simp: vols_Some)
  show ?thesis
    using d find_name_len [OF assms, of n]
    by (auto simp: ubi_open_volume_nm_def opened_def split: option.split
        intro!: wp_mono [OF wp_ubi_open_volume] split: sum.splits)
qed

end
