(* ===== verification/Ubi_Attach.thy ===== *)
theory Ubi_Attach
  imports Ubi_Naming
begin

text \<open>
  Attaching a device establishes what the volume lemmas rely on: an array with a slot for every
  record, names of the recorded length, and no two volumes of the same name.
\<close>

lemma vtbl_check_records_ok:
  "vtbl_check_records d rs = 0 \<Longrightarrow> i < length rs \<Longrightarrow> vr_reserved_pebs (rs ! i) \<noteq> 0 \<Longrightarrow>
   \<not> vtbl_record_bad d (rs ! i)"
  by (induction rs arbitrary: i) (auto simp: less_Suc_eq_0_disj split: if_splits)

lemma no_clash_names:
  "\<not> vtbl_names_clash rs \<Longrightarrow> i < length rs \<Longrightarrow> j < length rs \<Longrightarrow> same_record_name (rs ! i) (rs ! j) \<Longrightarrow> i = j"
proof (induction rs arbitrary: i j)
  case (Cons r rs)
  have sym: "same_record_name a b = same_record_name b a" for a b
    by (auto simp: same_record_name_def)
  show ?case
  proof (cases i)
    case 0
    then show ?thesis
      using Cons.prems by (cases j) (auto simp: list_ex_iff dest: nth_mem)
  next
    case (Suc i')
    then show ?thesis
      using Cons.prems Cons.IH [of i'] by (cases j) (auto simp: list_ex_iff sym [of "rs ! i'"] dest: nth_mem)
  qed
qed simp

lemma good_record_name:
  "\<not> vtbl_record_bad d r \<Longrightarrow> length (vr_name r) = vr_name_len r \<and> vr_name_len r > 0"
proof -
  assume "\<not> vtbl_record_bad d r"
  then have "vr_name r \<noteq> []" "vr_name_len r = min (length (vr_name r)) (vr_name_len r + 1)"
    unfolding vtbl_record_bad_def by blast+
  then show ?thesis
    by (auto simp: min_def split: if_splits)
qed

lemma init_volume_name:
  "init_volume d m i r = Some v \<Longrightarrow>
   vr_reserved_pebs r \<noteq> 0 \<and> vol_name v = take (vr_name_len r) (vr_name r) \<and> vol_name_len v = vr_name_len r"
  by (auto simp: init_volume_def Let_def split: if_splits list.splits)

definition sound_vols :: "ubi_volume option list \<times> nat \<Rightarrow> bool" where
  "sound_vols = (\<lambda>(vs, k). wf_vols (vs, k) \<and>
     (\<forall>i < k. \<forall>j < k. \<forall>u v. vs ! i = Some u \<longrightarrow> vs ! j = Some v \<longrightarrow> vol_name u = vol_name v \<longrightarrow> i = j))"

lemma sound_vols_uniq: "sound_vols (vs, k) \<Longrightarrow> vols w = Some (vs, k) \<Longrightarrow> uniq_name n (vnames w)"
  unfolding sound_vols_def uniq_name_def by (auto simp: vnames_vols)

lemma init_volumes_sound:
  assumes "vtbl_check d tbl = 0" "init_volumes d1 m = Inr d'" "vtbl d1 = tbl" "vtbl_slots d1 = vtbl_slots d"
  shows "sound_vols (volumes d', vtbl_slots d') \<and> dev_mtd d' = dev_mtd d1"
proof -
  let ?k = "vtbl_slots d" and ?rs = "take (vtbl_slots d) tbl"
  have len: "?k \<le> length tbl" and recs: "vtbl_check_records d ?rs = 0" and nc: "\<not> vtbl_names_clash ?rs"
    using assms(1) by (auto simp: vtbl_check_def Let_def split: if_splits)
  have vols: "volumes d' = map (\<lambda>(i, r). init_volume d1 m i r) (enumerate 0 ?rs) @ [Some (layout_volume d1)]"
    and k: "vtbl_slots d' = ?k" and dev: "dev_mtd d' = dev_mtd d1"
    using assms by (auto simp: init_volumes_def Let_def split: if_splits)
  have nth: "volumes d' ! i = init_volume d1 m i (tbl ! i)" if "i < ?k" for i
    using that len by (simp add: vols nth_append nth_enumerate_eq)
  have name: "vol_name v = vr_name (tbl ! i) \<and> vol_name_len v = length (vol_name v) \<and> vol_name_len v > 0
      \<and> vr_name_len (tbl ! i) = vol_name_len v"
    if "i < ?k" "volumes d' ! i = Some v" for i v
    using that nth init_volume_name [of d1 m i "tbl ! i" v] vtbl_check_records_ok [OF recs, of i]
      good_record_name [of d "tbl ! i"] len
    by auto
  have "i = j" if ij: "i < ?k" "j < ?k" "volumes d' ! i = Some u" "volumes d' ! j = Some v" "vol_name u = vol_name v"
    for i j u v
  proof -
    have "same_record_name (tbl ! i) (tbl ! j)"
      using name [OF ij(1,3)] name [OF ij(2,4)] ij(5) unfolding same_record_name_def by metis
    then show ?thesis
      using no_clash_names [OF nc, of i j] ij(1,2) len by simp
  qed
  moreover have "?k \<le> length (volumes d')"
    using len by (simp add: vols)
  ultimately show ?thesis
    using name dev unfolding sound_vols_def wf_vols_def k by blast
qed

lemma vtbl_check_empty: "vtbl_check d (replicate (vtbl_slots d) empty_vtbl_record) = 0"
proof -
  have "vtbl_check_records d (replicate n empty_vtbl_record) = 0" for n
    by (induction n) (simp_all add: empty_vtbl_record_def)
  moreover have "\<not> vtbl_names_clash (replicate n empty_vtbl_record)" for n
    by (induction n) (auto simp: list_ex_iff same_record_name_def empty_vtbl_record_def)
  ultimately show ?thesis
    by (simp add: vtbl_check_def)
qed

definition good_table :: "ubi_device \<Rightarrow> int + ubi_vtbl_record list \<Rightarrow> bool" where
  "good_table d r = (case r of Inl e \<Rightarrow> e \<noteq> 0 | Inr tbl \<Rightarrow> vtbl_check d tbl = 0)"

lemma wp_create_vtbl: "(\<And>e w'. Q e w') \<Longrightarrow> wp (create_vtbl c tbl) Q w"
  by (rule wpI) simp

lemma wp_process_lvol: "wp (process_lvol d) (\<lambda>r _. good_table d r) w"
  unfolding process_lvol_def
  by (auto simp: good_table_def Let_def split: option.splits intro!: wp_create_vtbl)

lemma wp_create_empty_lvol: "wp (create_empty_lvol d) (\<lambda>r _. good_table d r) w"
  unfolding create_empty_lvol_def
  by (auto simp: good_table_def Let_def vtbl_check_empty intro!: wp_create_vtbl)

definition good_device :: "string \<Rightarrow> int + ubi_device \<Rightarrow> bool" where
  "good_device n r =
     (case r of Inl e \<Rightarrow> e \<noteq> 0
      | Inr d \<Rightarrow> sound_vols (volumes d, vtbl_slots d) \<and> dev_mtd d = n)"

lemma wp_read_volume_table: "wp (ubi_read_volume_table d0) (\<lambda>r _. good_device (dev_mtd d0) r) w"
proof -
  define d where "d = d0\<lparr>vtbl_slots := min (leb_size d0 div UBI_VTBL_RECORD_SIZE) UBI_MAX_VOLUMES\<rparr>"
  have tail: "wp (case r of Inl e \<Rightarrow> ret (Inl e)
        | Inr tbl \<Rightarrow> do {
            m \<leftarrow> gets media;
            case init_volumes (d\<lparr>vtbl := tbl, avail_pebs := good_peb_count d - corr_peb_count d\<rparr>) m of
              Inl e \<Rightarrow> ret (Inl e)
            | Inr d' \<Rightarrow> do { upd_media (check_attaching_info d'); ret (Inr d') }
          }) (\<lambda>r _. good_device (dev_mtd d0) r) w'"
    if "good_table d r" for r and w' :: "'a world_scheme"
  proof (cases r)
    case (Inl e)
    then show ?thesis using that by (simp add: good_table_def good_device_def)
  next
    case (Inr tbl)
    let ?d1 = "d\<lparr>vtbl := tbl, avail_pebs := good_peb_count d - corr_peb_count d\<rparr>"
    show ?thesis
    proof (cases "init_volumes ?d1 (media w')")
      case (Inl e)
      then have "e = - 22" by (auto simp: init_volumes_def Let_def split: if_splits)
      then show ?thesis using Inl Inr by (simp add: good_device_def)
    next
      case (Inr d')
      then have "sound_vols (volumes d', vtbl_slots d') \<and> dev_mtd d' = dev_mtd d0"
        using init_volumes_sound [of d tbl ?d1 "media w'" d'] that \<open>r = Inr tbl\<close>
        by (simp add: good_table_def d_def)
      then show ?thesis using Inr \<open>r = Inr tbl\<close> by (simp add: good_device_def upd_media_def)
    qed
  qed
  have pick: "wp (if lvol0 m = None \<and> lvol1 m = None
      then if media_empty m then create_empty_lvol d else ret (Inl (- EINVAL)) else process_lvol d)
      (\<lambda>r _. good_table d r) w'" for m and w' :: "'a world_scheme"
    using wp_create_empty_lvol wp_process_lvol by (auto simp: good_table_def [of _ "Inl _"])
  show ?thesis
    unfolding ubi_read_volume_table_def Let_def d_def [symmetric]
    by (rule wp_bind_keeps [OF keeps_gets], rule wp_bindI [OF pick], rule tail)
qed

lemma keeps_attached_read_table: "keeps attached (ubi_read_volume_table d)"
proof -
  have "keeps attached (upd_ubi g)" for g
    unfolding upd_ubi_def by (rule keeps_modify) (simp add: attached_def)
  moreover have "ignores_time attached" "ignores_raw attached" "ignores_media attached"
    by (simp_all add: view_defs attached_def)
  ultimately show ?thesis
    unfolding ubi_read_volume_table_def create_empty_lvol_def process_lvol_def create_vtbl_def ubi_io_def
    by (intro keeps_intros)
qed

text \<open>The result of an attach: the device of that partition with sound volumes, or no device.\<close>

definition attach_result :: "string \<Rightarrow> int \<Rightarrow> 'x world_scheme \<Rightarrow> bool" where
  "attach_result n e w =
     (if e = 0 then \<exists>d. ubi w = Some d \<and> sound_vols (volumes d, vtbl_slots d) \<and> dev_mtd d = n
      else \<not> attached w)"

lemma attach_result_minus [simp]: "attach_result n (- e) w = attach_result n e w"
  by (simp add: attach_result_def)

lemma wp_ubi_attach:
  assumes "\<not> attached w"
  shows "wp (ubi_attach mtd) (attach_result (mtd_name mtd)) w"
proof -
  let ?R = "attach_result (mtd_name mtd)"
  let ?tail = "\<lambda>l r. (case r of
         Inl e \<Rightarrow> ret e
       | Inr d \<Rightarrow>
           (case reserve_pebs l d of
              Inl e \<Rightarrow> ret e
            | Inr d' \<Rightarrow> do { modify (\<lambda>w. w\<lparr>ubi := Some d'\<rparr>); ret 0 })) :: ('a world_scheme, int) state"
  have read: "wp (ubi_read_volume_table (new_device mtd sc))
      (\<lambda>r w'. good_device (mtd_name mtd) r \<and> attached w' = attached w1) w1" for sc and w1 :: "'a world_scheme"
    using wp_conj [OF wp_read_volume_table [of "new_device mtd sc" w1] keeps_wp [OF keeps_attached_read_table]]
    by (simp add: new_device_def)
  have tail: "wp (?tail l r) ?R w'" if "good_device (mtd_name mtd) r" "\<not> attached w'" for r l w'
    using that
    by (auto simp: good_device_def attach_result_def reserve_pebs_def Let_def split: sum.splits if_splits)
  have rest: "wp (do { r \<leftarrow> ubi_read_volume_table (new_device mtd sc); ?tail l r }) ?R w1"
    if "\<not> attached w1" for sc l w1
    by (rule wp_bindI [OF read], rule tail) (use that in auto)
  have "keeps attached (scan_device t)" for t
    unfolding scan_device_def by (rule keeps_modify) (simp add: attached_def)
  then have "wp (do { scan_device t; sc \<leftarrow> gets (\<lambda>w. scan (orc w) t);
      r \<leftarrow> ubi_read_volume_table (new_device mtd sc); ?tail (scan_bad_limit sc) r }) ?R w1"
    if "\<not> attached w1" for t w1
    by (rule wp_bind_keeps, intro wp_bind_keeps [OF keeps_gets [of attached]] rest) (use that in simp)
  then show ?thesis
    using assms unfolding ubi_attach_def
    by (intro wp_bind_keeps [where f = attached] keeps_intros)
       (auto simp: view_defs attached_def attach_result_def)
qed

lemma mtd_named_name: "mtd_named n w = Some m \<Longrightarrow> mtd_name m = n"
  by (auto simp: mtd_named_def find_Some_iff)

lemma wp_ubi_part:
  "wp (ubi_part n) (\<lambda>e w'.
     if attached w \<and> dev_mtd (the (ubi w)) = n then e = 0 \<and> w' = w else attach_result n e w') w"
proof (cases "attached w \<and> dev_mtd (the (ubi w)) = n")
  case True
  then show ?thesis
    by (auto simp: ubi_part_def attached_def)
next
  case False
  let ?w = "w\<lparr>ubi := None\<rparr>"
  have "wp (case m of None \<Rightarrow> ret 1 | Some mtd \<Rightarrow> ubi_dev_scan mtd) (attach_result n) ?w"
    if "m = mtd_named n ?w" for m
    using that mtd_named_name [of n ?w] wp_ubi_attach [of ?w]
    by (auto simp: ubi_dev_scan_def attached_def attach_result_def [of _ 1] split: option.split)
  with False show ?thesis
    by (auto simp: ubi_part_def ubi_detach_def attached_def split: option.splits)
qed

end
