(* ===== verification/Env_Text.thy ===== *)
theory Env_Text
  imports Ubi_Attach
begin

text \<open>
  Numbers in environment variables (\<open>lib/strto.c\<close>, \<open>env/common.c\<close>): parsing with an optional
  \<open>0x\<close> prefix, and printing.  A string is the list of its characters before the terminating NUL.
\<close>

definition tolower :: "nat \<Rightarrow> nat" where
  "tolower c = (if 65 \<le> c \<and> c \<le> 90 then c + 32 else c)"

definition isxdigit :: "nat \<Rightarrow> bool" where
  "isxdigit c = (48 \<le> c \<and> c \<le> 57 \<or> 97 \<le> c \<and> c \<le> 102 \<or> 65 \<le> c \<and> c \<le> 70)"

definition decode_digit :: "char \<Rightarrow> nat" where
  "decode_digit ch =
     (let c = of_char ch
      in if \<not> isxdigit c then 256
         else if tolower c \<le> 57 then tolower c - 48 else tolower c - 97 + 10)"

definition parse_integer_fixup_radix :: "string \<Rightarrow> nat \<Rightarrow> string \<times> nat" where
  "parse_integer_fixup_radix s base =
     (let (s', base') =
        (case s of
           c # cs \<Rightarrow>
             if c = CHR ''0''
             then if cs \<noteq> [] \<and> tolower (of_char (hd cs)) = 120 then (tl cs, 16)
                  else if base = 0 then (s, 8) else (s, base)
             else (s, base)
         | [] \<Rightarrow> (s, base))
      in (s', if base' = 0 then 10 else base'))"

text \<open>The accumulation loop, in 64 bits; the result is the value and the rest of the string.\<close>

fun strtoul_loop :: "string \<Rightarrow> nat \<Rightarrow> nat \<Rightarrow> nat \<times> string" where
  "strtoul_loop [] base result = (result, [])"
| "strtoul_loop (c # cs) base result =
     (if decode_digit c < base then strtoul_loop cs base ((result * base + decode_digit c) mod 2 ^ 64)
      else (result, c # cs))"

definition simple_strtoul :: "string \<Rightarrow> nat \<Rightarrow> nat \<times> string" where
  "simple_strtoul s base = (let (s', b) = parse_integer_fixup_radix s base in strtoul_loop s' b 0)"

definition env_get_hex :: "string \<Rightarrow> nat \<Rightarrow> ('x world_scheme, nat) state" where
  "env_get_hex n default_val = gets (\<lambda>w.
     case env w n of
       None \<Rightarrow> default_val
     | Some s \<Rightarrow> let (v, rest) = simple_strtoul s 16 in if rest = s then default_val else v)"

definition env_get_ulong :: "string \<Rightarrow> nat \<Rightarrow> nat \<Rightarrow> ('x world_scheme, nat) state" where
  "env_get_ulong n base default_val = gets (\<lambda>w.
     case env w n of None \<Rightarrow> default_val | Some s \<Rightarrow> fst (simple_strtoul s base))"

text \<open>Setting a variable may fail for want of memory.\<close>

definition env_set_ulong :: "string \<Rightarrow> nat \<Rightarrow> ('x world_scheme, int) state" where
  "env_set_ulong n v = do {
     t \<leftarrow> io_tick;
     e \<leftarrow> io_result t;
     if e \<noteq> 0 then ret 1
     else do { env_set n (dec_digits v); ret 0 }
   }"

section \<open>Round trips\<close>

lemma strtoul_loop_append:
  "strtoul_loop (xs @ ys) b r =
   (case strtoul_loop xs b r of (v, []) \<Rightarrow> strtoul_loop ys b v | (v, z # zs) \<Rightarrow> (v, z # zs @ ys))"
  by (induction xs arbitrary: r) auto

lemma decode_dec: "d < 10 \<Longrightarrow> decode_digit (char_of (48 + d)) = d"
  by (simp add: decode_digit_def isxdigit_def tolower_def Let_def)

lemma nat_below_16: "d < 16 \<Longrightarrow> d \<in> {0, 1, 2, 3, 4, 5, 6, 7, 8, 9, 10, 11, 12, 13, 14, 15 :: nat}"
  by (simp, arith)

lemma decode_hex: "d < 16 \<Longrightarrow> decode_digit (''0123456789abcdef'' ! d) = d"
  by (drule nat_below_16) (auto simp: decode_digit_def isxdigit_def tolower_def Let_def)

lemma strtoul_dec_digits: "n < 2 ^ 64 \<Longrightarrow> strtoul_loop (dec_digits n) 10 0 = (n, [])"
proof (induction n rule: less_induct)
  case (less n)
  show ?case
  proof (cases "n < 10")
    case True
    then show ?thesis
      by (simp add: dec_digits.simps [of n] decode_dec)
  next
    case False
    then have "strtoul_loop (dec_digits (n div 10)) 10 0 = (n div 10, [])"
      using less by simp
    then show ?thesis
      using False less.prems decode_dec [of "n mod 10"]
      by (simp add: dec_digits.simps [of n] strtoul_loop_append)
  qed
qed

lemma strtoul_hex_digits: "n < 2 ^ 64 \<Longrightarrow> strtoul_loop (hex_digits n) 16 0 = (n, [])"
proof (induction n rule: less_induct)
  case (less n)
  show ?case
  proof (cases "n < 16")
    case True
    then show ?thesis
      by (simp add: hex_digits.simps [of n] decode_hex)
  next
    case False
    then have "strtoul_loop (hex_digits (n div 16)) 16 0 = (n div 16, [])"
      using less by simp
    then show ?thesis
      using False less.prems decode_hex [of "n mod 16"]
      by (simp add: hex_digits.simps [of n] strtoul_loop_append)
  qed
qed

lemma no_x_prefix:
  assumes "\<forall>c \<in> set s. decode_digit c < 256" "base \<noteq> 0"
  shows "parse_integer_fixup_radix s base = (s, base)"
proof -
  have "tolower (of_char c) \<noteq> (120 :: nat)" if "decode_digit c < 256" for c
    using that by (auto simp: decode_digit_def isxdigit_def tolower_def Let_def split: if_splits)
  then show ?thesis
    using assms by (cases s) (auto simp: parse_integer_fixup_radix_def Let_def)
qed

lemma dec_digits_digits: "\<forall>c \<in> set (dec_digits n). decode_digit c < 256"
proof (induction n rule: less_induct)
  case (less n)
  show ?case
    using less.IH [of "n div 10"] decode_dec [of n] decode_dec [of "n mod 10"]
    by (subst dec_digits.simps) auto
qed

lemma hex_digits_digits: "\<forall>c \<in> set (hex_digits n). decode_digit c < 256"
proof (induction n rule: less_induct)
  case (less n)
  show ?case
    using less.IH [of "n div 16"] decode_hex [of n] decode_hex [of "n mod 16"]
    by (subst hex_digits.simps) auto
qed

lemma simple_strtoul_dec: "n < 2 ^ 64 \<Longrightarrow> simple_strtoul (dec_digits n) 10 = (n, [])"
  by (simp add: simple_strtoul_def no_x_prefix [OF dec_digits_digits] strtoul_dec_digits)

lemma simple_strtoul_hex: "n < 2 ^ 64 \<Longrightarrow> simple_strtoul (hex_digits n) 16 = (n, [])"
  by (simp add: simple_strtoul_def no_x_prefix [OF hex_digits_digits] strtoul_hex_digits)

lemma hex_digits_ne: "hex_digits n \<noteq> []"
  by (subst hex_digits.simps) simp

text \<open>
  Numbers survive the environment: the size that \<open>ubi read\<close> stores in \<open>filesize\<close> is the size
  that \<open>env_get_hex\<close> returns, and a size stored by \<open>env_set_ulong\<close> is read back by \<open>env_get_ulong\<close>.
\<close>

theorem env_number_roundtrip:
  assumes "n < 2 ^ 64"
  shows "fst (run_state (do { env_set x (hex_digits n); env_get_hex x d }) w) = n \<and>
         fst (run_state (do { env_set x (dec_digits n); env_get_ulong x 10 d }) w) = n"
  using assms simple_strtoul_hex [OF assms] simple_strtoul_dec [OF assms] hex_digits_ne [of n]
  by (auto simp: env_set_def env_get_hex_def env_get_ulong_def)

theorem env_number_roundtrip_witness:
  "fst (run_state (do { env_set ''filesize'' (hex_digits 0x40000); env_get_hex ''filesize'' 0 }) sample_world) = 0x40000"
  using env_number_roundtrip [where n = "0x40000" and x = "''filesize''" and d = 0 and w = sample_world] by simp

lemma keeps_env_get_hex [keeps_intros]: "keeps f (env_get_hex n d)"
  by (simp add: env_get_hex_def keeps_gets)

lemma keeps_env_get_ulong [keeps_intros]: "keeps f (env_get_ulong n b d)"
  by (simp add: env_get_ulong_def keeps_gets)

lemma keeps_env_set_ulong [keeps_intros]:
  "ignores_time f \<Longrightarrow> ignores_env f \<Longrightarrow> keeps f (env_set_ulong n v)"
  unfolding env_set_ulong_def by (intro keeps_intros)

end
