(* ===== verification/Fip.thy ===== *)
theory Fip
  imports Machine
begin

text \<open>
  Boot images in memory: the firmware image package (FIP) with its table of contents, the checks
  that tell an UrsusBoot FIP from a stock and from a Vanilla one (\<open>cmd/ursusupdate.c\<close>), the weaker
  checks of \<open>cmd/ursusubi.c\<close>, and the header check of flattened device trees
  (\<open>scripts/dtc/libfdt/fdt.c\<close>).

  A buffer is the list of its bytes, so \<open>length buf\<close> is the length argument of the code and a
  buffer is never NULL; callers model the NULL checks.  The LZMA decoder and SHA-256 are the
  parameters \<open>lzma\<close> and \<open>sha256\<close> of the platform.
\<close>

section \<open>Constants\<close>

definition URSUS_FIP_MAGIC :: nat where "URSUS_FIP_MAGIC = 0xaa640001"
definition URSUS_FIP_SERIAL :: nat where "URSUS_FIP_SERIAL = 0x12345678"
definition URSUS_FIP_MAX_ENTRIES :: nat where "URSUS_FIP_MAX_ENTRIES = 32"
definition URSUS_FIP_TOC_MIN :: nat where "URSUS_FIP_TOC_MIN = 0x400"
definition URSUS_FIP_RAW_MAX :: nat where "URSUS_FIP_RAW_MAX = 0x200000"
definition URSUS_UBI_FIP_VOL_SIZE :: nat where "URSUS_UBI_FIP_VOL_SIZE = 0x100000"
definition URSUS_STOCK_FIP_OFF :: nat where "URSUS_STOCK_FIP_OFF = 0x800"
definition URSUS_STOCK_ENV_OFF :: nat where "URSUS_STOCK_ENV_OFF = 0x7c000"
definition URSUS_STOCK_FIP_MAX :: nat where "URSUS_STOCK_FIP_MAX = URSUS_STOCK_ENV_OFF - URSUS_STOCK_FIP_OFF"

definition ursus_vanilla_fip_sha256 :: bytes where
  "ursus_vanilla_fip_sha256 = replicate 32 0"

definition ursus_nt_fw_uuid :: bytes where
  "ursus_nt_fw_uuid = [0xd6, 0xd0, 0xee, 0xa7, 0xfc, 0xea, 0xd5, 0x4b,
                       0x97, 0x82, 0x99, 0x34, 0xf2, 0x34, 0xb6, 0xe4]"

definition URSUS_BOARD_COMPATIBLE :: string where "URSUS_BOARD_COMPATIBLE = ''nokia,xg-040g-md''"
definition URSUS_BOARD_OTHER_COMPATIBLE :: string where "URSUS_BOARD_OTHER_COMPATIBLE = ''nokia,xg-040g-mf''"

datatype ursus_fip_kind = URSUS_FIP_KIND_URSUS | URSUS_FIP_KIND_VANILLA

section \<open>The table of contents\<close>

text \<open>The header: name, serial number and flags; an entry: uuid, offset, size and flags.\<close>

record ursus_fip_header =
  hdr_name :: nat
  hdr_serial_number :: nat
  hdr_flags :: nat

record ursus_fip_entry =
  ent_uuid :: bytes
  ent_offset_address :: nat
  ent_size :: nat
  ent_flags :: nat

definition FIP_HEADER_SIZE :: nat where "FIP_HEADER_SIZE = 16"
definition FIP_ENTRY_SIZE :: nat where "FIP_ENTRY_SIZE = 40"

definition fip_header_at :: "bytes \<Rightarrow> ursus_fip_header" where
  "fip_header_at buf =
     \<lparr>hdr_name = le_get 4 0 buf, hdr_serial_number = le_get 4 4 buf, hdr_flags = le_get 8 8 buf\<rparr>"

definition fip_entry_at :: "bytes \<Rightarrow> nat \<Rightarrow> ursus_fip_entry" where
  "fip_entry_at buf p =
     \<lparr>ent_uuid = slice p 16 buf, ent_offset_address = le_get 8 (p + 16) buf,
      ent_size = le_get 8 (p + 24) buf, ent_flags = le_get 8 (p + 32) buf\<rparr>"

definition ursus_uuid_zero :: "bytes \<Rightarrow> bool" where
  "ursus_uuid_zero u = list_all (\<lambda>b. b = 0) u"

definition ursus_mem_has :: "bytes \<Rightarrow> string \<Rightarrow> bool" where
  "ursus_mem_has buf needle =
     (let n = length needle
      in n \<noteq> 0 \<and> n \<le> length buf
         \<and> list_ex (\<lambda>i. slice i n buf = str_bytes needle) [0..<length buf - n + 1])"

text \<open>
  The entry loop of \<open>ursus_fip_parse\<close>: \<open>k\<close> entries left, the next one at \<open>p\<close>.  The result is the
  NT_FW entry found last and the end that the terminator declares.
\<close>

fun fip_parse_entries ::
  "nat \<Rightarrow> nat \<Rightarrow> bytes \<Rightarrow> (nat \<times> nat) option \<Rightarrow> int + (nat \<times> nat) option \<times> nat option" where
  "fip_parse_entries 0 p buf nt = Inr (nt, None)"
| "fip_parse_entries (Suc k) p buf nt =
     (if p + FIP_ENTRY_SIZE > length buf then Inl (- EINVAL)
      else
        let ent = fip_entry_at buf p; off = ent_offset_address ent; sz = ent_size ent
        in if ursus_uuid_zero (ent_uuid ent)
           then if sz \<noteq> 0 \<or> off < URSUS_FIP_TOC_MIN \<or> off > length buf then Inl (- EINVAL)
                else Inr (nt, Some off)
           else if off < URSUS_FIP_TOC_MIN \<or> sz = 0 \<or> off > length buf \<or> sz > length buf - off
           then Inl (- ERANGE)
           else if (off + sz) mod 2 ^ 64 > length buf then Inl (- ERANGE)
           else fip_parse_entries k (p + FIP_ENTRY_SIZE) buf
                  (if ent_uuid ent = ursus_nt_fw_uuid then Some (off, sz) else nt))"

text \<open>Offset and size of NT_FW, and the declared end.\<close>

definition ursus_fip_parse :: "bytes \<Rightarrow> int + nat \<times> nat \<times> nat" where
  "ursus_fip_parse buf =
     (if length buf < FIP_HEADER_SIZE + 2 * FIP_ENTRY_SIZE then Inl (- EINVAL)
      else
        let hdr = fip_header_at buf
        in if hdr_name hdr \<noteq> URSUS_FIP_MAGIC \<or> hdr_serial_number hdr \<noteq> URSUS_FIP_SERIAL
           then Inl (- EINVAL)
           else case fip_parse_entries URSUS_FIP_MAX_ENTRIES FIP_HEADER_SIZE buf None of
                  Inl e \<Rightarrow> Inl e
                | Inr (Some (noff, nsize), Some dend) \<Rightarrow> Inr (noff, nsize, dend)
                | Inr _ \<Rightarrow> Inl (- EINVAL))"

section \<open>Validators\<close>

text \<open>
  Decompress the LZMA payload of \<open>n\<close> bytes at \<open>off\<close>: its header holds the unpacked size, which is
  bounded before memory is allocated.
\<close>

definition fip_unpack_nt :: "bytes \<Rightarrow> nat \<Rightarrow> nat \<Rightarrow> ('x world_scheme, int + bytes) state" where
  "fip_unpack_nt buf off n =
     (let raw64 = le_get 8 (off + 5) buf
      in if raw64 < 0x10000 \<or> raw64 > URSUS_FIP_RAW_MAX then ret (Inl (- EFBIG))
         else do {
           raw \<leftarrow> malloc_buf raw64;
           if raw = None then ret (Inl (- ENOMEM))
           else gets (\<lambda>w. let (e, out) = lzma (orc w) (slice off n buf) raw64
                          in if e \<noteq> 0 \<or> length out \<noteq> raw64 then Inl (- EBADMSG) else Inr out)
         })"

definition ursus_fip_bl33_unpack :: "bytes \<Rightarrow> ('x world_scheme, int + bytes) state" where
  "ursus_fip_bl33_unpack buf =
     (if length buf = 0 \<or> length buf > URSUS_UBI_FIP_VOL_SIZE then ret (Inl (- EFBIG))
      else case ursus_fip_parse buf of
             Inl e \<Rightarrow> ret (Inl e)
           | Inr (nt_off, nt_size, declared_end) \<Rightarrow>
               if declared_end \<noteq> length buf then ret (Inl (- EINVAL))
               else if nt_size < 13 \<or> nt_off + nt_size > length buf then ret (Inl (- EINVAL))
               else fip_unpack_nt buf nt_off nt_size)"

definition ursus_identity :: "bytes \<Rightarrow> bool" where
  "ursus_identity raw =
     (ursus_mem_has raw ''U-Boot 2026.07-UrsusBoot-'' \<and> ursus_mem_has raw ''nokia,xg-040g-md''
      \<and> ursus_mem_has raw ''airoha,an7581'')"

definition stock_identity :: "bytes \<Rightarrow> bool" where
  "stock_identity raw = (ursus_mem_has raw ''XG040GMC2P5G'' \<and> ursus_mem_has raw ''AN7581'')"

text \<open>Zero and the declared end, or the error.\<close>

definition ursus_fip_validate_current :: "bytes \<Rightarrow> ('x world_scheme, int + nat) state" where
  "ursus_fip_validate_current buf =
     (case ursus_fip_parse buf of
        Inl e \<Rightarrow> ret (Inl e)
      | Inr (nt_off, nt_size, end) \<Rightarrow>
          if end = 0 \<or> end > length buf \<or> nt_size < 13 \<or> nt_off + nt_size > end then ret (Inl (- EINVAL))
          else do {
            r \<leftarrow> fip_unpack_nt buf nt_off nt_size;
            ret (case r of
                   Inl e \<Rightarrow> Inl e
                 | Inr raw \<Rightarrow> if \<not> ursus_identity raw \<and> \<not> stock_identity raw then Inl (- ENODEV) else Inr end)
          })"

text \<open>The digest, or the error.\<close>

definition ursus_fip_validate_buf :: "bytes \<Rightarrow> bool \<Rightarrow> ('x world_scheme, int + bytes) state" where
  "ursus_fip_validate_buf buf stock_limit =
     (if stock_limit \<and> length buf \<ge> URSUS_STOCK_FIP_MAX then ret (Inl (- EFBIG))
      else do {
        r \<leftarrow> ursus_fip_bl33_unpack buf;
        case r of
          Inl e \<Rightarrow> ret (Inl e)
        | Inr raw \<Rightarrow> if \<not> ursus_identity raw then ret (Inl (- ENODEV))
                     else gets (\<lambda>w. Inr (sha256 (orc w) buf))
      })"

definition ursus_fip_validate :: "nat \<Rightarrow> nat \<Rightarrow> bool \<Rightarrow> ('x world_scheme, int) state" where
  "ursus_fip_validate addr len stock_limit =
     (if map_sysmem_null addr then ret (- ENOMEM)
      else do {
        buf \<leftarrow> ram_read addr len;
        r \<leftarrow> ursus_fip_validate_buf buf stock_limit;
        ret (case r of Inl e \<Rightarrow> e | Inr _ \<Rightarrow> 0)
      })"

definition ursus_vanilla_fip_pinned :: bool where
  "ursus_vanilla_fip_pinned = list_ex (\<lambda>b. b \<noteq> 0) ursus_vanilla_fip_sha256"

definition vanilla_identity :: "bytes \<Rightarrow> bool" where
  "vanilla_identity raw =
     (ursus_mem_has raw URSUS_BOARD_COMPATIBLE \<and> \<not> ursus_mem_has raw URSUS_BOARD_OTHER_COMPATIBLE
      \<and> ursus_mem_has raw ''U-Boot 2026.07'' \<and> \<not> ursus_mem_has raw ''U-Boot 2026.07-UrsusBoot-'')"

definition ursus_vanilla_fip_validate_buf :: "bytes \<Rightarrow> ('x world_scheme, int + bytes) state" where
  "ursus_vanilla_fip_validate_buf buf = do {
     r \<leftarrow> ursus_fip_bl33_unpack buf;
     case r of
       Inl e \<Rightarrow> ret (Inl e)
     | Inr raw \<Rightarrow>
         if \<not> vanilla_identity raw then ret (Inl (- ENODEV))
         else do {
           digest \<leftarrow> gets (\<lambda>w. sha256 (orc w) buf);
           if \<not> ursus_vanilla_fip_pinned then ret (Inl (- EPERM))
           else if digest \<noteq> ursus_vanilla_fip_sha256 then ret (Inl (- EPERM))
           else ret (Inr digest)
         }
   }"

definition ursus_vanilla_fip_validate :: "nat \<Rightarrow> nat \<Rightarrow> bool \<Rightarrow> ('x world_scheme, int) state" where
  "ursus_vanilla_fip_validate addr len stock_limit =
     (if stock_limit then ret (- EPERM)
      else if map_sysmem_null addr then ret (- ENOMEM)
      else do {
        buf \<leftarrow> ram_read addr len;
        r \<leftarrow> ursus_vanilla_fip_validate_buf buf;
        ret (case r of Inl e \<Rightarrow> e | Inr _ \<Rightarrow> 0)
      })"

definition ursus_fip_validate_kind :: "nat \<Rightarrow> nat \<Rightarrow> bool \<Rightarrow> ursus_fip_kind \<Rightarrow> ('x world_scheme, int) state" where
  "ursus_fip_validate_kind addr len stock_limit kind =
     (if kind = URSUS_FIP_KIND_VANILLA then ursus_vanilla_fip_validate addr len stock_limit
      else ursus_fip_validate addr len stock_limit)"

definition ursus_fip_kind_name :: "ursus_fip_kind \<Rightarrow> string" where
  "ursus_fip_kind_name kind = (if kind = URSUS_FIP_KIND_VANILLA then ''VANILLA'' else ''URSUSBOOT'')"

section \<open>The checks of the UBI engine\<close>

definition URSUS_MAX_TOC_ENTRIES :: nat where "URSUS_MAX_TOC_ENTRIES = 32"
definition URSUS_FIP_TOC_READ :: nat where "URSUS_FIP_TOC_READ = 0x1000"
definition URSUS_FIP_MAX :: nat where "URSUS_FIP_MAX = URSUS_STOCK_ENV_OFF - URSUS_STOCK_FIP_OFF"

text \<open>Are an NT_FW entry and a terminator found?\<close>

fun fip_scan_entries :: "nat \<Rightarrow> nat \<Rightarrow> bytes \<Rightarrow> bool \<Rightarrow> bool" where
  "fip_scan_entries 0 p buf nt = False"
| "fip_scan_entries (Suc k) p buf nt =
     (if p + FIP_ENTRY_SIZE > length buf then False
      else if ursus_uuid_zero (ent_uuid (fip_entry_at buf p)) then nt
      else fip_scan_entries k (p + FIP_ENTRY_SIZE) buf
             (nt \<or> ent_uuid (fip_entry_at buf p) = ursus_nt_fw_uuid))"

definition ursus_fip_buffer_valid :: "bytes \<Rightarrow> bool" where
  "ursus_fip_buffer_valid buf =
     (length buf \<ge> FIP_HEADER_SIZE + FIP_ENTRY_SIZE
      \<and> hdr_name (fip_header_at buf) = URSUS_FIP_MAGIC
      \<and> hdr_serial_number (fip_header_at buf) = URSUS_FIP_SERIAL
      \<and> fip_scan_entries URSUS_MAX_TOC_ENTRIES FIP_HEADER_SIZE buf False)"

text \<open>The end that the first terminator of the table declares, if it is plausible.\<close>

fun toc_end :: "nat \<Rightarrow> nat \<Rightarrow> bytes \<Rightarrow> nat option" where
  "toc_end 0 p toc = None"
| "toc_end (Suc k) p toc =
     (if p + FIP_ENTRY_SIZE > length toc then None
      else if \<not> ursus_uuid_zero (ent_uuid (fip_entry_at toc p)) then toc_end k (p + FIP_ENTRY_SIZE) toc
      else
        let end = ent_offset_address (fip_entry_at toc p)
        in if end < 0x10000 \<or> end > URSUS_FIP_MAX then None else Some end)"

section \<open>Device tree headers\<close>

definition FDT_MAGIC :: nat where "FDT_MAGIC = 0xd00dfeed"
definition FDT_FIRST_SUPPORTED_VERSION :: nat where "FDT_FIRST_SUPPORTED_VERSION = 2"
definition FDT_LAST_SUPPORTED_VERSION :: nat where "FDT_LAST_SUPPORTED_VERSION = 17"

definition fdt_magic :: "bytes \<Rightarrow> nat" where "fdt_magic f = be_get 4 0 f"
definition fdt_totalsize :: "bytes \<Rightarrow> nat" where "fdt_totalsize f = be_get 4 4 f"
definition fdt_off_dt_struct :: "bytes \<Rightarrow> nat" where "fdt_off_dt_struct f = be_get 4 8 f"
definition fdt_off_dt_strings :: "bytes \<Rightarrow> nat" where "fdt_off_dt_strings f = be_get 4 12 f"
definition fdt_off_mem_rsvmap :: "bytes \<Rightarrow> nat" where "fdt_off_mem_rsvmap f = be_get 4 16 f"
definition fdt_version :: "bytes \<Rightarrow> nat" where "fdt_version f = be_get 4 20 f"
definition fdt_last_comp_version :: "bytes \<Rightarrow> nat" where "fdt_last_comp_version f = be_get 4 24 f"
definition fdt_size_dt_strings :: "bytes \<Rightarrow> nat" where "fdt_size_dt_strings f = be_get 4 32 f"
definition fdt_size_dt_struct :: "bytes \<Rightarrow> nat" where "fdt_size_dt_struct f = be_get 4 36 f"

definition check_off :: "nat \<Rightarrow> nat \<Rightarrow> nat \<Rightarrow> bool" where
  "check_off hdrsize totalsize off = (off \<ge> hdrsize \<and> off \<le> totalsize)"

definition check_block :: "nat \<Rightarrow> nat \<Rightarrow> nat \<Rightarrow> nat \<Rightarrow> bool" where
  "check_block hdrsize totalsize base sz =
     (check_off hdrsize totalsize base
      \<and> \<not> (base + sz) mod 2 ^ 32 < base
      \<and> check_off hdrsize totalsize ((base + sz) mod 2 ^ 32))"

definition fdt_header_size :: "bytes \<Rightarrow> nat" where
  "fdt_header_size f =
     (let version = fdt_version f
      in if version \<le> 1 then 28 else if version \<le> 2 then 32 else if version \<le> 3 then 36
         else if version \<le> 16 then 36 else 40)"

definition FDT_ERR_TRUNCATED :: int where "FDT_ERR_TRUNCATED = 8"
definition FDT_ERR_BADMAGIC :: int where "FDT_ERR_BADMAGIC = 9"
definition FDT_ERR_BADVERSION :: int where "FDT_ERR_BADVERSION = 10"
definition FDT_ERR_ALIGNMENT :: int where "FDT_ERR_ALIGNMENT = 19"

definition fdt_check_header :: "nat \<Rightarrow> bytes \<Rightarrow> int" where
  "fdt_check_header addr f =
     (let hdrsize = fdt_header_size f; total = fdt_totalsize f
      in if addr mod 8 \<noteq> 0 then - FDT_ERR_ALIGNMENT
         else if fdt_magic f \<noteq> FDT_MAGIC then - FDT_ERR_BADMAGIC
         else if fdt_version f < FDT_FIRST_SUPPORTED_VERSION
              \<or> fdt_last_comp_version f > FDT_LAST_SUPPORTED_VERSION then - FDT_ERR_BADVERSION
         else if fdt_version f < fdt_last_comp_version f then - FDT_ERR_BADVERSION
         else if total < hdrsize \<or> total > 0x7fffffff then - FDT_ERR_TRUNCATED
         else if \<not> check_off hdrsize total (fdt_off_mem_rsvmap f) then - FDT_ERR_TRUNCATED
         else if fdt_version f < 17 \<and> \<not> check_off hdrsize total (fdt_off_dt_struct f)
         then - FDT_ERR_TRUNCATED
         else if \<not> fdt_version f < 17
              \<and> \<not> check_block hdrsize total (fdt_off_dt_struct f) (fdt_size_dt_struct f)
         then - FDT_ERR_TRUNCATED
         else if \<not> check_block hdrsize total (fdt_off_dt_strings f) (fdt_size_dt_strings f)
         then - FDT_ERR_TRUNCATED
         else 0)"

definition FDT_V17_SIZE :: nat where "FDT_V17_SIZE = 40"

text \<open>The check applied to memory at an address.\<close>

definition fdt_check_header_at :: "nat \<Rightarrow> ('x world_scheme, int) state" where
  "fdt_check_header_at addr = do {
     f \<leftarrow> ram_read addr FDT_V17_SIZE;
     ret (fdt_check_header addr f)
   }"

definition ursus_fit_header_at :: "nat \<Rightarrow> ('x world_scheme, bool) state" where
  "ursus_fit_header_at addr = do {
     f \<leftarrow> ram_read addr FDT_V17_SIZE;
     ret (\<not> map_sysmem_null addr \<and> fdt_check_header addr f = 0 \<and> fdt_totalsize f \<ge> FDT_V17_SIZE)
   }"

section \<open>Lemmas\<close>

lemma fip_parse_entries_bounds:
  "fip_parse_entries k p buf nt = Inr (nt', Some dend) \<Longrightarrow>
   (\<forall>noff nsize. nt = Some (noff, nsize) \<longrightarrow> URSUS_FIP_TOC_MIN \<le> noff \<and> 0 < nsize \<and> noff + nsize \<le> length buf) \<Longrightarrow>
   URSUS_FIP_TOC_MIN \<le> dend \<and> dend \<le> length buf
   \<and> (\<forall>noff nsize. nt' = Some (noff, nsize) \<longrightarrow> URSUS_FIP_TOC_MIN \<le> noff \<and> 0 < nsize \<and> noff + nsize \<le> length buf)"
proof (induction k arbitrary: p nt)
  case (Suc k)
  let ?e = "fip_entry_at buf p"
  show ?case
  proof (cases "ursus_uuid_zero (ent_uuid ?e)")
    case True
    then show ?thesis
      using Suc.prems by (auto simp: Let_def split: if_splits)
  next
    case False
    let ?nt = "if ent_uuid ?e = ursus_nt_fw_uuid then Some (ent_offset_address ?e, ent_size ?e) else nt"
    have step: "fip_parse_entries k (p + FIP_ENTRY_SIZE) buf ?nt = Inr (nt', Some dend)"
      and ok: "URSUS_FIP_TOC_MIN \<le> ent_offset_address ?e" "0 < ent_size ?e"
        "ent_offset_address ?e + ent_size ?e \<le> length buf"
      using Suc.prems(1) False by (auto simp: Let_def split: if_splits)
    show ?thesis
      by (rule Suc.IH [OF step]) (use ok Suc.prems(2) in auto)
  qed
qed simp

lemma ursus_fip_parse_bounds:
  assumes "ursus_fip_parse buf = Inr (noff, nsize, dend)"
  shows "URSUS_FIP_TOC_MIN \<le> noff" "0 < nsize" "noff + nsize \<le> length buf"
    "URSUS_FIP_TOC_MIN \<le> dend" "dend \<le> length buf"
proof -
  have "fip_parse_entries URSUS_FIP_MAX_ENTRIES FIP_HEADER_SIZE buf None = Inr (Some (noff, nsize), Some dend)"
    using assms by (auto simp: ursus_fip_parse_def Let_def split: if_splits sum.splits prod.splits option.splits)
  from fip_parse_entries_bounds [OF this]
  show "URSUS_FIP_TOC_MIN \<le> noff" "0 < nsize" "noff + nsize \<le> length buf"
    "URSUS_FIP_TOC_MIN \<le> dend" "dend \<le> length buf"
    by auto
qed

text \<open>The search is what it says: the string occurs in the buffer.\<close>

lemma ursus_mem_has_iff:
  "ursus_mem_has buf s \<longleftrightarrow> s \<noteq> [] \<and> (\<exists>xs ys. buf = xs @ str_bytes s @ ys)"
proof
  assume "ursus_mem_has buf s"
  then obtain i where i: "slice i (length s) buf = str_bytes s" "s \<noteq> []"
    by (auto simp: ursus_mem_has_def Let_def list_ex_iff)
  have "buf = take i buf @ str_bytes s @ drop (i + length s) buf"
    using i(1) by (metis append_take_drop_id drop_drop add.commute slice_def)
  then show "s \<noteq> [] \<and> (\<exists>xs ys. buf = xs @ str_bytes s @ ys)"
    using i(2) by blast
next
  assume "s \<noteq> [] \<and> (\<exists>xs ys. buf = xs @ str_bytes s @ ys)"
  then obtain xs ys where b: "s \<noteq> []" "buf = xs @ str_bytes s @ ys"
    by blast
  have l: "length (str_bytes s) = length s"
    by (simp add: str_bytes_def)
  then have "slice (length xs) (length s) buf = str_bytes s"
    by (simp add: b slice_def)
  then show "ursus_mem_has buf s"
    using b l by (auto simp: ursus_mem_has_def Let_def list_ex_iff intro!: bexI [of _ "length xs"])
qed

lemma keeps_fip_unpack_nt: "ignores_time f \<Longrightarrow> keeps f (fip_unpack_nt buf off n)"
  unfolding fip_unpack_nt_def by (intro keeps_intros)

lemma keeps_bl33_unpack: "ignores_time f \<Longrightarrow> keeps f (ursus_fip_bl33_unpack buf)"
  unfolding ursus_fip_bl33_unpack_def by (intro keeps_intros keeps_fip_unpack_nt)

lemma keeps_fip_validate [keeps_intros]: "ignores_time f \<Longrightarrow> keeps f (ursus_fip_validate addr len st)"
  unfolding ursus_fip_validate_def ursus_fip_validate_buf_def by (intro keeps_intros keeps_bl33_unpack)

lemma keeps_vanilla_fip_validate [keeps_intros]:
  "ignores_time f \<Longrightarrow> keeps f (ursus_vanilla_fip_validate addr len st)"
  unfolding ursus_vanilla_fip_validate_def ursus_vanilla_fip_validate_buf_def
  by (intro keeps_intros keeps_bl33_unpack)

lemma keeps_fip_validate_kind [keeps_intros]:
  "ignores_time f \<Longrightarrow> keeps f (ursus_fip_validate_kind addr len st kind)"
  unfolding ursus_fip_validate_kind_def by (intro keeps_intros)

lemma keeps_fip_validate_current [keeps_intros]:
  "ignores_time f \<Longrightarrow> keeps f (ursus_fip_validate_current buf)"
  unfolding ursus_fip_validate_current_def by (intro keeps_intros keeps_fip_unpack_nt)

lemma keeps_fdt_check_header_at [keeps_intros]: "keeps f (fdt_check_header_at a)"
  unfolding fdt_check_header_at_def by (intro keeps_intros)

lemma keeps_fit_header_at [keeps_intros]: "keeps f (ursus_fit_header_at a)"
  unfolding ursus_fit_header_at_def by (intro keeps_intros)

section \<open>Properties\<close>

text \<open>
  C36: a parsed table of contents is safe to use: the NT_FW payload and the declared end lie behind
  the table and inside the buffer.
\<close>

theorem fip_parse_in_bounds:
  assumes "ursus_fip_parse buf = Inr (noff, nsize, dend)"
  shows "0x400 \<le> noff \<and> 0 < nsize \<and> noff + nsize \<le> length buf \<and> 0x400 \<le> dend \<and> dend \<le> length buf"
  using ursus_fip_parse_bounds [OF assms] by (simp add: URSUS_FIP_TOC_MIN_def)

text \<open>A small FIP: header, an NT_FW entry of 13 bytes at 0x400, the terminator, padding, payload.\<close>

definition sample_fip :: bytes where
  "sample_fip =
     [0x01, 0x00, 0x64, 0xaa, 0x78, 0x56, 0x34, 0x12, 0, 0, 0, 0, 0, 0, 0, 0,
      0xd6, 0xd0, 0xee, 0xa7, 0xfc, 0xea, 0xd5, 0x4b, 0x97, 0x82, 0x99, 0x34, 0xf2, 0x34, 0xb6, 0xe4,
      0, 4, 0, 0, 0, 0, 0, 0, 13, 0, 0, 0, 0, 0, 0, 0, 0, 0, 0, 0, 0, 0, 0, 0,
      0, 0, 0, 0, 0, 0, 0, 0, 0, 0, 0, 0, 0, 0, 0, 0, 13, 4, 0, 0, 0, 0, 0, 0, 0, 0, 0, 0, 0, 0, 0, 0,
      0, 0, 0, 0, 0, 0, 0, 0] @ replicate 928 0 @ [0x5d, 0, 0, 0, 1, 0, 0, 1, 0, 0, 0, 0, 0]"

lemma fip_parse_entries_numeral:
  "fip_parse_entries (numeral k) p buf nt =
     (if p + FIP_ENTRY_SIZE > length buf then Inl (- EINVAL)
      else
        let ent = fip_entry_at buf p; off = ent_offset_address ent; sz = ent_size ent
        in if ursus_uuid_zero (ent_uuid ent)
           then if sz \<noteq> 0 \<or> off < URSUS_FIP_TOC_MIN \<or> off > length buf then Inl (- EINVAL)
                else Inr (nt, Some off)
           else if off < URSUS_FIP_TOC_MIN \<or> sz = 0 \<or> off > length buf \<or> sz > length buf - off
           then Inl (- ERANGE)
           else if (off + sz) mod 2 ^ 64 > length buf then Inl (- ERANGE)
           else fip_parse_entries (pred_numeral k) (p + FIP_ENTRY_SIZE) buf
                  (if ent_uuid ent = ursus_nt_fw_uuid then Some (off, sz) else nt))"
  by (simp only: numeral_eq_Suc fip_parse_entries.simps)

lemma sample_fip_length: "length sample_fip = 1037"
  by (simp add: sample_fip_def)

lemma sample_fip_header:
  "fip_header_at sample_fip = \<lparr>hdr_name = 0xaa640001, hdr_serial_number = 0x12345678, hdr_flags = 0\<rparr>"
  by (simp add: sample_fip_def fip_header_at_def le_get_def slice_def)

lemma sample_fip_entry:
  "fip_entry_at sample_fip 16 = \<lparr>ent_uuid = ursus_nt_fw_uuid, ent_offset_address = 0x400, ent_size = 13, ent_flags = 0\<rparr>"
  by (simp add: sample_fip_def fip_entry_at_def le_get_def slice_def ursus_nt_fw_uuid_def)

lemma sample_fip_terminator:
  "fip_entry_at sample_fip 56 = \<lparr>ent_uuid = [0, 0, 0, 0, 0, 0, 0, 0, 0, 0, 0, 0, 0, 0, 0, 0],
     ent_offset_address = 0x40d, ent_size = 0, ent_flags = 0\<rparr>"
  by (simp add: sample_fip_def fip_entry_at_def le_get_def slice_def)

lemma sample_fip_parse: "ursus_fip_parse sample_fip = Inr (0x400, 13, 0x40d)"
  by (simp add: ursus_fip_parse_def sample_fip_length sample_fip_header URSUS_FIP_MAGIC_def URSUS_FIP_SERIAL_def
      URSUS_FIP_MAX_ENTRIES_def FIP_HEADER_SIZE_def FIP_ENTRY_SIZE_def fip_parse_entries_numeral sample_fip_entry
      sample_fip_terminator URSUS_FIP_TOC_MIN_def ursus_uuid_zero_def ursus_nt_fw_uuid_def)

theorem fip_parse_in_bounds_witness:
  "ursus_fip_parse sample_fip = Inr (0x400, 13, 0x40d) \<and> 0x400 + 13 \<le> length sample_fip"
  using fip_parse_in_bounds [OF sample_fip_parse] sample_fip_parse by simp

text \<open>
  The outcome of unpacking without memory failure, as a function of the platform and the buffer.
\<close>

definition raw_of :: "platform \<Rightarrow> bytes \<Rightarrow> nat \<Rightarrow> nat \<Rightarrow> int + bytes" where
  "raw_of pf buf off n =
     (let raw64 = le_get 8 (off + 5) buf; (e, out) = lzma pf (slice off n buf) raw64
      in if raw64 < 0x10000 \<or> raw64 > URSUS_FIP_RAW_MAX then Inl (- EFBIG)
         else if e \<noteq> 0 \<or> length out \<noteq> raw64 then Inl (- EBADMSG) else Inr out)"

definition bl33_of :: "platform \<Rightarrow> bytes \<Rightarrow> int + bytes" where
  "bl33_of pf buf =
     (if length buf = 0 \<or> length buf > URSUS_UBI_FIP_VOL_SIZE then Inl (- EFBIG)
      else case ursus_fip_parse buf of
             Inl e \<Rightarrow> Inl e
           | Inr (nt_off, nt_size, declared_end) \<Rightarrow>
               if declared_end \<noteq> length buf then Inl (- EINVAL)
               else if nt_size < 13 \<or> nt_off + nt_size > length buf then Inl (- EINVAL)
               else raw_of pf buf nt_off nt_size)"

definition malloc_ok :: "'x world_scheme \<Rightarrow> bool" where
  "malloc_ok w = (heap_addr (orc w) (tick w) \<noteq> 0)"

lemma wp_fip_unpack_nt:
  "wp (fip_unpack_nt buf off n) (\<lambda>r w'. orc w' = orc w \<and>
     (r = raw_of (orc w) buf off n \<or> \<not> malloc_ok w \<and> r = Inl (- ENOMEM))) w"
  by (auto simp: fip_unpack_nt_def raw_of_def malloc_buf_def malloc_ok_def Let_def split_beta)

lemma wp_bl33_unpack:
  "wp (ursus_fip_bl33_unpack buf) (\<lambda>r w'. orc w' = orc w \<and>
     (r = bl33_of (orc w) buf \<or> \<not> malloc_ok w \<and> r = Inl (- ENOMEM))) w"
  using wp_fip_unpack_nt
  by (auto simp: ursus_fip_bl33_unpack_def bl33_of_def split: sum.splits)

lemma fip_parse_entries_neg: "fip_parse_entries k p buf nt = Inl e \<Longrightarrow> e < 0"
  by (induction k arbitrary: p nt) (auto simp: Let_def split: if_splits)

lemma fip_parse_neg: "ursus_fip_parse buf = Inl e \<Longrightarrow> e < 0"
  by (auto simp: ursus_fip_parse_def Let_def dest: fip_parse_entries_neg
      split: if_splits sum.splits option.splits)

lemma bl33_of_neg: "bl33_of pf buf = Inl e \<Longrightarrow> e < 0"
  by (auto simp: bl33_of_def raw_of_def Let_def dest: fip_parse_neg split: if_splits sum.splits prod.splits)

lemma wp_fip_validate_buf:
  "wp (ursus_fip_validate_buf buf st) (\<lambda>r w'.
     (case r of Inl e \<Rightarrow> e < 0
      | Inr dg \<Rightarrow> dg = sha256 (orc w) buf \<and> (st \<longrightarrow> length buf < URSUS_STOCK_FIP_MAX)
          \<and> (\<exists>raw. bl33_of (orc w) buf = Inr raw \<and> ursus_identity raw))) w"
  unfolding ursus_fip_validate_buf_def
  by (auto intro!: wp_mono [OF wp_bl33_unpack] dest: bl33_of_neg split: sum.split)

lemma wp_vanilla_validate_buf:
  "wp (ursus_vanilla_fip_validate_buf buf) (\<lambda>r _. \<exists>e < 0. r = Inl e \<and>
     (\<forall>raw. bl33_of (orc w) buf = Inr raw \<longrightarrow> \<not> vanilla_identity raw \<longrightarrow> e = - ENODEV \<or> e = - ENOMEM)) w"
proof -
  have "\<not> ursus_vanilla_fip_pinned"
    by (simp add: ursus_vanilla_fip_pinned_def ursus_vanilla_fip_sha256_def list_ex_iff)
  then show ?thesis
    unfolding ursus_vanilla_fip_validate_buf_def
    by (auto intro!: wp_mono [OF wp_bl33_unpack] dest: bl33_of_neg split: sum.split)
qed

lemma vanilla_validate_neg:
  "wp (ursus_vanilla_fip_validate addr len st) (\<lambda>e _. e < 0) w"
  by (auto simp: ursus_vanilla_fip_validate_def intro!: wp_mono [OF wp_vanilla_validate_buf])

text \<open>What acceptance means for the bytes at the address.\<close>

definition accepted_fip :: "platform \<Rightarrow> bool \<Rightarrow> bytes \<Rightarrow> bool" where
  "accepted_fip pf st buf =
     ((st \<longrightarrow> length buf < URSUS_STOCK_FIP_MAX) \<and> (\<exists>raw. bl33_of pf buf = Inr raw \<and> ursus_identity raw))"

lemma wp_fip_validate:
  "wp (ursus_fip_validate addr len st) (\<lambda>e _. e \<le> 0 \<and> (e = 0 \<longrightarrow>
     addr \<noteq> 0 \<and> accepted_fip (orc w) st (mem_read addr len (ram w)))) w"
  by (auto simp: ursus_fip_validate_def map_sysmem_null_def accepted_fip_def
      intro!: wp_mono [OF wp_fip_validate_buf] split: sum.splits)

lemma wp_fip_validate_kind:
  "wp (ursus_fip_validate_kind addr len st kind) (\<lambda>e _. e \<le> 0 \<and> (e = 0 \<longrightarrow>
     kind = URSUS_FIP_KIND_URSUS \<and> addr \<noteq> 0 \<and> accepted_fip (orc w) st (mem_read addr len (ram w)))) w"
  unfolding ursus_fip_validate_kind_def
  by (cases kind) (auto intro!: wp_mono [OF wp_fip_validate] wp_mono [OF vanilla_validate_neg])

lemma accepted_fip_length: "accepted_fip pf st buf \<Longrightarrow> 0 < length buf \<and> length buf \<le> 0x100000"
  by (auto simp: accepted_fip_def bl33_of_def URSUS_UBI_FIP_VOL_SIZE_def split: if_splits)

text \<open>C37: with the pin of this source no image at all is accepted as the Vanilla replacement.\<close>

theorem vanilla_replacement_refused:
  "fst (run_state (ursus_vanilla_fip_validate addr len stock_limit) w) < 0"
  using vanilla_validate_neg [of addr len stock_limit w] by (simp add: wp_def split_beta)

text \<open>
  C38: the two candidate kinds exclude each other by identity, not only by the pin: an image that
  the UrsusBoot validator accepts is refused by the Vanilla validator as the wrong device.
\<close>

theorem validators_exclusive:
  assumes "run_state (ursus_fip_validate_buf buf stock_limit) w = (Inr digest, w1)"
    and "orc w2 = orc w" and "malloc_ok w2"
  shows "fst (run_state (ursus_vanilla_fip_validate_buf buf) w2) = Inl (- ENODEV)"
proof -
  obtain raw where raw: "bl33_of (orc w2) buf = Inr raw" "ursus_identity raw"
    using wp_run [OF wp_fip_validate_buf assms(1)] assms(2) by auto
  have "wp (ursus_vanilla_fip_validate_buf buf) (\<lambda>r _. r = Inl (- ENODEV)) w2"
    unfolding ursus_vanilla_fip_validate_buf_def using raw assms(3)
    by (auto simp: vanilla_identity_def ursus_identity_def intro!: wp_mono [OF wp_bl33_unpack])
  then show ?thesis
    by (simp add: wp_def split_beta)
qed

lemma length_sample_raw: "length sample_raw = 54"
  by (simp add: sample_raw_def str_bytes_def)

lemma sample_raw_identity: "ursus_identity (sample_raw @ xs)"
  unfolding ursus_identity_def ursus_mem_has_iff sample_raw_def
  by (intro conjI; simp; metis append.assoc append_Nil)

lemma sample_fip_raw: "bl33_of sample_platform sample_fip = Inr (sample_raw @ replicate 65482 0)"
proof -
  have "le_get 8 (0x400 + 5) sample_fip = 0x10000"
    by (simp add: sample_fip_def le_get_def slice_def)
  moreover have "take 0x10000 (sample_raw @ replicate 0x10000 0) = sample_raw @ replicate 65482 0"
    by (simp add: length_sample_raw)
  ultimately show ?thesis
    by (simp add: bl33_of_def sample_fip_parse sample_fip_length URSUS_UBI_FIP_VOL_SIZE_def raw_of_def
        URSUS_FIP_RAW_MAX_def sample_platform_def length_sample_raw)
qed

lemma sample_validate_buf:
  "run_state (ursus_fip_validate_buf sample_fip True) sample_world =
   (Inr (replicate 32 0), sample_world\<lparr>tick := 1\<rparr>)"
proof -
  have "le_get 8 1029 sample_fip = 0x10000"
    by (simp add: sample_fip_def le_get_def slice_def)
  then show ?thesis
    using sample_raw_identity [of "replicate 65482 0"]
    by (simp add: ursus_fip_validate_buf_def ursus_fip_bl33_unpack_def fip_unpack_nt_def sample_fip_parse
        sample_fip_length malloc_buf_def sample_world_def sample_platform_def length_sample_raw
        URSUS_STOCK_FIP_MAX_def URSUS_STOCK_ENV_OFF_def URSUS_STOCK_FIP_OFF_def URSUS_UBI_FIP_VOL_SIZE_def
        URSUS_FIP_RAW_MAX_def)
qed

lemma sample_malloc_ok: "malloc_ok sample_world"
  by (simp add: malloc_ok_def sample_world_def sample_platform_def)

theorem validators_exclusive_witness:
  "fst (run_state (ursus_fip_validate_buf sample_fip True) sample_world) = Inr (replicate 32 0) \<and>
   fst (run_state (ursus_vanilla_fip_validate_buf sample_fip) sample_world) = Inl (- ENODEV)"
  using validators_exclusive [OF sample_validate_buf refl sample_malloc_ok] by (simp add: sample_validate_buf)

text \<open>
  C39: what the update accepts, the next classification of the active FIP recognises: the check of
  an installed FIP succeeds on it and finds it complete, so the following update runs in normal
  mode instead of repairing.
\<close>

theorem accepted_fip_is_current:
  assumes "run_state (ursus_fip_validate_buf buf stock_limit) w = (Inr digest, w1)"
    and "orc w2 = orc w" and "malloc_ok w2"
  shows "fst (run_state (ursus_fip_validate_current buf) w2) = Inr (length buf)"
proof -
  obtain raw where raw: "bl33_of (orc w2) buf = Inr raw" "ursus_identity raw"
    using wp_run [OF wp_fip_validate_buf assms(1)] assms(2) by auto
  obtain noff nsize where p: "ursus_fip_parse buf = Inr (noff, nsize, length buf)" "13 \<le> nsize"
      "raw_of (orc w2) buf noff nsize = Inr raw"
    using raw(1) by (auto simp: bl33_of_def split: if_splits sum.splits)
  have "wp (ursus_fip_validate_current buf) (\<lambda>r _. r = Inr (length buf)) w2"
    unfolding ursus_fip_validate_current_def
    using ursus_fip_parse_bounds [OF p(1)] p raw(2) assms(3)
    by (auto simp: URSUS_FIP_TOC_MIN_def intro!: wp_mono [OF wp_fip_unpack_nt])
  then show ?thesis
    by (simp add: wp_def split_beta)
qed

theorem accepted_fip_is_current_witness:
  "fst (run_state (ursus_fip_validate_buf sample_fip True) sample_world) = Inr (replicate 32 0) \<and>
   fst (run_state (ursus_fip_validate_current sample_fip) sample_world) = Inr 1037"
  using accepted_fip_is_current [OF sample_validate_buf refl sample_malloc_ok]
  by (simp add: sample_validate_buf sample_fip_length)

lemma slice_agree:
  assumes "take n buf = take n rb" "p + k \<le> n"
  shows "slice p k buf = slice p k rb"
proof -
  have "slice p k xs = slice p k (take n xs)" for xs :: "'a list"
    using assms(2) by (simp add: slice_def drop_take min_absorb1)
  then show ?thesis
    using assms(1) by metis
qed

lemma fip_entry_agree:
  "take n buf = take n rb \<Longrightarrow> p + 40 \<le> n \<Longrightarrow> fip_entry_at rb p = fip_entry_at buf p"
  unfolding fip_entry_at_def le_get_def by (simp add: slice_agree [of n buf rb])

text \<open>A shorter buffer that starts with the same bytes, as far as both go.\<close>

definition same_start :: "bytes \<Rightarrow> bytes \<Rightarrow> bool" where
  "same_start buf rb = (take (length rb) buf = take (length buf) rb)"

lemma same_start_take: "same_start buf rb \<Longrightarrow> take (min (length buf) (length rb)) buf = take (min (length buf) (length rb)) rb"
  by (auto simp: same_start_def min_def)

lemma entry_same_start:
  "same_start buf rb \<Longrightarrow> p + 40 \<le> length buf \<Longrightarrow> p + 40 \<le> length rb \<Longrightarrow> fip_entry_at rb p = fip_entry_at buf p"
  by (rule fip_entry_agree [OF same_start_take]) simp_all

lemma scan_of_parse:
  assumes "fip_parse_entries k p buf nt = Inr (Some x, Some dend)"
    and "same_start buf rb" "p + 40 * k \<le> length rb"
  shows "fip_scan_entries k p rb (nt \<noteq> None)"
  using assms(1,3)
proof (induction k arbitrary: p nt)
  case (Suc k)
  then have e: "fip_entry_at rb p = fip_entry_at buf p"
    by (intro entry_same_start [OF assms(2)]) (auto simp: FIP_ENTRY_SIZE_def split: if_splits)
  show ?case
    using Suc.prems
      Suc.IH [of "p + 40" "if ent_uuid (fip_entry_at buf p) = ursus_nt_fw_uuid
        then Some (ent_offset_address (fip_entry_at buf p), ent_size (fip_entry_at buf p)) else nt"]
    by (auto simp: e FIP_ENTRY_SIZE_def Let_def split: if_splits)
qed simp

lemma toc_end_of_parse:
  assumes "fip_parse_entries k p buf nt = Inr (x, Some dend)"
    and "same_start buf rb" "p + 40 * k \<le> length rb" "0x10000 \<le> dend" "dend \<le> URSUS_FIP_MAX"
  shows "toc_end k p rb = Some dend"
  using assms(1,3)
proof (induction k arbitrary: p nt)
  case (Suc k)
  then have e: "fip_entry_at rb p = fip_entry_at buf p"
    by (intro entry_same_start [OF assms(2)]) (auto simp: FIP_ENTRY_SIZE_def split: if_splits)
  show ?case
    using Suc.prems Suc.IH [of "p + 40"] assms(4-)
    by (auto simp: e FIP_ENTRY_SIZE_def Let_def split: if_splits)
qed simp

lemma parse_entries_of_parse:
  "ursus_fip_parse buf = Inr (noff, nsize, dend) \<Longrightarrow>
   fip_parse_entries 32 16 buf None = Inr (Some (noff, nsize), Some dend)
   \<and> hdr_name (fip_header_at buf) = URSUS_FIP_MAGIC \<and> hdr_serial_number (fip_header_at buf) = URSUS_FIP_SERIAL"
  by (auto simp: ursus_fip_parse_def Let_def URSUS_FIP_MAX_ENTRIES_def FIP_HEADER_SIZE_def
      split: if_splits sum.splits prod.splits option.splits)

text \<open>
  C40: the two parsers agree: a FIP that the strict parser accepts passes the shorter check that
  the UBI boot path applies to the first 4 KiB read back from the volume.
\<close>

theorem strict_parse_implies_boot_check:
  assumes "ursus_fip_parse buf = Inr (noff, nsize, dend)"
    and "length readback = URSUS_FIP_TOC_READ" and "same_start buf readback"
  shows "ursus_fip_buffer_valid readback"
proof -
  note p = parse_entries_of_parse [OF assms(1)]
  have l: "length readback = 4096" "16 \<le> length buf"
    using assms(1,2)
    by (auto simp: URSUS_FIP_TOC_READ_def ursus_fip_parse_def FIP_HEADER_SIZE_def split: if_splits)
  then have h: "fip_header_at readback = fip_header_at buf"
    unfolding fip_header_at_def le_get_def
    by (simp add: slice_agree [OF same_start_take [OF assms(3)]])
  have "fip_scan_entries 32 16 readback False"
    using scan_of_parse [of 32 16 buf None _ dend readback] p l assms(3) by simp
  then show ?thesis
    using p l by (simp add: ursus_fip_buffer_valid_def h URSUS_MAX_TOC_ENTRIES_def FIP_HEADER_SIZE_def
        FIP_ENTRY_SIZE_def)
qed

theorem strict_parse_implies_boot_check_witness:
  "ursus_fip_buffer_valid (sample_fip @ replicate 3059 0xff)"
  using strict_parse_implies_boot_check [OF sample_fip_parse, of "sample_fip @ replicate 3059 0xff"]
  by (simp add: URSUS_FIP_TOC_READ_def same_start_def sample_fip_length)

text \<open>
  The length that the migration preserves of the running FIP is the end its table declares.
\<close>

theorem migration_length_is_declared_end:
  assumes "ursus_fip_parse buf = Inr (noff, nsize, dend)"
    and "0x10000 \<le> dend" and "dend \<le> URSUS_FIP_MAX"
    and "length toc = URSUS_FIP_TOC_READ" and "same_start buf toc"
  shows "toc_end URSUS_MAX_TOC_ENTRIES FIP_HEADER_SIZE toc = Some dend"
  using toc_end_of_parse [of 32 16 buf None _ dend toc] parse_entries_of_parse [OF assms(1)] assms(2-)
  by (simp add: URSUS_MAX_TOC_ENTRIES_def FIP_HEADER_SIZE_def URSUS_FIP_TOC_READ_def)

text \<open>A FIP of 64 KiB, for which the declared end is plausible.\<close>

definition long_fip :: bytes where
  "long_fip =
     [0x01, 0x00, 0x64, 0xaa, 0x78, 0x56, 0x34, 0x12, 0, 0, 0, 0, 0, 0, 0, 0,
      0xd6, 0xd0, 0xee, 0xa7, 0xfc, 0xea, 0xd5, 0x4b, 0x97, 0x82, 0x99, 0x34, 0xf2, 0x34, 0xb6, 0xe4,
      0, 4, 0, 0, 0, 0, 0, 0, 0, 1, 0, 0, 0, 0, 0, 0, 0, 0, 0, 0, 0, 0, 0, 0,
      0, 0, 0, 0, 0, 0, 0, 0, 0, 0, 0, 0, 0, 0, 0, 0, 0, 0, 1, 0, 0, 0, 0, 0, 0, 0, 0, 0, 0, 0, 0, 0,
      0, 0, 0, 0, 0, 0, 0, 0] @ replicate 65440 0"

lemma long_fip_parse: "ursus_fip_parse long_fip = Inr (0x400, 0x100, 0x10000)"
proof -
  have "length long_fip = 0x10000"
    by (simp add: long_fip_def)
  moreover have "fip_header_at long_fip = \<lparr>hdr_name = 0xaa640001, hdr_serial_number = 0x12345678, hdr_flags = 0\<rparr>"
    by (simp add: long_fip_def fip_header_at_def le_get_def slice_def)
  moreover have "fip_entry_at long_fip 16 =
      \<lparr>ent_uuid = ursus_nt_fw_uuid, ent_offset_address = 0x400, ent_size = 0x100, ent_flags = 0\<rparr>"
    by (simp add: long_fip_def fip_entry_at_def le_get_def slice_def ursus_nt_fw_uuid_def)
  moreover have "fip_entry_at long_fip 56 = \<lparr>ent_uuid = [0, 0, 0, 0, 0, 0, 0, 0, 0, 0, 0, 0, 0, 0, 0, 0],
      ent_offset_address = 0x10000, ent_size = 0, ent_flags = 0\<rparr>"
    by (simp add: long_fip_def fip_entry_at_def le_get_def slice_def)
  ultimately show ?thesis
    by (simp add: ursus_fip_parse_def URSUS_FIP_MAGIC_def URSUS_FIP_SERIAL_def URSUS_FIP_MAX_ENTRIES_def
        FIP_HEADER_SIZE_def FIP_ENTRY_SIZE_def fip_parse_entries_numeral URSUS_FIP_TOC_MIN_def
        ursus_uuid_zero_def ursus_nt_fw_uuid_def)
qed

theorem migration_length_is_declared_end_witness:
  "toc_end URSUS_MAX_TOC_ENTRIES FIP_HEADER_SIZE (take 4096 long_fip) = Some 0x10000"
  using migration_length_is_declared_end [OF long_fip_parse, of "take 4096 long_fip"]
  by (simp add: URSUS_FIP_TOC_READ_def same_start_def URSUS_FIP_MAX_def URSUS_STOCK_ENV_OFF_def
      URSUS_STOCK_FIP_OFF_def long_fip_def)

text \<open>The identity search is substring containment.\<close>

theorem mem_has_is_substring:
  "ursus_mem_has buf s \<longleftrightarrow> s \<noteq> [] \<and> (\<exists>xs ys. buf = xs @ str_bytes s @ ys)"
  by (rule ursus_mem_has_iff)

text \<open>
  A device tree header that passes the check describes blocks inside the tree: the structure
  block (from version 17 on) and the strings block end at or before the total size, without a
  32-bit overflow.
\<close>

theorem fdt_header_blocks_inside:
  assumes "fdt_check_header addr f = 0"
  shows "fdt_off_dt_strings f + fdt_size_dt_strings f \<le> fdt_totalsize f \<and>
         (17 \<le> fdt_version f \<longrightarrow> fdt_off_dt_struct f + fdt_size_dt_struct f \<le> fdt_totalsize f) \<and>
         fdt_off_mem_rsvmap f \<le> fdt_totalsize f \<and> fdt_totalsize f < 2 ^ 31"
proof -
  have no_wrap: "b + n \<le> t" if "check_block h t b n" "t \<le> 0x7fffffff" "n < 2 ^ 32" for h t b n :: nat
  proof -
    have b: "b \<le> t" "b \<le> (b + n) mod 2 ^ 32" "(b + n) mod 2 ^ 32 \<le> t"
      using that(1) by (auto simp: check_block_def check_off_def)
    have "b + n < 2 * 2 ^ 32"
      using b(1) that by simp
    then have "b + n < 2 ^ 32 \<or> (b + n) mod 2 ^ 32 = b + n - 2 ^ 32"
      by (simp add: mod_if)
    then show ?thesis
      using b that(3) by auto
  qed
  have small: "be_get 4 off f < 2 ^ 32" for off
  proof -
    have "be_get 4 off f < 256 ^ length (rev (slice off 4 f))"
      unfolding be_get_def by (rule le_nat_bound)
    also have "\<dots> \<le> 256 ^ 4"
      by (rule power_increasing) simp_all
    finally show ?thesis by simp
  qed
  have total: "fdt_totalsize f \<le> 0x7fffffff"
    and strings: "check_block (fdt_header_size f) (fdt_totalsize f) (fdt_off_dt_strings f) (fdt_size_dt_strings f)"
    and struct: "17 \<le> fdt_version f \<Longrightarrow>
      check_block (fdt_header_size f) (fdt_totalsize f) (fdt_off_dt_struct f) (fdt_size_dt_struct f)"
    and rsv: "fdt_off_mem_rsvmap f \<le> fdt_totalsize f"
    using assms
    by (auto simp: fdt_check_header_def Let_def check_off_def FDT_ERR_TRUNCATED_def FDT_ERR_BADMAGIC_def
        FDT_ERR_BADVERSION_def FDT_ERR_ALIGNMENT_def split: if_splits)
  show ?thesis
    using no_wrap [OF strings total] no_wrap [OF struct total] rsv total small
    by (auto simp: fdt_size_dt_strings_def fdt_size_dt_struct_def)
qed

text \<open>The header of a version 17 tree of 0x100 bytes.\<close>

definition sample_fdt :: bytes where
  "sample_fdt = [0xd0, 0x0d, 0xfe, 0xed, 0, 0, 1, 0, 0, 0, 0, 0x38, 0, 0, 0, 0xe0, 0, 0, 0, 0x28,
                 0, 0, 0, 17, 0, 0, 0, 16, 0, 0, 0, 0, 0, 0, 0, 0x20, 0, 0, 0, 0xa8]"

lemma sample_fdt_ok: "fdt_check_header 0x90000000 sample_fdt = 0"
  by (simp add: fdt_check_header_def sample_fdt_def Let_def fdt_magic_def fdt_totalsize_def fdt_off_dt_struct_def
      fdt_off_dt_strings_def fdt_off_mem_rsvmap_def fdt_version_def fdt_last_comp_version_def
      fdt_size_dt_strings_def fdt_size_dt_struct_def be_get_def slice_def fdt_header_size_def check_off_def
      check_block_def FDT_MAGIC_def FDT_FIRST_SUPPORTED_VERSION_def FDT_LAST_SUPPORTED_VERSION_def)

theorem fdt_header_blocks_inside_witness:
  "fdt_check_header 0x90000000 sample_fdt = 0 \<and>
   fdt_off_dt_strings sample_fdt + fdt_size_dt_strings sample_fdt \<le> fdt_totalsize sample_fdt"
  using fdt_header_blocks_inside [OF sample_fdt_ok] sample_fdt_ok by simp

end
