(* ===== verification/Ubi_Engine.thy ===== *)
theory Ubi_Engine
  imports Env_Text Fip
begin

text \<open>
  The shared half of \<open>cmd/ursusubi.c\<close>: its static state, the registration of the two raw
  partitions, the probes of the UBI layout, booting OpenWrt from UBI, the management of
  \<open>rootfs_data\<close>, and the BL2 candidate that the migration installs.
\<close>

section \<open>Constants and state\<close>

definition URSUS_UBI_BL2_SIZE :: nat where "URSUS_UBI_BL2_SIZE = 0x20000"
definition URSUS_UBI_STAGED_HEADROOM_LEBS :: nat where "URSUS_UBI_STAGED_HEADROOM_LEBS = 20"
definition URSUS_UBI_ROOTFS_FREE_RESERVE_LEBS :: nat where "URSUS_UBI_ROOTFS_FREE_RESERVE_LEBS = 16"
definition URSUS_UBI_BOOT_ADDR :: nat where "URSUS_UBI_BOOT_ADDR = 0x90000000"
definition URSUS_UBI_READBACK_ADDR :: nat where "URSUS_UBI_READBACK_ADDR = 0x94000000"
definition URSUS_BL2_PRELOADER_OFF :: nat where "URSUS_BL2_PRELOADER_OFF = 0x800"
definition URSUS_MIG_STAGE_HOLD_MS :: nat where "URSUS_MIG_STAGE_HOLD_MS = 350"
definition URSUS_UBI_PRELOADER_MAX :: nat where "URSUS_UBI_PRELOADER_MAX = 0x20000"
definition URSUS_FIT_MAX :: nat where "URSUS_FIT_MAX = 0x04000000"

definition ursus_preloader_sha256 :: bytes where
  "ursus_preloader_sha256 =
     [0x6c, 0x3b, 0x23, 0x39, 0xd0, 0x36, 0x34, 0x03, 0x96, 0x73, 0x0a, 0x13, 0xad, 0xfe, 0x35, 0xc0,
      0xd2, 0xa4, 0xdd, 0xde, 0xde, 0xff, 0xb6, 0xf9, 0x96, 0x5a, 0x24, 0xe0, 0xc7, 0x90, 0x88, 0x08]"

definition ursus_bl2_image_sha256 :: bytes where
  "ursus_bl2_image_sha256 =
     [0x6f, 0x9c, 0x92, 0x8b, 0xad, 0x50, 0x0d, 0xe0, 0x33, 0x9b, 0xbf, 0xdf, 0xa3, 0x54, 0xc1, 0x7a,
      0x7a, 0xc0, 0x44, 0xf9, 0x6c, 0x91, 0x3f, 0x3a, 0x01, 0x30, 0x19, 0x71, 0xd6, 0xcd, 0x65, 0x9d]"

datatype ursus_migration_stage =
    URSUS_MIG_IDLE | URSUS_MIG_PRECHECK | URSUS_MIG_BACKUP_BOSA | URSUS_MIG_BACKUP_RI
  | URSUS_MIG_BACKUP_FIP | URSUS_MIG_FORMAT_UBI | URSUS_MIG_ATTACH_UBI | URSUS_MIG_CREATE_VOLUMES
  | URSUS_MIG_WRITE_BOSA | URSUS_MIG_WRITE_RI | URSUS_MIG_WRITE_FIP | URSUS_MIG_WRITE_FIT
  | URSUS_MIG_VERIFY_BOSA | URSUS_MIG_VERIFY_RI | URSUS_MIG_VERIFY_FIP | URSUS_MIG_VERIFY_FIT
  | URSUS_MIG_COMMIT_BL2 | URSUS_MIG_VERIFY_BL2 | URSUS_MIG_COMPLETE | URSUS_MIG_FAILED

record ursus_migration_ctx =
  mc_stage :: ursus_migration_stage
  mc_failed_stage :: ursus_migration_stage
  mc_last_success_stage :: ursus_migration_stage
  mc_fit_addr :: nat
  mc_fit_len :: nat
  mc_preloader_addr :: nat
  mc_preloader_len :: nat
  mc_fip_len :: nat
  mc_error :: int
  mc_active :: bool
  mc_announced :: bool
  mc_commit_started :: bool
  mc_write_started :: bool
  mc_error_code :: string
  mc_announced_at :: nat

datatype ursus_update_stage =
    URSUS_UPD_IDLE | URSUS_UPD_PRECHECK | URSUS_UPD_STAGE_PREP | URSUS_UPD_STAGE_WRITE
  | URSUS_UPD_STAGE_VERIFY | URSUS_UPD_PROMOTE | URSUS_UPD_FINAL_VERIFY | URSUS_UPD_COMPLETE
  | URSUS_UPD_FAILED

record ursus_update_ctx =
  uc_stage :: ursus_update_stage
  uc_failed_stage :: ursus_update_stage
  uc_last_success_stage :: ursus_update_stage
  uc_fit_addr :: nat
  uc_fit_len :: nat
  uc_error :: int
  uc_active :: bool
  uc_announced :: bool
  uc_fit_present :: bool
  uc_fit_old_present :: bool
  uc_direct_mode :: bool
  uc_keep_settings :: bool
  uc_write_started :: bool
  uc_error_code :: string
  uc_fit_pebs :: nat
  uc_announced_at :: nat

definition zero_mig :: ursus_migration_ctx where
  "zero_mig =
     \<lparr>mc_stage = URSUS_MIG_IDLE, mc_failed_stage = URSUS_MIG_IDLE, mc_last_success_stage = URSUS_MIG_IDLE,
      mc_fit_addr = 0, mc_fit_len = 0, mc_preloader_addr = 0, mc_preloader_len = 0, mc_fip_len = 0,
      mc_error = 0, mc_active = False, mc_announced = False, mc_commit_started = False,
      mc_write_started = False, mc_error_code = [], mc_announced_at = 0\<rparr>"

definition zero_upd :: ursus_update_ctx where
  "zero_upd =
     \<lparr>uc_stage = URSUS_UPD_IDLE, uc_failed_stage = URSUS_UPD_IDLE, uc_last_success_stage = URSUS_UPD_IDLE,
      uc_fit_addr = 0, uc_fit_len = 0, uc_error = 0, uc_active = False, uc_announced = False,
      uc_fit_present = False, uc_fit_old_present = False, uc_direct_mode = False,
      uc_keep_settings = False, uc_write_started = False, uc_error_code = [], uc_fit_pebs = 0,
      uc_announced_at = 0\<rparr>"

text \<open>
  The static variables of the module.  \<open>bl2_candidate_buf\<close> is 0 for the null pointer;
  \<open>booted\<close> holds the load address once control has passed to a kernel.
\<close>

record ubi_world = world +
  ursus_mig :: ursus_migration_ctx
  ursus_upd :: ursus_update_ctx
  ursus_last_boot_reason :: string
  ursus_bl2_candidate_buf :: nat
  ursus_bl2_candidate_ok :: bool
  ursus_ubi_mtd_ready :: bool
  ursus_ubi_master :: "mtd_info option"
  ursus_ubi_bl2 :: "mtd_info option"
  ursus_ubi_full :: "mtd_info option"
  booted :: "nat option"

type_synonym ('x, 'a) engine = "('x ubi_world_scheme, 'a) state"

text \<open>\<open>snprintf\<close> into a buffer of \<open>n\<close> bytes keeps the last one for the terminator.\<close>

definition snprintf :: "nat \<Rightarrow> string \<Rightarrow> string" where
  "snprintf n s = take (n - 1) s"

section \<open>Raw partitions\<close>

definition ursus_ubi_parts :: "mtd_partition list" where
  "ursus_ubi_parts =
     [\<lparr>part_name = ''ursus-ubi-bl2'', part_offset = 0, part_size = URSUS_UBI_BL2_SIZE\<rparr>,
      \<lparr>part_name = ''ursus-ubi-full'', part_offset = URSUS_UBI_BASE, part_size = URSUS_UBI_SIZE\<rparr>]"

definition ursus_ubi_register_mtd :: "('x, int) engine" where
  "ursus_ubi_register_mtd = do {
     ready \<leftarrow> gets ursus_ubi_mtd_ready;
     if ready then ret 0
     else do {
       m \<leftarrow> ursus_find_master_nand;
       modify (\<lambda>w. w\<lparr>ursus_ubi_master := m\<rparr>);
       case m of
         None \<Rightarrow> ret (- ENODEV)
       | Some chip \<Rightarrow>
           if mtd_size chip \<noteq> URSUS_NAND_SIZE \<or> erasesize chip \<noteq> 0x20000 \<or> writesize chip \<noteq> 0x800
           then ret (- EINVAL)
           else do {
             r \<leftarrow> add_mtd_partitions chip ursus_ubi_parts;
             if r \<noteq> 0 then ret r
             else do {
               bl2 \<leftarrow> get_mtd_device_nm ''ursus-ubi-bl2'';
               modify (\<lambda>w. w\<lparr>ursus_ubi_bl2 := bl2\<rparr>);
               if bl2 = None then ret (- ENODEV)
               else do {
                 full \<leftarrow> get_mtd_device_nm ''ursus-ubi-full'';
                 modify (\<lambda>w. w\<lparr>ursus_ubi_full := full\<rparr>);
                 if full = None then ret (- ENODEV)
                 else do {
                   modify (\<lambda>w. w\<lparr>ursus_ubi_mtd_ready := True\<rparr>);
                   ret 0
                 }
               }
             }
           }
     }
   }"

definition ursus_mem_equal :: "nat \<Rightarrow> nat \<Rightarrow> nat \<Rightarrow> ('x world_scheme, int) state" where
  "ursus_mem_equal a_addr b_addr len =
     (if map_sysmem_null a_addr \<or> map_sysmem_null b_addr then ret (- ENOMEM)
      else do {
        a \<leftarrow> ram_read a_addr len;
        b \<leftarrow> ram_read b_addr len;
        ret (if a \<noteq> b then - EBADMSG else 0)
      })"

definition ursus_ubi_validate_preloader :: "nat \<Rightarrow> nat \<Rightarrow> ('x world_scheme, int) state" where
  "ursus_ubi_validate_preloader addr len =
     (if len = 0 \<or> len > URSUS_UBI_PRELOADER_MAX then ret (- EFBIG)
      else if map_sysmem_null addr then ret (- ENOMEM)
      else do {
        buf \<leftarrow> ram_read addr len;
        digest \<leftarrow> gets (\<lambda>w. sha256 (orc w) buf);
        ret (if len < FIP_HEADER_SIZE \<or> hdr_name (fip_header_at buf) \<noteq> URSUS_FIP_MAGIC then - EINVAL
             else if digest \<noteq> ursus_preloader_sha256 then - EBADMSG
             else 0)
      })"

definition ursus_current_fip_length :: "mtd_info \<Rightarrow> ('x world_scheme, int + nat) state" where
  "ursus_current_fip_length chip = do {
     b \<leftarrow> malloc_buf URSUS_FIP_TOC_READ;
     if b = None then ret (Inl (- ENOMEM))
     else do {
       (r, toc) \<leftarrow> ursus_read_range chip URSUS_STOCK_FIP_OFF URSUS_FIP_TOC_READ;
       ret (if r \<noteq> 0 then Inl (- EINVAL)
            else if hdr_name (fip_header_at toc) \<noteq> URSUS_FIP_MAGIC
                    \<or> hdr_serial_number (fip_header_at toc) \<noteq> URSUS_FIP_SERIAL
            then Inl (- EINVAL)
            else case toc_end URSUS_MAX_TOC_ENTRIES FIP_HEADER_SIZE toc of
                   None \<Rightarrow> Inl (- EINVAL)
                 | Some n \<Rightarrow> Inr n)
     }
   }"

section \<open>Probing the UBI layout\<close>

definition ursus_ubi_volume_fip_valid :: "string \<Rightarrow> ('x world_scheme, bool) state" where
  "ursus_ubi_volume_fip_valid n = do {
     r \<leftarrow> run_ubi (Ubi_read URSUS_UBI_READBACK_ADDR n URSUS_FIP_TOC_READ);
     if r \<noteq> 0 then ret False
     else do {
       buf \<leftarrow> ram_read URSUS_UBI_READBACK_ADDR URSUS_FIP_TOC_READ;
       ret (ursus_fip_buffer_valid buf)
     }
   }"

definition ursus_ubi_volume_fit_valid :: "string \<Rightarrow> ('x world_scheme, bool) state" where
  "ursus_ubi_volume_fit_valid n = do {
     r \<leftarrow> run_ubi (Ubi_read URSUS_UBI_READBACK_ADDR n 0x40);
     if r \<noteq> 0 then ret False else ursus_fit_header_at URSUS_UBI_READBACK_ADDR
   }"

record ursus_ubi_volume_diag =
  vd_present :: bool
  vd_valid :: bool
  vd_id :: int
  vd_type :: "ubi_vol_type option"
  vd_used_bytes :: nat
  vd_reserved_pebs :: nat

definition no_volume_diag :: ursus_ubi_volume_diag where
  "no_volume_diag = \<lparr>vd_present = False, vd_valid = False, vd_id = - 1, vd_type = None,
                     vd_used_bytes = 0, vd_reserved_pebs = 0\<rparr>"

definition ursus_ubi_fill_volume_diag :: "string \<Rightarrow> bool \<Rightarrow> ('x world_scheme, ursus_ubi_volume_diag) state" where
  "ursus_ubi_fill_volume_diag n validate_fip = do {
     desc \<leftarrow> ubi_open_volume_nm n UBI_READONLY;
     case desc of
       Inl _ \<Rightarrow> ret no_volume_diag
     | Inr i \<Rightarrow> do {
         v \<leftarrow> get_vol i;
         ubi_close_volume i UBI_READONLY;
         valid \<leftarrow> (if validate_fip then ursus_ubi_volume_fip_valid n else ursus_ubi_volume_fit_valid n);
         ret \<lparr>vd_present = True, vd_valid = valid, vd_id = int (vol_id v), vd_type = Some (vol_type v),
              vd_used_bytes = used_bytes v, vd_reserved_pebs = reserved_pebs v\<rparr>
       }
   }"

record ursus_ubi_diag =
  dg_attached :: bool
  dg_peb_count :: int
  dg_good_pebs :: int
  dg_bad_pebs :: int
  dg_corrupt_pebs :: int
  dg_free_pebs :: int
  dg_leb_size :: nat
  dg_fip :: ursus_ubi_volume_diag
  dg_fit :: ursus_ubi_volume_diag
  dg_fit_old :: ursus_ubi_volume_diag

definition zero_diag :: ursus_ubi_diag where
  "zero_diag = \<lparr>dg_attached = False, dg_peb_count = 0, dg_good_pebs = 0, dg_bad_pebs = 0,
                dg_corrupt_pebs = 0, dg_free_pebs = 0, dg_leb_size = 0, dg_fip = no_volume_diag,
                dg_fit = no_volume_diag, dg_fit_old = no_volume_diag\<rparr>"

text \<open>Detach whatever is attached and attach the region of the UBI layout.\<close>

definition ursus_ubi_reattach :: "('x world_scheme, int) state" where
  "ursus_ubi_reattach = do {
     run_ubi Ubi_detach;
     run_ubi (Ubi_part ''ursus-ubi-full'')
   }"

definition ursus_ubi_probe_diag :: "('x, int \<times> ursus_ubi_diag) engine" where
  "ursus_ubi_probe_diag = do {
     r \<leftarrow> ursus_ubi_register_mtd;
     if r \<noteq> 0 then ret (r, zero_diag)
     else do {
       r \<leftarrow> ursus_ubi_reattach;
       u \<leftarrow> gets ubi;
       if r \<noteq> 0 then ret (r, zero_diag)
       else case u of
              None \<Rightarrow> ret (- ENODEV, zero_diag)
            | Some d \<Rightarrow> do {
                fip \<leftarrow> ursus_ubi_fill_volume_diag ''fip'' True;
                fit \<leftarrow> ursus_ubi_fill_volume_diag ''fit'' False;
                fit_old \<leftarrow> ursus_ubi_fill_volume_diag ''fit.old'' False;
                ret (0, \<lparr>dg_attached = True, dg_peb_count = peb_count d, dg_good_pebs = good_peb_count d,
                         dg_bad_pebs = bad_peb_count d, dg_corrupt_pebs = corr_peb_count d,
                         dg_free_pebs = avail_pebs d, dg_leb_size = leb_size d, dg_fip = fip,
                         dg_fit = fit, dg_fit_old = fit_old\<rparr>)
              }
     }
   }"

text \<open>The result code, whether the FIP and whether a FIT is usable.\<close>

definition ursus_ubi_probe :: "('x, int \<times> bool \<times> bool) engine" where
  "ursus_ubi_probe = do {
     (r, diag) \<leftarrow> ursus_ubi_probe_diag;
     ret (if r \<noteq> 0 then (r, False, False)
          else (0, vd_present (dg_fip diag) \<and> vd_valid (dg_fip diag),
                (vd_present (dg_fit diag) \<and> vd_valid (dg_fit diag))
                \<or> (vd_present (dg_fit_old diag) \<and> vd_valid (dg_fit_old diag))))
   }"

section \<open>Booting from UBI\<close>

definition ursus_set_boot_reason :: "string \<Rightarrow> ('x, unit) engine" where
  "ursus_set_boot_reason reason = modify (\<lambda>w. w\<lparr>ursus_last_boot_reason := snprintf 32 reason\<rparr>)"

text \<open>
  The \<open>bootm\<close> command is outside the model.  Either control passes to the loaded image and never
  comes back (\<open>None\<close>), or the command returns, with 0 or 1 as \<open>run_command\<close> reports.
\<close>

definition run_bootm :: "nat \<Rightarrow> ('x, int option) engine" where
  "run_bootm addr = do {
     t \<leftarrow> io_tick;
     r \<leftarrow> gets (\<lambda>w. cmd_result (orc w) t);
     if r = 0 then do { modify (\<lambda>w. w\<lparr>booted := Some addr\<rparr>); ret None }
     else ret (Some (if r < 0 then 0 else 1))
   }"

text \<open>The failing exits of \<open>ursus_ubi_boot\<close>.\<close>

definition boot_fail :: "int \<Rightarrow> string \<Rightarrow> ('x, int option) engine" where
  "boot_fail r reason = do {
     ursus_set_boot_reason reason;
     ret (Some (if r \<noteq> 0 then r else - EIO))
   }"

text \<open>The part of \<open>ursus_ubi_boot\<close> that loads and starts the image of a volume.\<close>

definition boot_volume :: "string \<Rightarrow> ('x, int option) engine" where
  "boot_volume fitvol = do {
     r \<leftarrow> run_ubi (Ubi_read URSUS_UBI_BOOT_ADDR fitvol 0);
     if r \<noteq> 0 then boot_fail r ''FIT_READ_FAILED''
     else do {
       len \<leftarrow> env_get_hex ''filesize'' 0;
       if len = 0 \<or> len > URSUS_FIT_MAX then boot_fail (- EFBIG) ''FIT_SIZE_INVALID''
       else if map_sysmem_null URSUS_UBI_BOOT_ADDR
       then do { ursus_set_boot_reason ''FIT_MAP_FAILED''; ret (Some (- ENOMEM)) }
       else do {
         h \<leftarrow> fdt_check_header_at URSUS_UBI_BOOT_ADDR;
         if h \<noteq> 0 then boot_fail h ''FIT_HEADER_INVALID''
         else do {
           b \<leftarrow> run_bootm URSUS_UBI_BOOT_ADDR;
           case b of None \<Rightarrow> ret None | Some r \<Rightarrow> boot_fail r ''BOOTM_RETURNED''
         }
       }
     }
   }"

definition ursus_ubi_boot :: "('x, int option) engine" where
  "ursus_ubi_boot = do {
     ursus_set_boot_reason ''BOOT_IN_PROGRESS'';
     r \<leftarrow> ursus_ubi_register_mtd;
     if r \<noteq> 0 then boot_fail r ''MTD_REGISTER_FAILED''
     else do {
       r \<leftarrow> ursus_ubi_reattach;
       if r \<noteq> 0 then boot_fail r ''UBI_ATTACH_FAILED''
       else do {
         c \<leftarrow> run_ubi (Ubi_check ''fip'');
         ok \<leftarrow> (if c \<noteq> 0 then ret False else ursus_ubi_volume_fip_valid ''fip'');
         if \<not> ok then boot_fail (- EBADMSG) ''FIP_INVALID''
         else do {
           c \<leftarrow> run_ubi (Ubi_check ''fit'');
           if c = 0 then boot_volume ''fit''
           else do {
             c \<leftarrow> run_ubi (Ubi_check ''fit.old'');
             if c \<noteq> 0 then boot_fail (- ENOENT) ''FIT_MISSING'' else boot_volume ''fit.old''
           }
         }
       }
     }
   }"

section \<open>The volume manifest and rootfs_data\<close>

definition core_names :: "string list" where
  "core_names = [''ubootenv'', ''ubootenv2'', ''bosa'', ''ri'', ''fip'', ''rootfs_data'']"

text \<open>Open and close every volume of a list; the first error stops.\<close>

fun volumes_present :: "string list \<Rightarrow> ('x world_scheme, int) state" where
  "volumes_present [] = ret 0"
| "volumes_present (n # ns) = do {
     desc \<leftarrow> ubi_open_volume_nm n UBI_READONLY;
     case desc of
       Inl e \<Rightarrow> ret e
     | Inr i \<Rightarrow> do { ubi_close_volume i UBI_READONLY; volumes_present ns }
   }"

definition ursus_ubi_verify_volume_manifest :: "bool \<Rightarrow> ('x world_scheme, int) state" where
  "ursus_ubi_verify_volume_manifest require_fit = do {
     u \<leftarrow> gets ubi;
     if u = None then ret (- ENODEV)
     else do {
       r \<leftarrow> volumes_present (core_names @ (if require_fit then [''fit''] else []));
       if r \<noteq> 0 then ret r
       else do {
         desc \<leftarrow> ubi_open_volume_nm ''rootfs_data'' UBI_READONLY;
         case desc of
           Inl e \<Rightarrow> ret e
         | Inr i \<Rightarrow> do {
             v \<leftarrow> get_vol i;
             ubi_close_volume i UBI_READONLY;
             ret (if vol_type v \<noteq> UBI_DYNAMIC_VOLUME \<or> reserved_pebs v = 0
                     \<or> reserved_pebs v * usable_leb_size v = 0
                  then - EINVAL else 0)
           }
       }
     }
   }"

definition ursus_ubi_store_rootfs_data_max :: "nat \<Rightarrow> ('x world_scheme, int) state" where
  "ursus_ubi_store_rootfs_data_max bytes = do {
     old \<leftarrow> env_get_ulong ''rootfs_data_max'' 10 0;
     if old = bytes then ret 0
     else do {
       e \<leftarrow> env_set_ulong ''rootfs_data_max'' bytes;
       if e \<noteq> 0 then ret (- EIO)
       else do {
         r \<leftarrow> env_save;
         ret (if r \<noteq> 0 then - EIO else 0)
       }
     }
   }"

text \<open>Bytes and eraseblocks of \<open>rootfs_data\<close>.\<close>

definition ursus_ubi_current_rootfs_data :: "('x world_scheme, int + nat \<times> nat) state" where
  "ursus_ubi_current_rootfs_data = do {
     desc \<leftarrow> ubi_open_volume_nm ''rootfs_data'' UBI_READONLY;
     case desc of
       Inl e \<Rightarrow> ret (Inl e)
     | Inr i \<Rightarrow> do {
         v \<leftarrow> get_vol i;
         ubi_close_volume i UBI_READONLY;
         ret (if reserved_pebs v * usable_leb_size v \<ge> 2 ^ 64 then Inl (- EOVERFLOW)
              else Inr (reserved_pebs v * usable_leb_size v, reserved_pebs v))
       }
   }"

text \<open>The size of the volume that was created, or the error.\<close>

definition ursus_ubi_create_clean_rootfs_data :: "bool \<Rightarrow> ('x world_scheme, int + nat) state" where
  "ursus_ubi_create_clean_rootfs_data persist_env = do {
     u \<leftarrow> gets ubi;
     case u of
       None \<Rightarrow> ret (Inl (- ENODEV))
     | Some d \<Rightarrow>
         if leb_size d = 0 then ret (Inl (- ENODEV))
         else if avail_pebs d \<le> int URSUS_UBI_ROOTFS_FREE_RESERVE_LEBS then ret (Inl (- ENOSPC))
         else
           let target_lebs = nat (avail_pebs d) - URSUS_UBI_ROOTFS_FREE_RESERVE_LEBS;
               target_bytes = target_lebs * leb_size d
           in do {
             r \<leftarrow> run_ubi (Ubi_create ''rootfs_data'' target_bytes True (Some 6));
             if r \<noteq> 0 then ret (Inl r)
             else do {
               (if persist_env then ursus_ubi_store_rootfs_data_max target_bytes else ret 0);
               ret (Inr target_bytes)
             }
           }
   }"

definition ursus_ubi_reset_settings :: "('x, int) engine" where
  "ursus_ubi_reset_settings = do {
     r \<leftarrow> ursus_ubi_register_mtd;
     if r \<noteq> 0 then ret r
     else do {
       r \<leftarrow> ursus_ubi_reattach;
       if r \<noteq> 0 then ret r
       else do {
         c \<leftarrow> run_ubi (Ubi_check ''rootfs_data'');
         r \<leftarrow> (if c = 0 then run_ubi (Ubi_remove ''rootfs_data'') else ret 0);
         if r \<noteq> 0 then ret r
         else do {
           t \<leftarrow> ursus_ubi_create_clean_rootfs_data True;
           case t of
             Inl e \<Rightarrow> ret e
           | Inr _ \<Rightarrow> run_ubi (Ubi_check ''rootfs_data'')
         }
       }
     }
   }"

section \<open>The BL2 candidate\<close>

text \<open>The layout of the candidate: erased prefix, preloader, erased rest.\<close>

definition bl2_layout :: "bytes \<Rightarrow> bytes" where
  "bl2_layout pre =
     replicate URSUS_BL2_PRELOADER_OFF 0xff @ pre
     @ replicate (URSUS_UBI_BL2_SIZE - URSUS_BL2_PRELOADER_OFF - length pre) 0xff"

definition ursus_ubi_prepare_bl2_candidate :: "nat \<Rightarrow> nat \<Rightarrow> ('x, int) engine" where
  "ursus_ubi_prepare_bl2_candidate preloader_addr preloader_len = do {
     modify (\<lambda>w. w\<lparr>ursus_bl2_candidate_ok := False\<rparr>);
     if preloader_len = 0 \<or> preloader_len > URSUS_UBI_BL2_SIZE - URSUS_BL2_PRELOADER_OFF
     then ret (- EFBIG)
     else do {
       buf \<leftarrow> gets ursus_bl2_candidate_buf;
       when_m (buf = 0) (do {
         a \<leftarrow> memalign_addr;
         modify (\<lambda>w. w\<lparr>ursus_bl2_candidate_buf := a\<rparr>)
       });
       dst \<leftarrow> gets ursus_bl2_candidate_buf;
       if dst = 0 then ret (- ENOMEM)
       else if map_sysmem_null preloader_addr then ret (- ENOMEM)
       else do {
         ram_write dst (replicate URSUS_UBI_BL2_SIZE 0xff);
         src \<leftarrow> ram_read preloader_addr preloader_len;
         ram_write (dst + URSUS_BL2_PRELOADER_OFF) src;
         image \<leftarrow> ram_read dst URSUS_UBI_BL2_SIZE;
         src \<leftarrow> ram_read preloader_addr preloader_len;
         digest \<leftarrow> gets (\<lambda>w. sha256 (orc w) image);
         if \<not> list_all (\<lambda>b. b = 0xff) (take URSUS_BL2_PRELOADER_OFF image) then ret (- EBADMSG)
         else if slice URSUS_BL2_PRELOADER_OFF preloader_len image \<noteq> src then ret (- EBADMSG)
         else if \<not> list_all (\<lambda>b. b = 0xff) (drop (URSUS_BL2_PRELOADER_OFF + preloader_len) image)
         then ret (- EBADMSG)
         else if digest \<noteq> ursus_bl2_image_sha256 then ret (- EBADMSG)
         else do {
           modify (\<lambda>w. w\<lparr>ursus_bl2_candidate_ok := True\<rparr>);
           ret 0
         }
       }
     }
   }"

definition ursus_ubi_bl2_candidate_addr :: "('x, nat) engine" where
  "ursus_ubi_bl2_candidate_addr =
     gets (\<lambda>w. if ursus_bl2_candidate_ok w then ursus_bl2_candidate_buf w else 0)"

definition ursus_verify_bl2_candidate :: "('x, int) engine" where
  "ursus_verify_bl2_candidate = do {
     ok \<leftarrow> gets ursus_bl2_candidate_ok;
     buf \<leftarrow> gets ursus_bl2_candidate_buf;
     if \<not> ok \<or> buf = 0 then ret (- EINVAL)
     else do {
       image \<leftarrow> ram_read buf URSUS_UBI_BL2_SIZE;
       digest \<leftarrow> gets (\<lambda>w. sha256 (orc w) image);
       if digest \<noteq> ursus_bl2_image_sha256
       then do { modify (\<lambda>w. w\<lparr>ursus_bl2_candidate_ok := False\<rparr>); ret (- EBADMSG) }
       else ret 0
     }
   }"

definition ursus_ubi_installed_bl2_matches_pin :: "('x world_scheme, int) state" where
  "ursus_ubi_installed_bl2_matches_pin = do {
     m \<leftarrow> ursus_find_master_nand;
     case m of
       None \<Rightarrow> ret (- ENODEV)
     | Some chip \<Rightarrow> do {
         b \<leftarrow> malloc_buf URSUS_UBI_BL2_SIZE;
         if b = None then ret (- ENOMEM)
         else do {
           (r, buf) \<leftarrow> ursus_read_exact chip 0 URSUS_UBI_BL2_SIZE;
           digest \<leftarrow> gets (\<lambda>w. sha256 (orc w) buf);
           ret (if r \<noteq> 0 then r else if digest \<noteq> ursus_bl2_image_sha256 then - EBADMSG else 0)
         }
       }
   }"

section \<open>Frames\<close>

text \<open>Views that the registration of the partitions does not change.\<close>

definition parts_free :: "('x ubi_world_scheme \<Rightarrow> 'v) \<Rightarrow> bool" where
  "parts_free f =
     (ignores_time f \<and> ignores_mtds f
      \<and> (\<forall>w m. f (w\<lparr>ursus_ubi_master := m\<rparr>) = f w) \<and> (\<forall>w m. f (w\<lparr>ursus_ubi_bl2 := m\<rparr>) = f w)
      \<and> (\<forall>w m. f (w\<lparr>ursus_ubi_full := m\<rparr>) = f w) \<and> (\<forall>w b. f (w\<lparr>ursus_ubi_mtd_ready := b\<rparr>) = f w))"

lemma parts_free_ignores: "parts_free f \<Longrightarrow> ignores_time f" "parts_free f \<Longrightarrow> ignores_mtds f"
  by (simp_all add: parts_free_def)

lemma keeps_register_mtd: "parts_free f \<Longrightarrow> keeps f ursus_ubi_register_mtd"
  unfolding ursus_ubi_register_mtd_def
  by (intro keeps_intros) (simp_all add: parts_free_def)

lemma keeps_mem_equal [keeps_intros]: "keeps f (ursus_mem_equal a b n)"
  unfolding ursus_mem_equal_def by (intro keeps_intros)

lemma keeps_validate_preloader [keeps_intros]: "keeps f (ursus_ubi_validate_preloader a n)"
  unfolding ursus_ubi_validate_preloader_def by (intro keeps_intros)

lemma keeps_current_fip_length [keeps_intros]:
  "ignores_time f \<Longrightarrow> ignores_hung f \<Longrightarrow> keeps f (ursus_current_fip_length chip)"
  unfolding ursus_current_fip_length_def by (intro keeps_intros)

lemma keeps_installed_bl2 [keeps_intros]: "ignores_time f \<Longrightarrow> keeps f ursus_ubi_installed_bl2_matches_pin"
  unfolding ursus_ubi_installed_bl2_matches_pin_def by (intro keeps_intros)

lemma keeps_volume_fip_valid: "ubi_free f \<Longrightarrow> keeps f (ursus_ubi_volume_fip_valid n)"
  unfolding ursus_ubi_volume_fip_valid_def by (intro keeps_intros keeps_run_ubi)

lemma keeps_volume_fit_valid: "ubi_free f \<Longrightarrow> keeps f (ursus_ubi_volume_fit_valid n)"
  unfolding ursus_ubi_volume_fit_valid_def by (intro keeps_intros keeps_run_ubi)

lemma keeps_reattach: "ubi_free f \<Longrightarrow> keeps f ursus_ubi_reattach"
  unfolding ursus_ubi_reattach_def by (intro keeps_intros keeps_run_ubi)

lemma keeps_volumes_present: "ubi_free f \<Longrightarrow> keeps f (volumes_present ns)"
  by (induction ns; unfold volumes_present.simps;
      intro keeps_intros keeps_open_volume_nm keeps_close_volume ubi_free_calm; assumption?)

lemma keeps_verify_manifest: "ubi_free f \<Longrightarrow> keeps f (ursus_ubi_verify_volume_manifest b)"
  unfolding ursus_ubi_verify_volume_manifest_def
  by (intro keeps_intros keeps_volumes_present keeps_open_volume_nm keeps_close_volume ubi_free_calm)

lemma keeps_store_rootfs_data_max: "ubi_free f \<Longrightarrow> keeps f (ursus_ubi_store_rootfs_data_max n)"
  unfolding ursus_ubi_store_rootfs_data_max_def by (intro keeps_intros keeps_env_save ubi_free_ignores)

lemma keeps_current_rootfs_data: "ubi_free f \<Longrightarrow> keeps f ursus_ubi_current_rootfs_data"
  unfolding ursus_ubi_current_rootfs_data_def
  by (intro keeps_intros keeps_open_volume_nm keeps_close_volume ubi_free_calm)

lemma keeps_create_clean_rootfs_data: "ubi_free f \<Longrightarrow> keeps f (ursus_ubi_create_clean_rootfs_data b)"
  unfolding ursus_ubi_create_clean_rootfs_data_def
  by (intro keeps_intros keeps_run_ubi keeps_store_rootfs_data_max)

lemma keeps_reset_settings: "ubi_free f \<Longrightarrow> parts_free f \<Longrightarrow> keeps f ursus_ubi_reset_settings"
  unfolding ursus_ubi_reset_settings_def
  by (intro keeps_intros keeps_register_mtd keeps_reattach keeps_run_ubi keeps_create_clean_rootfs_data)

lemmas engine_frames =
  keeps_register_mtd keeps_volume_fip_valid keeps_volume_fit_valid keeps_reattach keeps_verify_manifest
  keeps_store_rootfs_data_max keeps_current_rootfs_data keeps_create_clean_rootfs_data
  keeps_reset_settings keeps_run_ubi keeps_open_volume_nm keeps_close_volume ubi_free_calm

section \<open>A concrete state\<close>

definition sample_engine :: ubi_world where
  "sample_engine =
     world.extend sample_world
       (ubi_world.fields zero_mig zero_upd ''NOT_RUN'' 0 False False None None None None)"

lemma sample_engine_simps [simp]:
  "ursus_upd sample_engine = zero_upd" "ursus_mig sample_engine = zero_mig" "clock sample_engine = 0"
  "ubi sample_engine = None" "orc sample_engine = sample_platform" "ursus_bl2_candidate_ok sample_engine = False"
  "ursus_ubi_mtd_ready sample_engine = False" "mtds sample_engine = []" "tick sample_engine = 0"
  by (simp_all add: sample_engine_def sample_world_def world.extend_def ubi_world.fields_def)

end
