(* ===== verification/Staged.thy ===== *)
theory Staged
  imports Ursus_Prelude
begin

text \<open>
  The shape that the three update engines of UrsusBoot share: a machine with numbered stages that
  announces a stage, holds it for a while so that the web interface can show it, and then executes
  it, driven by the loop \<open>while (active()) { ret = step(); if (ret < 0) return ret; mdelay(10); }\<close>.
  The locale states the laws of one step; its lemmas bound the number of turns of the loop.
\<close>

text \<open>The loop; \<open>None\<close> when the fuel does not suffice.\<close>

fun step_loop ::
  "nat \<Rightarrow> ('s \<Rightarrow> bool) \<Rightarrow> ('s, int) state \<Rightarrow> ('s, unit) state \<Rightarrow> ('s, int) state \<Rightarrow> ('s, int option) state" where
  "step_loop 0 active step delay finish = ret None"
| "step_loop (Suc n) active step delay finish = do {
     a \<leftarrow> gets active;
     if \<not> a then do { r \<leftarrow> finish; ret (Some r) }
     else do {
       r \<leftarrow> step;
       if r < 0 then ret (Some r)
       else do { delay; step_loop n active step delay finish }
     }
   }"

lemma ceil_tenth_less:
  fixes r :: nat
  assumes "0 < r"
  shows "(r - 10 + 9) div 10 < (r + 9) div 10"
proof (cases "r \<le> 10")
  case True
  then show ?thesis using assms by simp
next
  case False
  then have "r + 9 = (r - 10 + 9) + 10" by simp
  then have "(r + 9) div 10 = (r - 10 + 9) div 10 + 1" by (metis div_add_self2 zero_neq_numeral)
  then show ?thesis by simp
qed

locale staged_machine =
  fixes active :: "'s \<Rightarrow> bool"
    and stage :: "'s \<Rightarrow> 'g"
    and announced :: "'s \<Rightarrow> bool"
    and announced_at :: "'s \<Rightarrow> nat"
    and clk :: "'s \<Rightarrow> nat"
    and step :: "('s, int) state"
    and delay :: "('s, unit) state"
    and hold :: nat
    and rank :: "'g \<Rightarrow> nat"
  assumes announce:
      "active s \<Longrightarrow> \<not> announced s \<Longrightarrow>
       wp step (\<lambda>r s'. r = 0 \<and> active s' \<and> announced s' \<and> announced_at s' = clk s
                       \<and> clk s' = clk s \<and> stage s' = stage s) s"
    and wait:
      "active s \<Longrightarrow> announced s \<Longrightarrow> clk s - announced_at s < hold \<Longrightarrow>
       wp step (\<lambda>r s'. r = 0 \<and> s' = s) s"
    and exec:
      "active s \<Longrightarrow> announced s \<Longrightarrow> hold \<le> clk s - announced_at s \<Longrightarrow>
       wp step (\<lambda>r s'. active s' \<longrightarrow> \<not> announced s' \<and> rank (stage s') < rank (stage s)) s"
    and delayed:
      "wp delay (\<lambda>_ s'. active s' = active s \<and> announced s' = announced s
                        \<and> announced_at s' = announced_at s \<and> stage s' = stage s
                        \<and> clk s' = clk s + 10) s"
begin

text \<open>The turns that a stage takes at most, and the turns that a state needs at most.\<close>

definition turns :: nat where
  "turns = (hold + 9) div 10 + 2"

definition turns_left :: "'s \<Rightarrow> nat" where
  "turns_left s =
     (if \<not> active s then 0
      else rank (stage s) * turns
           + (if announced s then (hold - (clk s - announced_at s) + 9) div 10 + 1 else turns))"

lemma turns_left_le: "turns_left s \<le> Suc (rank (stage s)) * turns"
  by (auto simp: turns_left_def turns_def intro!: div_le_mono)

lemma after_exec:
  assumes "active s' \<longrightarrow> \<not> announced s' \<and> rank (stage s') < rank (stage s)" "active s" "announced s"
  shows "turns_left s' < turns_left s"
proof (cases "active s'")
  case True
  then have "Suc (rank (stage s')) * turns \<le> rank (stage s) * turns"
    using assms(1) by (intro mult_le_mono1) auto
  then show ?thesis
    using assms True by (simp add: turns_left_def)
qed (use assms in \<open>simp add: turns_left_def\<close>)

lemma after_announce:
  assumes "active s" "\<not> announced s" "active t" "announced t" "announced_at t = clk s"
    "clk t = clk s + 10" "stage t = stage s"
  shows "turns_left t < turns_left s"
proof -
  have "(hold - 10 + 9) div 10 \<le> (hold + 9) div 10"
    by (intro div_le_mono) simp
  then show ?thesis
    using assms by (simp add: turns_left_def turns_def)
qed

lemma after_wait:
  assumes "active s" "announced s" "clk s - announced_at s < hold" "active t" "announced t"
    "announced_at t = announced_at s" "clk t = clk s + 10" "stage t = stage s"
    and "announced_at s \<le> clk s"
  shows "turns_left t < turns_left s"
proof -
  let ?r = "hold - (clk s - announced_at s)"
  have "hold - (clk t - announced_at t) = ?r - 10"
    using assms by simp
  moreover have "(?r - 10 + 9) div 10 < (?r + 9) div 10"
    using assms(3) by (intro ceil_tenth_less) simp
  ultimately show ?thesis
    using assms by (simp add: turns_left_def)
qed

definition timely :: "'s \<Rightarrow> bool" where
  "timely s = (active s \<longrightarrow> announced s \<longrightarrow> announced_at s \<le> clk s)"

text \<open>One turn of the loop: the step and the delay.\<close>

lemma turn:
  assumes "active s" "timely s"
  shows "wp step (\<lambda>r s'. wp delay (\<lambda>_ t. timely t \<and> turns_left t < turns_left s) s') s"
proof -
  consider "\<not> announced s" | "announced s" "clk s - announced_at s < hold"
    | "announced s" "hold \<le> clk s - announced_at s"
    by linarith
  then show ?thesis
  proof cases
    case 1
    show ?thesis
    proof (rule wp_mono [OF announce [OF assms(1) 1]], rule wp_mono [OF delayed], goal_cases)
      case (1 r s' _ t)
      moreover have "turns_left t < turns_left s"
        using 1 assms(1) \<open>\<not> announced s\<close> by (intro after_announce) auto
      ultimately show ?case by (simp add: timely_def)
    qed
  next
    case 2
    show ?thesis
    proof (rule wp_mono [OF wait [OF assms(1) 2]], rule wp_mono [OF delayed], goal_cases)
      case (1 r s' _ t)
      moreover have "turns_left t < turns_left s"
        using 1 2 assms by (intro after_wait) (auto simp: timely_def)
      ultimately show ?case using assms 2 by (simp add: timely_def)
    qed
  next
    case 3
    show ?thesis
    proof (rule wp_mono [OF exec [OF assms(1) 3]], rule wp_mono [OF delayed], goal_cases)
      case (1 r s' _ t)
      moreover have "turns_left t < turns_left s"
        using 1 3 assms by (intro after_exec) auto
      ultimately show ?case by (auto simp: timely_def)
    qed
  qed
qed

lemma step_loop_ends:
  "timely s \<Longrightarrow> turns_left s < n \<Longrightarrow> wp (step_loop n active step delay finish) (\<lambda>r _. r \<noteq> None) s"
proof (induction n arbitrary: s)
  case (Suc n)
  show ?case
  proof (cases "active s")
    case True
    have "wp step (\<lambda>r s'. wp (if r < 0 then ret (Some r)
              else do { delay; step_loop n active step delay finish }) (\<lambda>r _. r \<noteq> None) s') s"
    proof (rule wp_mono [OF turn [OF True Suc.prems(1)]], goal_cases)
      case (1 r s')
      have "wp delay (\<lambda>_. wp (step_loop n active step delay finish) (\<lambda>r _. r \<noteq> None)) s'"
        by (rule wp_mono [OF 1], rule Suc.IH) (use Suc.prems in auto)
      then show ?case by simp
    qed
    then show ?thesis using True by simp
  qed simp
qed simp

end

text \<open>What holds of every turn holds when the loop ends.\<close>

lemma step_loop_invariant:
  assumes step: "\<And>s. I s \<Longrightarrow> active s \<Longrightarrow> wp step (\<lambda>_. I) s"
    and delay: "\<And>s. I s \<Longrightarrow> wp delay (\<lambda>_. I) s"
  shows "I s \<Longrightarrow> wp (step_loop n active step delay (gets g))
           (\<lambda>r s'. I s' \<and> (\<forall>x. r = Some x \<longrightarrow> x < 0 \<or> (\<not> active s' \<and> x = g s'))) s"
proof (induction n arbitrary: s)
  case (Suc n)
  show ?case
  proof (cases "active s")
    case True
    let ?Q = "\<lambda>r s'. I s' \<and> (\<forall>x. r = Some x \<longrightarrow> x < 0 \<or> (\<not> active s' \<and> x = g s'))"
    have "wp step (\<lambda>r. wp (if r < 0 then ret (Some r)
             else do { delay; step_loop n active step delay (gets g) }) ?Q) s"
    proof (rule wp_mono [OF step [OF Suc.prems True]], goal_cases)
      case (1 r s')
      have "wp delay (\<lambda>_. wp (step_loop n active step delay (gets g)) ?Q) s'"
        by (rule wp_mono [OF delay [OF 1]]) (rule Suc.IH)
      then show ?case
        using 1 by simp
    qed
    then show ?thesis using True by simp
  qed (simp add: Suc.prems)
qed simp

end
