(* ===== verification/Fip_Update.thy ===== *)
theory Fip_Update
  imports Ubi_Engine Staged
begin

text \<open>
  Replacing the boot loader itself, \<open>cmd/ursusupdate.c\<close>: in the stock layout the first 512 KiB of
  the chip are rewritten around the preserved prefix and environment; in the UBI layout the new FIP
  is written to \<open>fip.new\<close>, read back and switched with \<open>fip\<close> by one atomic change of the volume
  table, with a rollback when the final check fails.
\<close>

section \<open>State\<close>

definition URSUS_STOCK_BOOT_SIZE :: nat where "URSUS_STOCK_BOOT_SIZE = 0x80000"
definition URSUS_UPDATE_STAGE_HOLD_MS :: nat where "URSUS_UPDATE_STAGE_HOLD_MS = 250"
definition URSUS_VANILLA_ENV_RESET_LEN :: nat where "URSUS_VANILLA_ENV_RESET_LEN = 0x800"

datatype ursus_up_stage =
    URSUS_UP_IDLE | URSUS_UP_PRECHECK | URSUS_UP_STOCK_BACKUP | URSUS_UP_STOCK_ERASE
  | URSUS_UP_STOCK_WRITE | URSUS_UP_STOCK_VERIFY | URSUS_UP_UBI_ATTACH | URSUS_UP_UBI_STAGE_PREP
  | URSUS_UP_UBI_STAGE_WRITE | URSUS_UP_UBI_STAGE_VERIFY | URSUS_UP_UBI_PROMOTE
  | URSUS_UP_UBI_VERIFY | URSUS_UP_UBI_ROLLBACK | URSUS_UP_COMPLETE | URSUS_UP_FAILED

datatype ursus_ubi_fip_mode =
    URSUS_UBI_FIP_NORMAL | URSUS_UBI_FIP_REPAIR_MISSING | URSUS_UBI_FIP_REPAIR_INVALID

record ursus_up_ctx =
  fc_kind :: ursus_fip_kind
  fc_stage :: ursus_up_stage
  fc_failed_stage :: ursus_up_stage
  fc_last_success_stage :: ursus_up_stage
  fc_addr :: nat
  fc_len :: nat
  fc_error :: int
  fc_active :: bool
  fc_announced :: bool
  fc_announced_at :: nat
  fc_ubi_layout :: bool
  fc_mode :: ursus_ubi_fip_mode
  fc_invalid_ret :: int
  fc_commit_started :: bool
  fc_write_started :: bool
  fc_error_code :: string
  fc_digest :: bytes
  fc_stock_candidate :: "bytes option"
  fc_stock_readback :: "bytes option"

definition zero_up :: ursus_up_ctx where
  "zero_up =
     \<lparr>fc_kind = URSUS_FIP_KIND_URSUS, fc_stage = URSUS_UP_IDLE, fc_failed_stage = URSUS_UP_IDLE,
      fc_last_success_stage = URSUS_UP_IDLE, fc_addr = 0, fc_len = 0, fc_error = 0, fc_active = False,
      fc_announced = False, fc_announced_at = 0, fc_ubi_layout = False, fc_mode = URSUS_UBI_FIP_NORMAL,
      fc_invalid_ret = 0, fc_commit_started = False, fc_write_started = False, fc_error_code = [],
      fc_digest = replicate 32 0, fc_stock_candidate = None, fc_stock_readback = None\<rparr>"

record fip_world = ubi_world +
  ursus_up :: ursus_up_ctx
  ursus_update_nand :: "mtd_info option"
  ursus_update_ubi_part :: "mtd_info option"
  ursus_update_ubi_part_name :: string
  ursus_update_parts_ready :: bool

type_synonym ('x, 'a) updater = "('x fip_world_scheme, 'a) state"

definition set_up :: "(ursus_up_ctx \<Rightarrow> ursus_up_ctx) \<Rightarrow> ('x, unit) updater" where
  "set_up f = modify (\<lambda>w. w\<lparr>ursus_up := f (ursus_up w)\<rparr>)"

section \<open>Partitions and attachment\<close>

definition ursus_update_parts :: "mtd_partition list" where
  "ursus_update_parts =
     [\<lparr>part_name = ''ursus-update-ubi'', part_offset = URSUS_UBI_BASE, part_size = URSUS_UBI_SIZE\<rparr>]"

definition good_geometry :: "mtd_info \<Rightarrow> nat \<Rightarrow> bool" where
  "good_geometry m sz = (mtd_size m = sz \<and> erasesize m = 0x20000 \<and> writesize m = 0x800)"

definition ursus_update_register_ubi_part :: "('x, int) updater" where
  "ursus_update_register_ubi_part = do {
     ready \<leftarrow> gets ursus_update_parts_ready;
     if ready then ret 0
     else do {
       m \<leftarrow> ursus_find_master_nand;
       modify (\<lambda>w. w\<lparr>ursus_update_nand := m\<rparr>);
       case m of
         None \<Rightarrow> ret (- ENODEV)
       | Some chip \<Rightarrow>
           if \<not> good_geometry chip URSUS_NAND_SIZE then ret (- EINVAL)
           else do {
             p \<leftarrow> get_mtd_device_nm ''ursus-ubi-full'';
             modify (\<lambda>w. w\<lparr>ursus_update_ubi_part := p\<rparr>);
             if p \<noteq> None
             then do {
               modify (\<lambda>w. w\<lparr>ursus_update_ubi_part_name := ''ursus-ubi-full'', ursus_update_parts_ready := True\<rparr>);
               ret 0
             }
             else do {
               r \<leftarrow> add_mtd_partitions chip ursus_update_parts;
               if r \<noteq> 0 then ret r
               else do {
                 p \<leftarrow> get_mtd_device_nm ''ursus-update-ubi'';
                 modify (\<lambda>w. w\<lparr>ursus_update_ubi_part := p\<rparr>);
                 if p = None then ret (- ENODEV)
                 else do {
                   modify (\<lambda>w. w\<lparr>ursus_update_ubi_part_name := ''ursus-update-ubi'', ursus_update_parts_ready := True\<rparr>);
                   ret 0
                 }
               }
             }
           }
     }
   }"

text \<open>MTD devices are identified by their names.\<close>

definition attached_to :: "ubi_device \<Rightarrow> mtd_info option \<Rightarrow> bool" where
  "attached_to d p = (case p of None \<Rightarrow> False | Some m \<Rightarrow> dev_mtd d = mtd_name m)"

definition ursus_update_ensure_ubi_attachment :: "('x, int) updater" where
  "ursus_update_ensure_ubi_attachment = do {
     r \<leftarrow> ursus_update_register_ubi_part;
     if r \<noteq> 0 then ret r
     else do {
       u \<leftarrow> gets ubi;
       p \<leftarrow> gets ursus_update_ubi_part;
       case u of
         Some d \<Rightarrow>
           ret (if \<not> attached_to d p \<or> \<not> good_geometry (the p) URSUS_UBI_SIZE then - EXDEV else 0)
       | None \<Rightarrow> do {
           n \<leftarrow> gets ursus_update_ubi_part_name;
           r \<leftarrow> run_ubi (Ubi_part n);
           u \<leftarrow> gets ubi;
           if r \<noteq> 0 then ret r
           else ret (case u of None \<Rightarrow> - ENODEV | Some d \<Rightarrow> if \<not> attached_to d p then - EXDEV else 0)
         }
     }
   }"

text \<open>Whether the flash holds the UBI layout.\<close>

definition ursus_detect_ubi_layout :: "('x, int + bool) updater" where
  "ursus_detect_ubi_layout = do {
     m \<leftarrow> ursus_find_master_nand;
     modify (\<lambda>w. w\<lparr>ursus_update_nand := m\<rparr>);
     case m of
       None \<Rightarrow> ret (Inl (- ENODEV))
     | Some chip \<Rightarrow>
         if \<not> good_geometry chip URSUS_NAND_SIZE then ret (Inl (- EINVAL))
         else do {
           (r, hdr) \<leftarrow> ursus_read_exact chip URSUS_UBI_BASE 4;
           ret (if r \<noteq> 0 then Inl r else Inr (hdr = str_bytes ''UBI#''))
         }
   }"

section \<open>Names and failures\<close>

fun ursus_update_stage_name :: "ursus_up_stage \<Rightarrow> string" where
  "ursus_update_stage_name URSUS_UP_IDLE = ''IDLE''"
| "ursus_update_stage_name URSUS_UP_PRECHECK = ''PRECHECK''"
| "ursus_update_stage_name URSUS_UP_STOCK_BACKUP = ''STOCK_BACKUP''"
| "ursus_update_stage_name URSUS_UP_STOCK_ERASE = ''STOCK_ERASE''"
| "ursus_update_stage_name URSUS_UP_STOCK_WRITE = ''STOCK_WRITE''"
| "ursus_update_stage_name URSUS_UP_STOCK_VERIFY = ''STOCK_VERIFY''"
| "ursus_update_stage_name URSUS_UP_UBI_ATTACH = ''UBI_ATTACH''"
| "ursus_update_stage_name URSUS_UP_UBI_STAGE_PREP = ''UBI_STAGE_PREP''"
| "ursus_update_stage_name URSUS_UP_UBI_STAGE_WRITE = ''UBI_STAGE_WRITE''"
| "ursus_update_stage_name URSUS_UP_UBI_STAGE_VERIFY = ''UBI_STAGE_VERIFY''"
| "ursus_update_stage_name URSUS_UP_UBI_PROMOTE = ''UBI_PROMOTE''"
| "ursus_update_stage_name URSUS_UP_UBI_VERIFY = ''UBI_VERIFY''"
| "ursus_update_stage_name URSUS_UP_UBI_ROLLBACK = ''UBI_ROLLBACK''"
| "ursus_update_stage_name URSUS_UP_COMPLETE = ''COMPLETE''"
| "ursus_update_stage_name URSUS_UP_FAILED = ''FAILED''"

fun ursus_update_percent_value :: "ursus_up_stage \<Rightarrow> nat" where
  "ursus_update_percent_value URSUS_UP_PRECHECK = 5"
| "ursus_update_percent_value URSUS_UP_STOCK_BACKUP = 20"
| "ursus_update_percent_value URSUS_UP_STOCK_ERASE = 45"
| "ursus_update_percent_value URSUS_UP_STOCK_WRITE = 70"
| "ursus_update_percent_value URSUS_UP_STOCK_VERIFY = 92"
| "ursus_update_percent_value URSUS_UP_UBI_ATTACH = 18"
| "ursus_update_percent_value URSUS_UP_UBI_STAGE_PREP = 30"
| "ursus_update_percent_value URSUS_UP_UBI_STAGE_WRITE = 50"
| "ursus_update_percent_value URSUS_UP_UBI_STAGE_VERIFY = 70"
| "ursus_update_percent_value URSUS_UP_UBI_PROMOTE = 85"
| "ursus_update_percent_value URSUS_UP_UBI_VERIFY = 95"
| "ursus_update_percent_value URSUS_UP_UBI_ROLLBACK = 90"
| "ursus_update_percent_value URSUS_UP_COMPLETE = 100"
| "ursus_update_percent_value URSUS_UP_FAILED = 100"
| "ursus_update_percent_value URSUS_UP_IDLE = 0"

definition ursus_update_fail_reason :: "int \<Rightarrow> string \<Rightarrow> ('x, int) updater" where
  "ursus_update_fail_reason r code = do {
     set_up (\<lambda>c. c\<lparr>fc_error := (if r \<noteq> 0 then r else - EIO), fc_failed_stage := fc_stage c,
                   fc_error_code := (if fc_error_code c = [] then snprintf 48 code else fc_error_code c),
                   fc_stage := URSUS_UP_FAILED, fc_active := False\<rparr>);
     gets (\<lambda>w. fc_error (ursus_up w))
   }"

definition ursus_update_fail :: "int \<Rightarrow> ('x, int) updater" where
  "ursus_update_fail r = do {
     st \<leftarrow> gets (\<lambda>w. fc_stage (ursus_up w));
     ursus_update_fail_reason r
       (snprintf 48 (ursus_update_stage_name st @ ''_ERR_'' @ dec_int (if r \<noteq> 0 then - r else EIO)))
   }"

definition ursus_fip_update_transaction_state :: "'x fip_world_scheme \<Rightarrow> string" where
  "ursus_fip_update_transaction_state w =
     (let c = ursus_up w
      in if fc_stage c = URSUS_UP_COMPLETE then ''COMPLETION_PROVEN''
         else if fc_stage c = URSUS_UP_FAILED
         then if fc_write_started c then ''WRITE_STATE_UNKNOWN'' else ''NOT_STARTED''
         else if fc_active c \<and> fc_write_started c then ''IN_PROGRESS''
         else ''NOT_STARTED'')"

section \<open>Starting\<close>

text \<open>The checks of \<open>ursus_fip_update_start_kind\<close> once the layout is known.\<close>

definition up_arm :: "nat \<Rightarrow> nat \<Rightarrow> ursus_fip_kind \<Rightarrow> bool \<Rightarrow> ('x, int) updater" where
  "up_arm addr len kind is_ubi = do {
     r \<leftarrow> ursus_fip_validate_kind addr len (\<not> is_ubi) kind;
     if r \<noteq> 0 then ret r
     else do {
       r \<leftarrow> (if kind = URSUS_FIP_KIND_VANILLA then ursus_ubi_installed_bl2_matches_pin else ret 0);
       if r \<noteq> 0 then ret r
       else if map_sysmem_null addr then ret (- ENOMEM)
       else do {
         buf \<leftarrow> ram_read addr len;
         digest \<leftarrow> gets (\<lambda>w. sha256 (orc w) buf);
         set_up (\<lambda>c. c\<lparr>fc_digest := digest, fc_addr := addr, fc_len := len, fc_ubi_layout := is_ubi,
                       fc_kind := kind, fc_stage := URSUS_UP_PRECHECK, fc_active := True\<rparr>);
         ret 0
       }
     }
   }"

definition ursus_fip_update_start_kind :: "nat \<Rightarrow> nat \<Rightarrow> ursus_fip_kind \<Rightarrow> ('x, int) updater" where
  "ursus_fip_update_start_kind addr len kind = do {
     busy \<leftarrow> gets (\<lambda>w. fc_active (ursus_up w));
     if busy then ret (- EBUSY)
     else do {
       set_up (\<lambda>_. zero_up);
       l \<leftarrow> ursus_detect_ubi_layout;
       case l of
         Inl e \<Rightarrow> ret e
       | Inr is_ubi \<Rightarrow> up_arm addr len kind is_ubi
     }
   }"

definition ursus_fip_update_start :: "nat \<Rightarrow> nat \<Rightarrow> ('x, int) updater" where
  "ursus_fip_update_start addr len = ursus_fip_update_start_kind addr len URSUS_FIP_KIND_URSUS"

definition ursus_vanilla_fip_update_start :: "nat \<Rightarrow> nat \<Rightarrow> ('x, int) updater" where
  "ursus_vanilla_fip_update_start addr len = ursus_fip_update_start_kind addr len URSUS_FIP_KIND_VANILLA"

section \<open>Stages of the stock layout\<close>

definition up_advance :: "ursus_up_stage \<Rightarrow> ursus_up_stage \<Rightarrow> ('x, int) updater" where
  "up_advance here next = do {
     set_up (\<lambda>c. c\<lparr>fc_last_success_stage := here, fc_stage := next\<rparr>);
     ret 0
   }"

definition up_precheck :: "('x, int) updater" where
  "up_precheck = do {
     l \<leftarrow> ursus_detect_ubi_layout;
     case l of
       Inl e \<Rightarrow> ursus_update_fail_reason e ''PRECHECK_LAYOUT_DETECT_FAILED''
     | Inr is_ubi \<Rightarrow> do {
         set_up (\<lambda>c. c\<lparr>fc_ubi_layout := is_ubi\<rparr>);
         c \<leftarrow> gets ursus_up;
         r \<leftarrow> ursus_fip_validate_kind (fc_addr c) (fc_len c) (\<not> fc_ubi_layout c) (fc_kind c);
         if r \<noteq> 0 then ursus_update_fail_reason r ''PRECHECK_FIP_VALIDATE_FAILED''
         else do {
           r \<leftarrow> (if fc_kind c = URSUS_FIP_KIND_VANILLA then ursus_ubi_installed_bl2_matches_pin else ret 0);
           if r \<noteq> 0 then ursus_update_fail_reason r ''PRECHECK_INSTALLED_BL2_NOT_PINNED''
           else up_advance URSUS_UP_PRECHECK
                  (if fc_ubi_layout c then URSUS_UP_UBI_ATTACH else URSUS_UP_STOCK_BACKUP)
         }
       }
   }"

text \<open>Overwrite a part of a buffer.\<close>

definition patch :: "nat \<Rightarrow> 'a list \<Rightarrow> 'a list \<Rightarrow> 'a list" where
  "patch off xs buf = take off buf @ xs @ drop (off + length xs) buf"

definition stock_image :: "bytes \<Rightarrow> bytes \<Rightarrow> bytes" where
  "stock_image old fip =
     patch URSUS_STOCK_FIP_OFF fip (patch URSUS_STOCK_FIP_OFF (replicate URSUS_STOCK_FIP_MAX 0xff) old)"

text \<open>The new boot area from the old one, once the old one has been read.\<close>

definition up_stock_compose :: "bytes \<Rightarrow> ('x, int) updater" where
  "up_stock_compose old = do {
     v \<leftarrow> ursus_fip_validate_current (slice URSUS_STOCK_FIP_OFF URSUS_STOCK_FIP_MAX old);
     case v of
       Inl e \<Rightarrow> ursus_update_fail e
     | Inr old_end \<Rightarrow>
         if old_end \<ge> URSUS_STOCK_FIP_MAX then ursus_update_fail (- EINVAL)
         else do {
           c \<leftarrow> gets ursus_up;
           if map_sysmem_null (fc_addr c) then ursus_update_fail (- ENOMEM)
           else do {
             src \<leftarrow> ram_read (fc_addr c) (fc_len c);
             set_up (\<lambda>c. c\<lparr>fc_stock_candidate := Some (stock_image old src)\<rparr>);
             up_advance URSUS_UP_STOCK_BACKUP URSUS_UP_STOCK_ERASE
           }
         }
   }"

definition up_stock_backup :: "('x, int) updater" where
  "up_stock_backup = do {
     chip \<leftarrow> gets (\<lambda>w. the (ursus_update_nand w));
     r \<leftarrow> ursus_bad_in_range chip 0 URSUS_STOCK_BOOT_SIZE;
     if r \<noteq> 0 then ursus_update_fail (if r < 0 then r else - EIO)
     else do {
       cand \<leftarrow> malloc_buf URSUS_STOCK_BOOT_SIZE;
       rb \<leftarrow> malloc_buf URSUS_STOCK_BOOT_SIZE;
       set_up (\<lambda>c. c\<lparr>fc_stock_candidate := cand, fc_stock_readback := rb\<rparr>);
       if cand = None \<or> rb = None then ursus_update_fail (- ENOMEM)
       else do {
         (r, old) \<leftarrow> ursus_read_exact chip 0 URSUS_STOCK_BOOT_SIZE;
         set_up (\<lambda>c. c\<lparr>fc_stock_candidate := Some old\<rparr>);
         if r \<noteq> 0 then ursus_update_fail r else up_stock_compose old
       }
     }
   }"

definition up_stock_erase :: "('x, int) updater" where
  "up_stock_erase = do {
     chip \<leftarrow> gets (\<lambda>w. the (ursus_update_nand w));
     set_up (\<lambda>c. c\<lparr>fc_write_started := True, fc_commit_started := True\<rparr>);
     r \<leftarrow> mtd_erase chip 0 URSUS_STOCK_BOOT_SIZE;
     if r \<noteq> 0 then ursus_update_fail r
     else up_advance URSUS_UP_STOCK_ERASE URSUS_UP_STOCK_WRITE
   }"

definition up_stock_write :: "('x, int) updater" where
  "up_stock_write = do {
     chip \<leftarrow> gets (\<lambda>w. the (ursus_update_nand w));
     cand \<leftarrow> gets (\<lambda>w. the (fc_stock_candidate (ursus_up w)));
     (r, written) \<leftarrow> mtd_write chip 0 (take URSUS_STOCK_BOOT_SIZE cand);
     if r \<noteq> 0 \<or> written \<noteq> URSUS_STOCK_BOOT_SIZE then ursus_update_fail (if r \<noteq> 0 then r else - EIO)
     else up_advance URSUS_UP_STOCK_WRITE URSUS_UP_STOCK_VERIFY
   }"

definition up_stock_verify :: "('x, int) updater" where
  "up_stock_verify = do {
     chip \<leftarrow> gets (\<lambda>w. the (ursus_update_nand w));
     cand \<leftarrow> gets (\<lambda>w. the (fc_stock_candidate (ursus_up w)));
     (r, rb) \<leftarrow> ursus_read_exact chip 0 URSUS_STOCK_BOOT_SIZE;
     set_up (\<lambda>c. c\<lparr>fc_stock_readback := Some rb\<rparr>);
     if r \<noteq> 0 \<or> take URSUS_STOCK_BOOT_SIZE cand \<noteq> rb
     then ursus_update_fail (if r \<noteq> 0 then r else - EBADMSG)
     else do {
       set_up (\<lambda>c. c\<lparr>fc_last_success_stage := URSUS_UP_STOCK_VERIFY, fc_stage := URSUS_UP_COMPLETE,
                     fc_active := False, fc_stock_candidate := None, fc_stock_readback := None\<rparr>);
       ret 1
     }
   }"

section \<open>Stages of the UBI layout\<close>

definition set_mode :: "ursus_ubi_fip_mode \<Rightarrow> int \<Rightarrow> ('x, int) updater" where
  "set_mode m why = do {
     set_up (\<lambda>c. c\<lparr>fc_mode := m, fc_invalid_ret := why\<rparr>);
     ret 0
   }"

definition ursus_ubi_classify_active_fip :: "('x, int) updater" where
  "ursus_ubi_classify_active_fip = do {
     set_mode URSUS_UBI_FIP_NORMAL 0;
     k \<leftarrow> run_ubi (Ubi_check ''fip'');
     if k \<noteq> 0 then set_mode URSUS_UBI_FIP_REPAIR_MISSING 0
     else do {
       desc \<leftarrow> ubi_open_volume_nm ''fip'' UBI_READONLY;
       case desc of
         Inl e \<Rightarrow> set_mode URSUS_UBI_FIP_REPAIR_INVALID e
       | Inr i \<Rightarrow> do {
           v \<leftarrow> get_vol i;
           ubi_close_volume i UBI_READONLY;
           let used = used_bytes v;
           if used = 0 \<or> used > URSUS_UBI_FIP_VOL_SIZE then set_mode URSUS_UBI_FIP_REPAIR_INVALID (- EFBIG)
           else do {
             r \<leftarrow> run_ubi (Ubi_read URSUS_UBI_READBACK_ADDR ''fip'' used);
             if r \<noteq> 0 then set_mode URSUS_UBI_FIP_REPAIR_INVALID (- EIO)
             else do {
               buf \<leftarrow> ram_read URSUS_UBI_READBACK_ADDR used;
               c \<leftarrow> ursus_fip_validate_current buf;
               case c of
                 Inl e \<Rightarrow> set_mode URSUS_UBI_FIP_REPAIR_INVALID e
               | Inr declared_end \<Rightarrow>
                   if declared_end \<noteq> used then set_mode URSUS_UBI_FIP_REPAIR_INVALID (- EINVAL)
                   else ret 0
             }
           }
         }
     }
   }"

text \<open>Free eraseblocks, and those that a FIP volume needs.\<close>

definition ursus_ubi_fip_new_headroom :: "('x world_scheme, (nat \<times> nat) option) state" where
  "ursus_ubi_fip_new_headroom =
     gets (\<lambda>w. case ubi w of
        None \<Rightarrow> None
      | Some d \<Rightarrow> Some (nat (avail_pebs d mod 2 ^ 32),
                       (URSUS_UBI_FIP_VOL_SIZE + leb_size d - 1) div leb_size d))"

definition ursus_ubi_atomic_switch :: "string \<Rightarrow> string \<Rightarrow> string \<Rightarrow> ('x world_scheme, int) state" where
  "ursus_ubi_atomic_switch current candidate backup = do {
     u \<leftarrow> gets ubi;
     if u = None then ret (- ENODEV)
     else do {
       old_desc \<leftarrow> ubi_open_volume_nm current UBI_READWRITE;
       case old_desc of
         Inl e \<Rightarrow> ret e
       | Inr a \<Rightarrow> do {
           new_desc \<leftarrow> ubi_open_volume_nm candidate UBI_READWRITE;
           case new_desc of
             Inl e \<Rightarrow> do { ubi_close_volume a UBI_READWRITE; ret e }
           | Inr b \<Rightarrow> do {
               r \<leftarrow> ubi_rename_volumes
                      [\<lparr>re_vol = a, re_new_name = backup, re_remove = False\<rparr>,
                       \<lparr>re_vol = b, re_new_name = current, re_remove = False\<rparr>];
               ubi_close_volume b UBI_READWRITE;
               ubi_close_volume a UBI_READWRITE;
               ret r
             }
         }
     }
   }"

definition up_ubi_attach :: "('x, int) updater" where
  "up_ubi_attach = do {
     r \<leftarrow> ursus_update_ensure_ubi_attachment;
     if r \<noteq> 0
     then ursus_update_fail_reason r (if r = - EXDEV then ''UBI_ATTACHMENT_MISMATCH'' else ''UBI_ATTACH_FAILED'')
     else do {
       r \<leftarrow> ursus_ubi_classify_active_fip;
       c \<leftarrow> gets ursus_up;
       if r \<noteq> 0 then ursus_update_fail_reason r ''UBI_ACTIVE_FIP_CLASSIFY_FAILED''
       else if fc_mode c \<noteq> URSUS_UBI_FIP_NORMAL \<and> fc_kind c \<noteq> URSUS_FIP_KIND_URSUS
       then if fc_mode c = URSUS_UBI_FIP_REPAIR_MISSING
            then ursus_update_fail_reason (- ENOENT) ''UBI_ACTIVE_FIP_MISSING''
            else ursus_update_fail_reason (- EBADMSG) ''UBI_ACTIVE_FIP_INVALID''
       else up_advance URSUS_UP_UBI_ATTACH URSUS_UP_UBI_STAGE_PREP
     }
   }"

text \<open>Remove a volume if it exists; the result is not looked at.\<close>

definition remove_quietly :: "string \<Rightarrow> ('x world_scheme, unit) state" where
  "remove_quietly n = do {
     k \<leftarrow> run_ubi (Ubi_check n);
     r \<leftarrow> (if k = 0 then run_ubi (Ubi_remove n) else ret 0);
     ret ()
   }"

text \<open>The tail of the preparation, once the headroom is known.\<close>

definition up_create_new :: "nat \<times> nat \<Rightarrow> ('x, int) updater" where
  "up_create_new h =
     (if fst h < snd h then ursus_update_fail_reason (- ENOSPC) ''UBI_NO_SPACE_FOR_FIP_NEW''
      else do {
        r \<leftarrow> run_ubi (Ubi_create ''fip.new'' 0x100000 False None);
        if r \<noteq> 0 then ursus_update_fail r
        else up_advance URSUS_UP_UBI_STAGE_PREP URSUS_UP_UBI_STAGE_WRITE
      })"

text \<open>Give up an invalid FIP for its space.\<close>

definition up_drop_invalid :: "('x, int) updater" where
  "up_drop_invalid = do {
     r \<leftarrow> run_ubi (Ubi_remove ''fip'');
     if r \<noteq> 0 then ursus_update_fail_reason r ''RECOVERY_INVALID_FIP_REMOVE_FAILED''
     else do {
       set_up (\<lambda>c. c\<lparr>fc_mode := URSUS_UBI_FIP_REPAIR_MISSING\<rparr>);
       h \<leftarrow> ursus_ubi_fip_new_headroom;
       case h of
         None \<Rightarrow> ursus_update_fail_reason (- ENODEV) ''UBI_HEADROOM_UNKNOWN''
       | Some h \<Rightarrow> up_create_new h
     }
   }"

definition up_prep_space :: "ursus_up_ctx \<Rightarrow> ('x, int) updater" where
  "up_prep_space c = do {
     h \<leftarrow> ursus_ubi_fip_new_headroom;
     case h of
       None \<Rightarrow> ursus_update_fail_reason (- ENODEV) ''UBI_HEADROOM_UNKNOWN''
     | Some h \<Rightarrow>
         if fst h < snd h \<and> fc_mode c = URSUS_UBI_FIP_REPAIR_INVALID \<and> fc_invalid_ret c \<noteq> - ENODEV
         then up_drop_invalid
         else up_create_new h
   }"

definition up_stage_prep :: "('x, int) updater" where
  "up_stage_prep = do {
     set_up (\<lambda>c. c\<lparr>fc_write_started := True\<rparr>);
     c \<leftarrow> gets ursus_up;
     remove_quietly ''fip.new'';
     when_m (fc_mode c = URSUS_UBI_FIP_NORMAL) (remove_quietly ''fip.old'');
     remove_quietly ''fip.bad'';
     up_prep_space c
   }"

definition up_stage_write :: "('x, int) updater" where
  "up_stage_write = do {
     c \<leftarrow> gets ursus_up;
     r \<leftarrow> run_ubi (Ubi_write (fc_addr c) ''fip.new'' (fc_len c));
     if r \<noteq> 0 then ursus_update_fail r
     else up_advance URSUS_UP_UBI_STAGE_WRITE URSUS_UP_UBI_STAGE_VERIFY
   }"

definition up_stage_verify :: "('x, int) updater" where
  "up_stage_verify = do {
     c \<leftarrow> gets ursus_up;
     r \<leftarrow> run_ubi (Ubi_read URSUS_UBI_READBACK_ADDR ''fip.new'' (fc_len c));
     if r \<noteq> 0 then ursus_update_fail r
     else do {
       r \<leftarrow> ursus_fip_validate_kind URSUS_UBI_READBACK_ADDR (fc_len c) False (fc_kind c);
       if r \<noteq> 0 then ursus_update_fail r
       else if map_sysmem_null (fc_addr c) then ursus_update_fail (- ENOMEM)
       else do {
         src \<leftarrow> ram_read (fc_addr c) (fc_len c);
         rb \<leftarrow> ram_read URSUS_UBI_READBACK_ADDR (fc_len c);
         if src \<noteq> rb then ursus_update_fail (- EBADMSG)
         else up_advance URSUS_UP_UBI_STAGE_VERIFY URSUS_UP_UBI_PROMOTE
       }
     }
   }"

definition up_promote :: "('x, int) updater" where
  "up_promote = do {
     set_up (\<lambda>c. c\<lparr>fc_commit_started := True\<rparr>);
     c \<leftarrow> gets ursus_up;
     case fc_mode c of
       URSUS_UBI_FIP_REPAIR_MISSING \<Rightarrow> do {
         r \<leftarrow> run_ubi (Ubi_rename ''fip.new'' ''fip'');
         if r \<noteq> 0 then ursus_update_fail_reason r ''RECOVERY_FIP_RENAME_FAILED''
         else up_advance URSUS_UP_UBI_PROMOTE URSUS_UP_UBI_VERIFY
       }
     | URSUS_UBI_FIP_REPAIR_INVALID \<Rightarrow> do {
         r \<leftarrow> ursus_ubi_atomic_switch ''fip'' ''fip.new'' ''fip.bad'';
         if r \<noteq> 0 then ursus_update_fail_reason r ''RECOVERY_INVALID_FIP_PROMOTE_FAILED''
         else up_advance URSUS_UP_UBI_PROMOTE URSUS_UP_UBI_VERIFY
       }
     | URSUS_UBI_FIP_NORMAL \<Rightarrow> do {
         r \<leftarrow> ursus_ubi_atomic_switch ''fip'' ''fip.new'' ''fip.old'';
         if r \<noteq> 0 then ursus_update_fail r
         else up_advance URSUS_UP_UBI_PROMOTE URSUS_UP_UBI_VERIFY
       }
   }"

text \<open>Invalidate one copy of the environment.\<close>

definition vanilla_reset_one :: "string \<Rightarrow> ('x world_scheme, int) state" where
  "vanilla_reset_one n = do {
     k \<leftarrow> run_ubi (Ubi_check n);
     if k \<noteq> 0 then ret (- ENOENT)
     else do {
       ram_write URSUS_UBI_READBACK_ADDR (replicate URSUS_VANILLA_ENV_RESET_LEN 0);
       r \<leftarrow> run_ubi (Ubi_write URSUS_UBI_READBACK_ADDR n URSUS_VANILLA_ENV_RESET_LEN);
       if r \<noteq> 0 then ret (- EIO)
       else do {
         ram_write URSUS_UBI_READBACK_ADDR (replicate URSUS_VANILLA_ENV_RESET_LEN 0xa5);
         r \<leftarrow> run_ubi (Ubi_read URSUS_UBI_READBACK_ADDR n URSUS_VANILLA_ENV_RESET_LEN);
         buf \<leftarrow> ram_read URSUS_UBI_READBACK_ADDR URSUS_VANILLA_ENV_RESET_LEN;
         ret (if r \<noteq> 0 \<or> list_ex (\<lambda>b. b \<noteq> 0) buf then - EIO else 0)
       }
     }
   }"

definition ursus_vanilla_reset_env :: "('x world_scheme, int) state" where
  "ursus_vanilla_reset_env = do {
     r \<leftarrow> vanilla_reset_one ''ubootenv'';
     if r \<noteq> 0 then ret r else vanilla_reset_one ''ubootenv2''
   }"

definition up_ubi_verify :: "('x, int) updater" where
  "up_ubi_verify = do {
     c \<leftarrow> gets ursus_up;
     r \<leftarrow> run_ubi (Ubi_read URSUS_UBI_READBACK_ADDR ''fip'' (fc_len c));
     r \<leftarrow> (if r \<noteq> 0 then ret r
          else ursus_fip_validate_kind URSUS_UBI_READBACK_ADDR (fc_len c) False (fc_kind c));
     if r \<noteq> 0
     then if fc_mode c = URSUS_UBI_FIP_REPAIR_MISSING
          then do {
            remove_quietly ''fip.bad'';
            run_ubi (Ubi_rename ''fip'' ''fip.bad'');
            ursus_update_fail_reason r ''RECOVERY_FIP_POSTCOMMIT_VERIFY_FAILED''
          }
          else up_advance URSUS_UP_UBI_VERIFY URSUS_UP_UBI_ROLLBACK
     else do {
       e \<leftarrow> (if fc_kind c = URSUS_FIP_KIND_VANILLA then ursus_vanilla_reset_env else ret 0);
       if e \<noteq> 0 then up_advance URSUS_UP_UBI_VERIFY URSUS_UP_UBI_ROLLBACK
       else do {
         set_up (\<lambda>c. c\<lparr>fc_stage := URSUS_UP_COMPLETE, fc_active := False\<rparr>);
         ret 1
       }
     }
   }"

definition up_rollback :: "('x, int) updater" where
  "up_rollback = do {
     c \<leftarrow> gets ursus_up;
     case fc_mode c of
       URSUS_UBI_FIP_REPAIR_INVALID \<Rightarrow> do {
         r \<leftarrow> ursus_ubi_atomic_switch ''fip'' ''fip.bad'' ''fip.new'';
         if r \<noteq> 0 then ursus_update_fail_reason r ''RECOVERY_INVALID_FIP_ROLLBACK_FAILED''
         else ursus_update_fail (- EBADMSG)
       }
     | URSUS_UBI_FIP_REPAIR_MISSING \<Rightarrow>
         ursus_update_fail_reason (- EINVAL) ''RECOVERY_MISSING_FIP_ROLLBACK_UNREACHABLE''
     | URSUS_UBI_FIP_NORMAL \<Rightarrow> do {
         remove_quietly ''fip.bad'';
         r \<leftarrow> ursus_ubi_atomic_switch ''fip'' ''fip.old'' ''fip.bad'';
         if r \<noteq> 0 then ursus_update_fail r else ursus_update_fail (- EBADMSG)
       }
   }"

definition up_execute :: "ursus_up_stage \<Rightarrow> ('x, int) updater" where
  "up_execute st =
     (case st of
        URSUS_UP_PRECHECK \<Rightarrow> up_precheck
      | URSUS_UP_STOCK_BACKUP \<Rightarrow> up_stock_backup
      | URSUS_UP_STOCK_ERASE \<Rightarrow> up_stock_erase
      | URSUS_UP_STOCK_WRITE \<Rightarrow> up_stock_write
      | URSUS_UP_STOCK_VERIFY \<Rightarrow> up_stock_verify
      | URSUS_UP_UBI_ATTACH \<Rightarrow> up_ubi_attach
      | URSUS_UP_UBI_STAGE_PREP \<Rightarrow> up_stage_prep
      | URSUS_UP_UBI_STAGE_WRITE \<Rightarrow> up_stage_write
      | URSUS_UP_UBI_STAGE_VERIFY \<Rightarrow> up_stage_verify
      | URSUS_UP_UBI_PROMOTE \<Rightarrow> up_promote
      | URSUS_UP_UBI_VERIFY \<Rightarrow> up_ubi_verify
      | URSUS_UP_UBI_ROLLBACK \<Rightarrow> up_rollback
      | _ \<Rightarrow> ursus_update_fail (- EINVAL))"

definition ursus_fip_update_step :: "('x, int) updater" where
  "ursus_fip_update_step = do {
     c \<leftarrow> gets ursus_up;
     if \<not> fc_active c
     then ret (if fc_stage c = URSUS_UP_COMPLETE then 1
               else if fc_stage c = URSUS_UP_FAILED then fc_error c else 0)
     else if \<not> fc_announced c
     then do {
       t \<leftarrow> get_timer 0;
       set_up (\<lambda>c. c\<lparr>fc_announced := True, fc_announced_at := t\<rparr>);
       ret 0
     }
     else do {
       dt \<leftarrow> get_timer (fc_announced_at c);
       if dt < URSUS_UPDATE_STAGE_HOLD_MS then ret 0
       else do {
         set_up (\<lambda>c. c\<lparr>fc_announced := False\<rparr>);
         up_execute (fc_stage c)
       }
     }
   }"

definition ursus_update_run :: "nat \<Rightarrow> nat \<Rightarrow> nat \<Rightarrow> ursus_fip_kind \<Rightarrow> ('x, int option) updater" where
  "ursus_update_run fuel addr len kind = do {
     r \<leftarrow> ursus_fip_update_start_kind addr len kind;
     if r \<noteq> 0 then ret (Some r)
     else step_loop fuel (\<lambda>w. fc_active (ursus_up w)) ursus_fip_update_step (mdelay 10)
            (gets (\<lambda>w. if fc_stage (ursus_up w) = URSUS_UP_COMPLETE then 0 else fc_error (ursus_up w)))
   }"

section \<open>The ursusupdate command\<close>

datatype ursusupdate_command =
    Update_check nat nat
  | Update_write nat nat
  | Update_vanilla_check nat nat
  | Update_vanilla_write nat nat string

text \<open>0 for success, 1 for failure and -1 for a usage error; \<open>None\<close> when the fuel does not suffice.\<close>

definition do_ursusupdate :: "nat \<Rightarrow> ursusupdate_command \<Rightarrow> ('x, int option) updater" where
  "do_ursusupdate fuel c =
     (case c of
        Update_check addr len \<Rightarrow> do {
          l \<leftarrow> ursus_detect_ubi_layout;
          case l of
            Inl _ \<Rightarrow> ret (Some 1)
          | Inr is_ubi \<Rightarrow> do {
              r \<leftarrow> ursus_fip_validate addr len (\<not> is_ubi);
              ret (Some (if r \<noteq> 0 then 1 else 0))
            }
        }
      | Update_write addr len \<Rightarrow> do {
          r \<leftarrow> ursus_update_run fuel addr len URSUS_FIP_KIND_URSUS;
          ret (map_option (\<lambda>r. if r \<noteq> 0 then 1 else 0) r)
        }
      | Update_vanilla_check addr len \<Rightarrow> do {
          l \<leftarrow> ursus_detect_ubi_layout;
          case l of
            Inl _ \<Rightarrow> ret (Some 1)
          | Inr is_ubi \<Rightarrow> do {
              r \<leftarrow> ursus_vanilla_fip_validate addr len (\<not> is_ubi);
              if r \<noteq> 0 then ret (Some 1)
              else do {
                b \<leftarrow> ursus_ubi_installed_bl2_matches_pin;
                ret (Some (if b \<noteq> 0 then 1 else 0))
              }
            }
        }
      | Update_vanilla_write addr len confirm \<Rightarrow>
          if confirm \<noteq> ''REPLACE-URSUSBOOT-WITH-VANILLA'' then ret (Some (- 1))
          else do {
            r \<leftarrow> ursus_update_run fuel addr len URSUS_FIP_KIND_VANILLA;
            ret (map_option (\<lambda>r. if r \<noteq> 0 then 1 else 0) r)
          })"

section \<open>The machine\<close>

fun up_successors :: "ursus_up_stage \<Rightarrow> ursus_up_stage list" where
  "up_successors URSUS_UP_PRECHECK = [URSUS_UP_STOCK_BACKUP, URSUS_UP_UBI_ATTACH]"
| "up_successors URSUS_UP_STOCK_BACKUP = [URSUS_UP_STOCK_ERASE]"
| "up_successors URSUS_UP_STOCK_ERASE = [URSUS_UP_STOCK_WRITE]"
| "up_successors URSUS_UP_STOCK_WRITE = [URSUS_UP_STOCK_VERIFY]"
| "up_successors URSUS_UP_UBI_ATTACH = [URSUS_UP_UBI_STAGE_PREP]"
| "up_successors URSUS_UP_UBI_STAGE_PREP = [URSUS_UP_UBI_STAGE_WRITE]"
| "up_successors URSUS_UP_UBI_STAGE_WRITE = [URSUS_UP_UBI_STAGE_VERIFY]"
| "up_successors URSUS_UP_UBI_STAGE_VERIFY = [URSUS_UP_UBI_PROMOTE]"
| "up_successors URSUS_UP_UBI_PROMOTE = [URSUS_UP_UBI_VERIFY]"
| "up_successors URSUS_UP_UBI_VERIFY = [URSUS_UP_UBI_ROLLBACK]"
| "up_successors _ = []"

fun up_rank :: "ursus_up_stage \<Rightarrow> nat" where
  "up_rank URSUS_UP_PRECHECK = 7"
| "up_rank URSUS_UP_STOCK_BACKUP = 3"
| "up_rank URSUS_UP_STOCK_ERASE = 2"
| "up_rank URSUS_UP_STOCK_WRITE = 1"
| "up_rank URSUS_UP_UBI_ATTACH = 6"
| "up_rank URSUS_UP_UBI_STAGE_PREP = 5"
| "up_rank URSUS_UP_UBI_STAGE_WRITE = 4"
| "up_rank URSUS_UP_UBI_STAGE_VERIFY = 3"
| "up_rank URSUS_UP_UBI_PROMOTE = 2"
| "up_rank URSUS_UP_UBI_VERIFY = 1"
| "up_rank _ = 0"

definition up_at :: "ursus_up_stage \<Rightarrow> ursus_up_ctx \<Rightarrow> bool" where
  "up_at st c = (fc_active c \<and> fc_stage c = st \<and> \<not> fc_announced c)"

definition up_outcome :: "ursus_up_stage \<Rightarrow> int \<Rightarrow> ursus_up_ctx \<Rightarrow> bool" where
  "up_outcome st r c =
     (if fc_active c then r = 0 \<and> \<not> fc_announced c \<and> fc_stage c \<in> set (up_successors st)
      else if st \<in> {URSUS_UP_STOCK_VERIFY, URSUS_UP_UBI_VERIFY} \<and> fc_stage c = URSUS_UP_COMPLETE then r = 1
      else fc_stage c = URSUS_UP_FAILED \<and> fc_failed_stage c = st \<and> fc_error c = r \<and> r \<noteq> 0)"

lemma wp_set_up [simp]: "wp (set_up f) Q = (\<lambda>w. Q () (w\<lparr>ursus_up := f (ursus_up w)\<rparr>))"
  by (simp add: set_up_def)

lemma ubi_free_up: "ubi_free (\<lambda>w. p (ursus_up w))"
  by (simp add: ubi_free_def view_defs)

lemma flash_free_up: "ignores_flash (\<lambda>w. p (ursus_up w))"
  by (simp add: view_defs)

lemma keeps_set_up: "(\<And>c. p (f c) = p c) \<Longrightarrow> keeps (\<lambda>w. p (ursus_up w)) (set_up f)"
  by (simp add: set_up_def keeps_modify)

text \<open>Views that finding the chip and the partition do not change.\<close>

definition update_parts_free :: "('x fip_world_scheme \<Rightarrow> 'v) \<Rightarrow> bool" where
  "update_parts_free f =
     (ignores_time f \<and> ignores_mtds f
      \<and> (\<forall>w m. f (w\<lparr>ursus_update_nand := m\<rparr>) = f w) \<and> (\<forall>w m. f (w\<lparr>ursus_update_ubi_part := m\<rparr>) = f w)
      \<and> (\<forall>w n. f (w\<lparr>ursus_update_ubi_part_name := n\<rparr>) = f w)
      \<and> (\<forall>w b. f (w\<lparr>ursus_update_parts_ready := b\<rparr>) = f w))"

lemma update_parts_free_up: "update_parts_free (\<lambda>w. p (ursus_up w))"
  by (simp add: update_parts_free_def view_defs)

lemma keeps_register_ubi_part: "update_parts_free f \<Longrightarrow> keeps f ursus_update_register_ubi_part"
  unfolding ursus_update_register_ubi_part_def
  by (intro keeps_intros) (simp_all add: update_parts_free_def)

lemma keeps_detect_ubi_layout: "update_parts_free f \<Longrightarrow> keeps f ursus_detect_ubi_layout"
  unfolding ursus_detect_ubi_layout_def
  by (intro keeps_intros) (simp_all add: update_parts_free_def)

lemma keeps_ensure_attachment:
  "update_parts_free f \<Longrightarrow> ubi_free f \<Longrightarrow> keeps f ursus_update_ensure_ubi_attachment"
  unfolding ursus_update_ensure_ubi_attachment_def
  by (intro keeps_register_ubi_part keeps_intros engine_frames)

lemma keeps_remove_quietly: "ubi_free f \<Longrightarrow> keeps f (remove_quietly n)"
  unfolding remove_quietly_def by (intro keeps_intros engine_frames)

lemma keeps_headroom [keeps_intros]: "keeps f ursus_ubi_fip_new_headroom"
  unfolding ursus_ubi_fip_new_headroom_def by (intro keeps_intros)

lemma keeps_atomic_switch: "ubi_free f \<Longrightarrow> keeps f (ursus_ubi_atomic_switch a b c)"
  unfolding ursus_ubi_atomic_switch_def by (intro keeps_intros engine_frames keeps_ubi_rename_volumes)

lemma keeps_vanilla_reset_env: "ubi_free f \<Longrightarrow> keeps f ursus_vanilla_reset_env"
  unfolding ursus_vanilla_reset_env_def vanilla_reset_one_def
  by (intro keeps_intros engine_frames ubi_free_ignores)

lemma keeps_classify:
  "ubi_free f \<Longrightarrow> (\<And>m y. keeps f (set_mode m y)) \<Longrightarrow> keeps f ursus_ubi_classify_active_fip"
  unfolding ursus_ubi_classify_active_fip_def
  by (intro keeps_intros engine_frames ubi_free_ignores)

lemma keeps_set_mode: "(\<And>c m y. p (c\<lparr>fc_mode := m, fc_invalid_ret := y\<rparr>) = p c) \<Longrightarrow> keeps (\<lambda>w. p (ursus_up w)) (set_mode m y)"
  unfolding set_mode_def by (intro keeps_intros keeps_set_up)

lemma ens_up_fail_reason:
  "ens (\<lambda>w. up_at st (ursus_up w)) (\<lambda>r w. up_outcome st r (ursus_up w)) (ursus_update_fail_reason r code)"
  by (auto simp: ens_def ursus_update_fail_reason_def up_at_def up_outcome_def)

lemma ens_up_fail:
  "ens (\<lambda>w. up_at st (ursus_up w)) (\<lambda>r w. up_outcome st r (ursus_up w)) (ursus_update_fail r)"
  unfolding ursus_update_fail_def by (intro ens_bind keeps_intros ens_up_fail_reason)

lemma ens_up_advance:
  "next \<in> set (up_successors st) \<Longrightarrow>
   ens (\<lambda>w. up_at st (ursus_up w)) (\<lambda>r w. up_outcome st r (ursus_up w)) (up_advance here next)"
  by (auto simp: ens_def up_advance_def up_at_def up_outcome_def)

lemma ens_up_complete:
  "st \<in> {URSUS_UP_STOCK_VERIFY, URSUS_UP_UBI_VERIFY} \<Longrightarrow>
   (\<And>c. fc_stage (f c) = URSUS_UP_COMPLETE \<and> \<not> fc_active (f c)) \<Longrightarrow>
   ens (\<lambda>w. up_at st (ursus_up w)) (\<lambda>r w. up_outcome st r (ursus_up w)) (do { set_up f; ret 1 })"
  by (simp add: ens_def up_outcome_def)

lemma ens_case_mode:
  "(x = URSUS_UBI_FIP_NORMAL \<Longrightarrow> ens A R a) \<Longrightarrow> (x = URSUS_UBI_FIP_REPAIR_MISSING \<Longrightarrow> ens A R b) \<Longrightarrow>
   (x = URSUS_UBI_FIP_REPAIR_INVALID \<Longrightarrow> ens A R c) \<Longrightarrow>
   ens A R (case x of URSUS_UBI_FIP_NORMAL \<Rightarrow> a | URSUS_UBI_FIP_REPAIR_MISSING \<Rightarrow> b | URSUS_UBI_FIP_REPAIR_INVALID \<Rightarrow> c)"
  by (cases x) simp_all

lemmas up_frames = ens_intros ens_case_mode ens_up_complete ens_bind ens_up_fail_reason ens_up_fail ens_up_advance
  keeps_set_up keeps_set_mode keeps_intros keeps_detect_ubi_layout keeps_ensure_attachment keeps_remove_quietly
  keeps_atomic_switch keeps_vanilla_reset_env keeps_classify keeps_mtd_erase keeps_mtd_write
  engine_frames update_parts_free_up ubi_free_up flash_free_up ubi_free_ignores [OF ubi_free_up]

lemmas up_stage_defs = up_precheck_def up_stock_backup_def up_stock_compose_def up_stock_erase_def up_stock_write_def
  up_stock_verify_def up_ubi_attach_def up_stage_prep_def up_prep_space_def up_drop_invalid_def up_create_new_def up_stage_write_def
  up_stage_verify_def up_promote_def up_ubi_verify_def up_rollback_def

lemma ens_up_execute:
  "ens (\<lambda>w. up_at st (ursus_up w)) (\<lambda>r w. up_outcome st r (ursus_up w)) (up_execute st)"
  by (cases st; unfold up_execute_def up_stage_defs; simp only: ursus_up_stage.case;
      intro up_frames; simp add: up_at_def)

lemma wp_fip_step_due:
  assumes "fc_active (ursus_up w)" "fc_announced (ursus_up w)"
    "URSUS_UPDATE_STAGE_HOLD_MS \<le> clock w - fc_announced_at (ursus_up w)"
  shows "wp ursus_fip_update_step (\<lambda>r w'. up_outcome (fc_stage (ursus_up w)) r (ursus_up w')) w"
proof -
  have "wp (up_execute (fc_stage (ursus_up w)))
          (\<lambda>r w'. up_outcome (fc_stage (ursus_up w)) r (ursus_up w'))
          (w\<lparr>ursus_up := (ursus_up w)\<lparr>fc_announced := False\<rparr>\<rparr>)"
    by (rule ensD [OF ens_up_execute]) (use assms in \<open>simp add: up_at_def\<close>)
  then show ?thesis
    using assms by (simp add: ursus_fip_update_step_def)
qed

lemma up_outcome_active:
  "up_outcome st r c \<Longrightarrow> fc_active c \<Longrightarrow> \<not> fc_announced c \<and> up_rank (fc_stage c) < up_rank st"
  by (cases st) (auto simp: up_outcome_def)

interpretation upd: staged_machine
  "\<lambda>w. fc_active (ursus_up w)" "\<lambda>w. fc_stage (ursus_up w)" "\<lambda>w. fc_announced (ursus_up w)"
  "\<lambda>w. fc_announced_at (ursus_up w)" "clock :: 'x fip_world_scheme \<Rightarrow> nat" ursus_fip_update_step "mdelay 10"
  URSUS_UPDATE_STAGE_HOLD_MS up_rank
proof unfold_locales
  fix w :: "'x fip_world_scheme"
  assume "fc_active (ursus_up w)" "fc_announced (ursus_up w)"
    "URSUS_UPDATE_STAGE_HOLD_MS \<le> clock w - fc_announced_at (ursus_up w)"
  then show "wp ursus_fip_update_step (\<lambda>r w'. fc_active (ursus_up w') \<longrightarrow>
      \<not> fc_announced (ursus_up w') \<and> up_rank (fc_stage (ursus_up w')) < up_rank (fc_stage (ursus_up w))) w"
    by (rule wp_mono [OF wp_fip_step_due]) (blast dest: up_outcome_active)
qed (simp_all add: ursus_fip_update_step_def)

text \<open>The turns that the blocking form needs: at most eight stages of at most 27 turns.\<close>

definition fip_fuel :: nat where "fip_fuel = 217"

lemma upd_turns: "upd.turns = 27"
  unfolding upd.turns_def by (simp add: URSUS_UPDATE_STAGE_HOLD_MS_def)

lemma ens_up_arm:
  "ens (\<lambda>w. \<not> fc_announced (ursus_up w)) (\<lambda>r w. r = 0 \<longrightarrow> up_at URSUS_UP_PRECHECK (ursus_up w)) (up_arm a n k u)"
proof -
  let ?A = "\<lambda>w :: 'a fip_world_scheme. \<not> fc_announced (ursus_up w)"
  let ?R = "\<lambda>r (w :: 'a fip_world_scheme). r = (0::int) \<longrightarrow> up_at URSUS_UP_PRECHECK (ursus_up w)"
  have start: "ens ?A ?R (do { set_up (\<lambda>c. c\<lparr>fc_digest := d, fc_addr := a, fc_len := n, fc_ubi_layout := u,
           fc_kind := k, fc_stage := URSUS_UP_PRECHECK, fc_active := True\<rparr>); ret 0 })" for d
    by (simp add: ens_def up_at_def)
  have stop: "r \<noteq> 0 \<Longrightarrow> ens ?A ?R (ret r)" for r
    by (simp add: ens_def)
  show ?thesis
    unfolding up_arm_def
    by (intro start stop ens_intros ens_bind keeps_intros ubi_free_ignores [OF ubi_free_up]) simp_all
qed

lemma wp_detect_error: "wp ursus_detect_ubi_layout (\<lambda>l w'. \<forall>e. l = Inl e \<longrightarrow> e \<noteq> 0) w"
  by (auto simp: ursus_detect_ubi_layout_def ursus_find_master_nand_def split: option.split
      intro!: wp_mono [OF wp_read_exact])

lemma wp_fip_start:
  "wp (ursus_fip_update_start_kind a n k) (\<lambda>r w'. r = 0 \<longrightarrow> up_at URSUS_UP_PRECHECK (ursus_up w')) w"
proof (cases "fc_active (ursus_up w)")
  case False
  let ?w = "w\<lparr>ursus_up := zero_up\<rparr>"
  have "wp (do { l \<leftarrow> ursus_detect_ubi_layout; case l of Inl e \<Rightarrow> ret e | Inr u \<Rightarrow> up_arm a n k u })
          (\<lambda>r w'. r = 0 \<longrightarrow> up_at URSUS_UP_PRECHECK (ursus_up w')) ?w"
  proof (rule wp_bindI [OF wp_conj [OF wp_detect_error
           keeps_wp [OF keeps_detect_ubi_layout [OF update_parts_free_up [of "\<lambda>c. \<not> fc_announced c"]]]]], goal_cases)
    case (1 l w')
    then show ?case
      by (auto simp: zero_up_def split: sum.split intro!: ensD [OF ens_up_arm, simplified])
  qed
  then show ?thesis
    using False by (simp only: ursus_fip_update_start_kind_def wp_bind wp_gets wp_if wp_set_up if_False)
qed (simp add: ursus_fip_update_start_kind_def)

section \<open>Properties\<close>

text \<open>
  C18: the blocking boot loader update always returns: from any state and with any pattern of faults,
  the loop ends within 217 turns.
\<close>

theorem fip_update_returns:
  "\<exists>r. fst (run_state (ursus_update_run fip_fuel addr len kind) w) = Some r"
proof -
  have "wp (ursus_update_run fip_fuel addr len kind) (\<lambda>r _. r \<noteq> None) w"
    unfolding ursus_update_run_def
  proof (rule wp_bindI [OF wp_fip_start], simp only: wp_if wp_return, goal_cases)
    case (1 r w')
    have "upd.timely w' \<and> upd.turns_left w' < fip_fuel" if "r = 0"
      using 1 that upd.turns_left_le [of w']
      by (simp add: up_at_def upd.timely_def upd_turns fip_fuel_def)
    then show ?case
      using upd.step_loop_ends by auto
  qed
  then show ?thesis
    by (auto simp: wp_def split: prod.splits)
qed

end
