(* ===== verification/Ubi_Track.thy ===== *)
theory Ubi_Track
  imports Ubi_Attach
begin

text \<open>
  Following the contents of one named volume through the \<open>ubi\<close> commands: which commands only read,
  what a command does to names and data, and which RAM it writes.
\<close>

section \<open>Commands that only read\<close>

text \<open>The device up to use counters and check marks, and the medium.\<close>

definition rview :: "'x world_scheme \<Rightarrow> (ubi_volume option list \<times> nat) option \<times> ubi_media" where
  "rview w = (cvols w, media w)"

lemma rview_ignores [simp]:
  "ignores_time rview" "ignores_ram rview" "ignores_hung rview" "ignores_env rview" "ignores_raw rview"
  "ignores_mtds rview"
  by (simp_all add: view_defs rview_def cvols_def vols_def)

lemma keeps_run_check [keeps_intros]: "keeps f (run_ubi (Ubi_check n))"
  unfolding run_ubi_def do_ubi_def ubi_command.case by (intro keeps_intros)

lemma keeps_open_rview: "keeps rview (ubi_open_volume_nm n m)"
  unfolding rview_def by (intro keeps_pair keeps_open_nm_cvols keeps_open_nm_media)

lemma keeps_close_rview: "keeps rview (ubi_close_volume i m)"
  unfolding rview_def by (intro keeps_pair keeps_close_cvols keeps_close_media)

lemma keeps_run_read_rview: "keeps rview (run_ubi (Ubi_read a n sz))"
  unfolding run_ubi_def do_ubi_def ubi_command.case
  by (intro keeps_intros keeps_ubi_volume_read_dev) simp_all

section \<open>What is tracked\<close>

text \<open>
  A device whose volume names are recorded with their lengths and in which at most one volume has
  a given name.
\<close>

definition tidy :: "string \<Rightarrow> 'x world_scheme \<Rightarrow> bool" where
  "tidy n w = (\<exists>vs k. vols w = Some (vs, k) \<and> wf_vols (vs, k) \<and> uniq_name n (vnames w))"

definition stored :: "string \<Rightarrow> bytes \<Rightarrow> 'x world_scheme \<Rightarrow> bool" where
  "stored n data w = (\<exists>i. find_name (vnames w) n = Some i \<and> vol_data w i (length data) = data)"

lemma tidy_attached: "tidy n w \<Longrightarrow> attached w"
  by (auto simp: tidy_def attached_def vols_def)

lemma cvols_Some:
  "cvols w = Some (cs, k) \<longleftrightarrow> (\<exists>vs. vols w = Some (vs, k) \<and> cs = map (map_option core) vs)"
  by (auto simp: cvols_def)

lemma wf_core: "wf_vols (map (map_option core) vs, k) = wf_vols (vs, k)"
  by (auto simp: wf_vols_def)

lemma map_eq_nth: "map f ys = map f xs \<Longrightarrow> i < length xs \<Longrightarrow> f (ys ! i) = f (xs ! i)"
  by (metis length_map nth_map)

lemma vnames_core:
  assumes "vols w = Some (vs, k)" "vols w' = Some (vs', k)" "map (map_option core) vs' = map (map_option core) vs"
    "k \<le> length vs"
  shows "vnames w' = vnames w"
proof -
  have "map_option vol_name (vs' ! i) = map_option vol_name (vs ! i)" if "i < k" for i
  proof -
    have "map_option core (vs' ! i) = map_option core (vs ! i)"
      using map_eq_nth [OF assms(3)] that assms(4) by simp
    then show ?thesis
      by (cases "vs' ! i"; cases "vs ! i"; simp) (metis core_simps(1))
  qed
  then show ?thesis
    by (simp add: vnames_vols [OF assms(1)] vnames_vols [OF assms(2)])
qed

lemma core_vol:
  assumes "vols w = Some (vs, k)" "vols w' = Some (vs', k)" "map (map_option core) vs' = map (map_option core) vs"
    "i < length vs"
  shows "map_option core (vol w' i) = map_option core (vol w i)"
  using map_eq_nth [OF assms(3)] assms by (auto simp: vols_Some)

lemma same_cvols:
  assumes "cvols w' = cvols w" "tidy n w"
  obtains vs k vs' where "vols w = Some (vs, k)" "vols w' = Some (vs', k)"
    "map (map_option core) vs' = map (map_option core) vs" "wf_vols (vs, k)" "wf_vols (vs', k)"
proof -
  obtain vs k where 1: "vols w = Some (vs, k)" "wf_vols (vs, k)"
    using assms(2) by (auto simp: tidy_def)
  then obtain vs' where "vols w' = Some (vs', k)" "map (map_option core) vs' = map (map_option core) vs"
    using assms(1) by (auto simp: cvols_def)
  with 1 show ?thesis
    using that wf_core by metis
qed

lemma tidy_same: "cvols w' = cvols w \<Longrightarrow> tidy n w \<Longrightarrow> tidy n w' \<and> vnames w' = vnames w"
  by (erule (1) same_cvols) (use vnames_core in \<open>fastforce simp: tidy_def wf_vols_def\<close>)

lemma vol_data_same:
  assumes "cvols w' = cvols w" "tidy n w" "find_name (vnames w) m = Some i" "leb_map (media w') i = leb_map (media w) i"
  shows "vol_data w' i k = vol_data w i k"
proof -
  obtain vs s vs' where *: "vols w = Some (vs, s)" "vols w' = Some (vs', s)"
    "map (map_option core) vs' = map (map_option core) vs" "wf_vols (vs, s)" "wf_vols (vs', s)"
    using same_cvols [OF assms(1,2)] .
  have i: "i < s" "map_option vol_name (vs ! i) = Some m"
    using assms(3) by (auto simp: find_name_Some vnames_vols [OF *(1)])
  then have "map_option core (vol w' i) = map_option core (vol w i)"
    using *(4) by (intro core_vol [OF *(1-3)]) (simp add: wf_vols_def)
  moreover have "vol w i \<noteq> None"
    using i *(1) by (auto simp: vols_Some)
  ultimately have "usable_leb_size (the (vol w' i)) = usable_leb_size (the (vol w i))"
    by (cases "vol w' i"; cases "vol w i"; simp) (metis core_simps(4))
  then show ?thesis
    using assms(4) by (simp add: vol_data_def vol_byte_def fun_eq_iff)
qed

lemma stored_same:
  "cvols w' = cvols w \<Longrightarrow> media w' = media w \<Longrightarrow> tidy n w \<Longrightarrow> stored m x w \<Longrightarrow> stored m x w'"
  unfolding stored_def using tidy_same vol_data_same by metis

lemma rview_same:
  "rview w' = rview w \<Longrightarrow> tidy n w \<Longrightarrow> tidy n w' \<and> vnames w' = vnames w"
  "rview w' = rview w \<Longrightarrow> tidy n w \<Longrightarrow> stored m x w \<Longrightarrow> stored m x w'"
  using tidy_same stored_same by (auto simp: rview_def)

section \<open>Names\<close>

lemma nth_update: "j < length xs \<Longrightarrow> xs[i := y] ! j = (if i = j then y else xs ! j)"
  by (cases "i = j") simp_all

lemma find_name_update:
  assumes "xs ! i \<noteq> Some m" "y \<noteq> Some m"
  shows "find_name (xs[i := y]) m = find_name xs m"
proof -
  have "(xs[i := y] ! j = Some m) = (xs ! j = Some m)" if "j < length xs" for j
    using assms that by (auto simp: nth_update)
  then show ?thesis
    unfolding find_name_def length_list_update by (intro find_cong) auto
qed

lemma uniq_name_update:
  "uniq_name m xs \<Longrightarrow> y \<noteq> Some m \<Longrightarrow> uniq_name m (xs[i := y])"
  by (auto simp: uniq_name_def nth_update split: if_splits)

lemma uniq_name_new:
  "find_name xs m = None \<Longrightarrow> uniq_name m (xs[i := y])"
  by (auto simp: uniq_name_def nth_update find_name_None split: if_splits)

lemma vnames_update:
  assumes "vols w = Some (vs, k)" "vols w' = Some (vs[i := y], k)" "k \<le> length vs"
  shows "vnames w' = (vnames w)[i := map_option vol_name y]"
  by (rule nth_equalityI)
     (use assms(3) in \<open>auto simp: vnames_vols [OF assms(1)] vnames_vols [OF assms(2)] nth_update\<close>)

lemma wf_vols_update:
  assumes "wf_vols (vs, k)" "\<And>v. y = Some v \<Longrightarrow> vol_name_len v = length (vol_name v)"
  shows "wf_vols (vs[i := y], k)"
  using assms by (auto simp: wf_vols_def nth_update split: if_splits)

lemma stored_keep:
  assumes "stored m x w" "find_name (vnames w') m = find_name (vnames w) m"
    and "\<And>j. find_name (vnames w) m = Some j \<Longrightarrow> vol w' j = vol w j \<and> leb_map (media w') j = leb_map (media w) j"
  shows "stored m x w'"
proof -
  obtain i where i: "find_name (vnames w) m = Some i" "vol_data w i (length x) = x"
    using assms(1) by (auto simp: stored_def)
  have "vol_data w' i (length x) = vol_data w i (length x)"
    using assms(3) [OF i(1)] by (simp add: vol_data_def vol_byte_def fun_eq_iff)
  with i assms(2) show ?thesis
    by (simp add: stored_def)
qed

lemma find_name_ne: "find_name xs q = Some j \<Longrightarrow> find_name xs n = Some i \<Longrightarrow> q \<noteq> n \<Longrightarrow> j \<noteq> i"
  by (auto simp: find_name_Some)

lemma vol_vols: "vols w = Some (vs, k) \<Longrightarrow> vol w i = vs ! i"
  by (auto simp: vols_Some)

section \<open>Commands\<close>

lemma wp_run_ubi_attached:
  assumes "attached w"
  shows "wp (run_ubi (Ubi_remove n)) Q w = wp (ubi_remove_vol n) (\<lambda>r. Q (if r \<noteq> 0 then 1 else 0)) w"
    "wp (run_ubi (Ubi_rename a b)) Q w = wp (ubi_rename_vol a b) (\<lambda>r. Q (if r \<noteq> 0 then 1 else 0)) w"
    "wp (run_ubi (Ubi_read buf n sz)) Q w = wp (ubi_volume_read n buf sz) (\<lambda>r. Q (if r \<noteq> 0 then 1 else 0)) w"
    "wp (run_ubi (Ubi_write buf n sz)) Q w =
     wp (ubi_volume_write n (mem_read buf sz (ram w))) (\<lambda>r. Q (if r \<noteq> 0 then 1 else 0)) w"
    "sz \<noteq> 0 \<Longrightarrow> wp (run_ubi (Ubi_create n sz dyn i)) Q w =
     wp (ubi_create_vol n (int sz) dyn i False) (\<lambda>r. Q (if r \<noteq> 0 then 1 else 0)) w"
proof -
  obtain d where "ubi w = Some d"
    using assms by (auto simp: attached_def)
  then show "wp (run_ubi (Ubi_remove n)) Q w = wp (ubi_remove_vol n) (\<lambda>r. Q (if r \<noteq> 0 then 1 else 0)) w"
    "wp (run_ubi (Ubi_rename a b)) Q w = wp (ubi_rename_vol a b) (\<lambda>r. Q (if r \<noteq> 0 then 1 else 0)) w"
    "wp (run_ubi (Ubi_read buf n sz)) Q w = wp (ubi_volume_read n buf sz) (\<lambda>r. Q (if r \<noteq> 0 then 1 else 0)) w"
    "wp (run_ubi (Ubi_write buf n sz)) Q w =
     wp (ubi_volume_write n (mem_read buf sz (ram w))) (\<lambda>r. Q (if r \<noteq> 0 then 1 else 0)) w"
    "sz \<noteq> 0 \<Longrightarrow> wp (run_ubi (Ubi_create n sz dyn i)) Q w =
     wp (ubi_create_vol n (int sz) dyn i False) (\<lambda>r. Q (if r \<noteq> 0 then 1 else 0)) w"
    unfolding run_ubi_def do_ubi_def ubi_command.case by (simp_all only: wp_bind wp_gets option.case wp_return ram_read_def if_False)
qed

lemma unchanged_volumes:
  assumes "vols w' = vols w" "leb_map (media w') = leb_map (media w)" "tidy m w"
  shows "tidy m w'" "stored q x w \<Longrightarrow> stored q x w'" "vnames w' = vnames w"
proof -
  note same = vols_determine [OF assms(1)]
  show "tidy m w'" "vnames w' = vnames w"
    using assms(1,3) same(1) by (simp_all add: tidy_def)
  show "stored q x w'" if "stored q x w"
    by (rule stored_keep [OF that]) (use same assms(2) tidy_attached [OF assms(3)] in simp_all)
qed

lemma removed_volume:
  assumes "tidy m w" "find_name (vnames w) n = Some i" "vols w = Some (vs, k)"
    and "vols w' = Some (vs[i := None], k)" "lebs_but i w' = lebs_but i w"
  shows "tidy m w'" "q \<noteq> n \<Longrightarrow> stored q x w \<Longrightarrow> stored q x w'"
proof -
  have wf: "wf_vols (vs, k)" "uniq_name m (vnames w)"
    using assms(1,3) by (auto simp: tidy_def)
  have nm: "vnames w ! i = Some n"
    using assms(2) by (simp add: find_name_Some)
  have vn: "vnames w' = (vnames w)[i := None]"
    using vnames_update [OF assms(3,4)] wf(1) by (simp add: wf_vols_def)
  show "tidy m w'"
    using wf wf_vols_update [OF wf(1), of None] by (simp add: tidy_def assms(4) vn uniq_name_update)
  show "stored q x w'" if "q \<noteq> n" "stored q x w"
  proof (rule stored_keep [OF that(2)])
    show "find_name (vnames w') q = find_name (vnames w) q"
      using that(1) nm by (simp add: vn find_name_update)
    fix j assume "find_name (vnames w) q = Some j"
    then have "j \<noteq> i"
      using find_name_ne assms(2) that(1) by metis
    then show "vol w' j = vol w j \<and> leb_map (media w') j = leb_map (media w) j"
      using lebs_but_eq [OF assms(5)] by (simp add: vol_vols [OF assms(3)] vol_vols [OF assms(4)])
  qed
qed

lemma cleared_lebs:
  assumes "tidy m w" "find_name (vnames w) n = Some i" "vols w' = vols w" "lebs_but i w' = lebs_but i w"
  shows "tidy m w'" "q \<noteq> n \<Longrightarrow> stored q x w \<Longrightarrow> stored q x w'"
proof -
  note same = vols_determine [OF assms(3)]
  show "tidy m w'"
    using assms(1,3) same(1) by (simp add: tidy_def)
  show "stored q x w'" if "q \<noteq> n" "stored q x w"
    by (rule stored_keep [OF that(2)])
       (use same lebs_but_eq [OF assms(4)] tidy_attached [OF assms(1)] find_name_ne [OF _ assms(2) that(1)] in auto)
qed

lemma wp_run_remove:
  assumes "tidy m w"
  shows "wp (run_ubi (Ubi_remove n)) (\<lambda>r w'. tidy m w' \<and> (\<forall>q x. q \<noteq> n \<longrightarrow> stored q x w \<longrightarrow> stored q x w')) w"
proof -
  obtain vs k where w: "vols w = Some (vs, k)"
    using assms by (auto simp: tidy_def)
  show ?thesis
    unfolding wp_run_ubi_attached(1) [OF tidy_attached [OF assms]]
  proof (rule wp_mono [OF wp_ubi_remove_vol [OF w, of n]])
    fix e w'
    assume *: "case find_name (vnames w) n of
         None \<Rightarrow> e \<noteq> 0 \<and> vols w' = vols w \<and> media w' = media w
       | Some i \<Rightarrow> vols w' = Some (if e = 0 then vs[i := None] else vs, k) \<and> lebs_but i w' = lebs_but i w"
    show "tidy m w' \<and> (\<forall>q x. q \<noteq> n \<longrightarrow> stored q x w \<longrightarrow> stored q x w')"
    proof (cases "find_name (vnames w) n")
      case None
      with * show ?thesis
        using unchanged_volumes [where w' = w', OF _ _ assms] by simp
    next
      case (Some i)
      with * have "vols w' = (if e = 0 then Some (vs[i := None], k) else vols w)" "lebs_but i w' = lebs_but i w"
        by (simp_all add: w)
      then show ?thesis
        using removed_volume [where w' = w', OF assms Some w] cleared_lebs [where w' = w', OF assms Some] by (cases "e = 0") simp_all
    qed
  qed
qed

lemma sound_tidy: "ubi w = Some d \<Longrightarrow> sound_vols (volumes d, vtbl_slots d) \<Longrightarrow> tidy n w"
  using sound_vols_uniq [of "volumes d" "vtbl_slots d" w n] by (auto simp: tidy_def vols_def sound_vols_def)

lemma wp_run_part: "\<not> attached w \<Longrightarrow> wp (run_ubi (Ubi_part n)) (\<lambda>r w'. r = 0 \<longrightarrow> tidy m w') w"
  by (auto simp: run_ubi_def do_ubi_def attach_result_def intro: sound_tidy intro!: wp_mono [OF wp_ubi_part])

text \<open>Creating a volume leaves every stored volume as it was.\<close>

lemma created_volume:
  assumes "tidy m w" "vols w = Some (vs, k)" "created n t sz vs k vs'" "vols w' = Some (vs', k)"
    and "lebs_of vs k w' = lebs_of vs k w"
  shows "tidy m w'" "stored q x w \<Longrightarrow> stored q x w'"
    "\<exists>i. find_name (vnames w') n = Some i \<and> vview vol_type i w' = Some t \<and> vview (roomy sz) i w' = Some True"
proof -
  have wf: "wf_vols (vs, k)" "uniq_name m (vnames w)"
    using assms(1,2) by (auto simp: tidy_def)
  obtain i v where i: "i < k" "vs ! i = None" "vs' = vs[i := Some v]"
    and v: "vol_name v = n" "vol_name_len v = length n" "vol_type v = t" "roomy sz v"
    and new: "\<forall>j < k. \<forall>u. vs ! j = Some u \<longrightarrow> vol_name_len u = length n \<longrightarrow> vol_name u \<noteq> n"
    using assms(3) by (auto simp: created_def)
  have k: "k \<le> length vs" "length (vnames w) = k"
    using wf(1) by (auto simp: wf_vols_def vnames_vols [OF assms(2)])
  have vn: "vnames w' = (vnames w)[i := Some n]"
    using vnames_update [OF assms(2), of w' i "Some v"] assms(4) i(3) k(1) v(1) by simp
  have fresh: "find_name (vnames w) n = None"
    using new wf(1) by (auto simp: find_name_None vnames_vols [OF assms(2)] wf_vols_def)
  have uniq: "uniq_name q (vnames w')" if "uniq_name q (vnames w)" for q
    using that fresh by (cases "q = n") (simp_all add: vn uniq_name_new uniq_name_update)
  show "tidy m w'"
    using uniq [OF wf(2)] wf_vols_update [OF wf(1), of "Some v" i] v i(3) by (auto simp: tidy_def assms(4))
  have "vnames w' ! i = Some n" "i < length (vnames w')"
    using i(1) k by (simp_all add: vn)
  moreover have "uniq_name n (vnames w')"
    using fresh by (simp add: vn uniq_name_new)
  ultimately have "find_name (vnames w') n = Some i"
    using find_name_uniq by blast
  moreover have "vview vol_type i w' = Some t" "vview (roomy sz) i w' = Some True"
    using assms(4) i k(1) v(3,4) by (auto simp: vview_def vols_Some)
  ultimately show "\<exists>i. find_name (vnames w') n = Some i \<and> vview vol_type i w' = Some t \<and> vview (roomy sz) i w' = Some True"
    by blast
  show "stored q x w'" if "stored q x w"
  proof (rule stored_keep [OF that])
    have "vnames w ! i = None"
      using i by (simp add: vnames_vols [OF assms(2)])
    moreover have "q \<noteq> n"
      using that fresh by (auto simp: stored_def)
    ultimately show "find_name (vnames w') q = find_name (vnames w) q"
      by (simp add: vn find_name_update)
    fix j assume "find_name (vnames w) q = Some j"
    then have j: "j < k" "vs ! j \<noteq> None"
      by (auto simp: find_name_Some vnames_vols [OF assms(2)])
    then have "j \<noteq> i"
      using i(2) by auto
    with j show "vol w' j = vol w j \<and> leb_map (media w') j = leb_map (media w) j"
      using lebs_of_eq [OF assms(5)] by (simp add: vol_vols [OF assms(2)] vol_vols [OF assms(4)] i(3))
  qed
qed

lemma wp_run_create:
  fixes w :: "'x world_scheme"
  assumes "tidy m w" "sz \<noteq> 0"
  shows "wp (run_ubi (Ubi_create n sz dyn None)) (\<lambda>r w'. tidy m w' \<and> (\<forall>q x. stored q x w \<longrightarrow> stored q x w')
     \<and> (r = 0 \<longrightarrow> (\<exists>i. find_name (vnames w') n = Some i
          \<and> vview vol_type i w' = Some (if dyn then UBI_DYNAMIC_VOLUME else UBI_STATIC_VOLUME)
          \<and> vview (roomy sz) i w' = Some True))) w"
proof -
  obtain vs k where w: "vols w = Some (vs, k)"
    using assms(1) by (auto simp: tidy_def)
  let ?t = "if dyn then UBI_DYNAMIC_VOLUME else UBI_STATIC_VOLUME"
  have failed: "tidy m w' \<and> (\<forall>q x. stored q x w \<longrightarrow> stored q x w')"
    if "vols w' = vols w" "lebs_of vs k w' = lebs_of vs k w" for w' :: "'x world_scheme"
  proof -
    note same = vols_determine [OF that(1)]
    have "stored q x w'" if "stored q x w" for q x
      by (rule stored_keep [OF that])
         (use same tidy_attached [OF assms(1)] lebs_of_eq [OF \<open>lebs_of vs k w' = lebs_of vs k w\<close>] in
           \<open>auto simp: find_name_Some vnames_vols [OF w]\<close>)
    then show ?thesis
      using assms(1) that(1) same(1) by (simp add: tidy_def)
  qed
  show ?thesis
    unfolding wp_run_ubi_attached(5) [OF tidy_attached [OF assms(1)] assms(2)]
  proof (rule wp_mono [OF wp_ubi_create_vol [OF w, of n "int sz" dyn False, unfolded nat_int]])
    fix e and w' :: "'x world_scheme"
    assume *: "lebs_of vs k w' = lebs_of vs k w \<and>
      (if e = 0 then \<exists>vs'. vols w' = Some (vs', k) \<and> created n ?t sz vs k vs' else vols w' = vols w)"
    show "tidy m w' \<and> (\<forall>q x. stored q x w \<longrightarrow> stored q x w') \<and> ((if e \<noteq> 0 then 1 else (0::int)) = 0 \<longrightarrow>
       (\<exists>i. find_name (vnames w') n = Some i \<and> vview vol_type i w' = Some ?t \<and> vview (roomy sz) i w' = Some True))"
    proof (cases "e = 0")
      case True
      with * obtain vs' where "vols w' = Some (vs', k)" "created n ?t sz vs k vs'" "lebs_of vs k w' = lebs_of vs k w"
        by auto
      then show ?thesis
        using created_volume [OF assms(1) w, of n ?t sz vs' w'] True by simp
    next
      case False
      with * show ?thesis
        using failed [of w'] by simp
    qed
  qed
qed

text \<open>Renaming moves the data to the new name.\<close>

lemma stored_moved:
  assumes "stored a x w" "find_name (vnames w) a = Some i" "find_name (vnames w') b = Some i"
    and "usable_leb_size (the (vol w' i)) = usable_leb_size (the (vol w i))" "leb_map (media w') = leb_map (media w)"
  shows "stored b x w'"
proof -
  have "vol_data w' i (length x) = vol_data w i (length x)"
    using assms(4,5) by (simp add: vol_data_def vol_byte_def fun_eq_iff)
  then show ?thesis
    using assms(1-3) by (simp add: stored_def)
qed

lemma set_name_simps [simp]:
  "vol_name (set_name n v) = n" "vol_name_len (set_name n v) = length n" "vol_type (set_name n v) = vol_type v"
  "usable_leb_size (set_name n v) = usable_leb_size v" "used_bytes (set_name n v) = used_bytes v"
  by (simp_all add: set_name_def)

lemma vnames_rename:
  assumes "vols w = Some (vs, k)" "wf_vols (vs, k)" "find_name (vnames w) a = Some i"
    and "vols w' = Some (vs[i := map_option (set_name b) (vs ! i)], k)"
  shows "vnames w' = (vnames w)[i := Some b]"
    "wf_vols (vs[i := map_option (set_name b) (vs ! i)], k)"
    "usable_leb_size (the (vol w' i)) = usable_leb_size (the (vol w i))"
proof -
  have i: "i < k" "map_option vol_name (vs ! i) = Some a"
    using assms(3) by (auto simp: find_name_Some vnames_vols [OF assms(1)])
  then obtain v where v: "vs ! i = Some v"
    by auto
  show "vnames w' = (vnames w)[i := Some b]"
    using vnames_update [OF assms(1,4)] assms(2) v by (simp add: wf_vols_def)
  show "wf_vols (vs[i := map_option (set_name b) (vs ! i)], k)"
    by (rule wf_vols_update [OF assms(2)]) (auto simp: v)
  show "usable_leb_size (the (vol w' i)) = usable_leb_size (the (vol w i))"
    using i(1) v assms(2) by (simp add: vol_vols [OF assms(1)] vol_vols [OF assms(4)] wf_vols_def)
qed

lemma renamed_volume:
  assumes "tidy m w" "vols w = Some (vs, k)" "find_name (vnames w) a = Some i" "find_name (vnames w) b = None"
    and "vols w' = Some (vs[i := map_option (set_name b) (vs ! i)], k)" "leb_map (media w') = leb_map (media w)"
  shows "tidy m w'" "q \<noteq> a \<Longrightarrow> stored q x w \<Longrightarrow> stored q x w'" "stored a x w \<Longrightarrow> stored b x w'"
proof -
  have wf: "wf_vols (vs, k)" "uniq_name m (vnames w)"
    using assms(1,2) by (auto simp: tidy_def)
  note ren = vnames_rename [OF assms(2) wf(1) assms(3,5)]
  have nm: "vnames w ! i = Some a" "i < length (vnames w)"
    using assms(3) by (auto simp: find_name_Some)
  have "uniq_name m (vnames w')"
    using assms(4) wf(2) by (cases "m = b") (simp_all add: ren(1) uniq_name_new uniq_name_update)
  then show "tidy m w'"
    using ren(2) by (simp add: tidy_def assms(5))
  have "uniq_name b (vnames w')"
    using assms(4) by (simp add: ren(1) uniq_name_new)
  then have fb: "find_name (vnames w') b = Some i"
    using nm(2) by (intro find_name_uniq) (simp_all add: ren(1))
  show "stored b x w'" if "stored a x w"
    by (rule stored_moved [OF that assms(3) fb ren(3) assms(6)])
  show "stored q x w'" if "q \<noteq> a" "stored q x w"
  proof (rule stored_keep [OF that(2)])
    have "q \<noteq> b"
      using that(2) assms(4) by (auto simp: stored_def)
    then show "find_name (vnames w') q = find_name (vnames w) q"
      using nm(1) that(1) by (simp add: ren(1) find_name_update)
    fix j assume "find_name (vnames w) q = Some j"
    then have "j \<noteq> i"
      using find_name_ne assms(3) that(1) by metis
    then show "vol w' j = vol w j \<and> leb_map (media w') j = leb_map (media w) j"
      using assms(6) by (simp add: vol_vols [OF assms(2)] vol_vols [OF assms(5)])
  qed
qed

lemma wp_run_rename:
  fixes w :: "'x world_scheme"
  assumes "tidy m w"
  shows "wp (run_ubi (Ubi_rename a b)) (\<lambda>r w'. tidy m w' \<and> (\<forall>q x. q \<noteq> a \<longrightarrow> stored q x w \<longrightarrow> stored q x w')
     \<and> (r = 0 \<longrightarrow> (\<forall>x. stored a x w \<longrightarrow> stored b x w'))) w"
proof -
  obtain vs k where w: "vols w = Some (vs, k)"
    using assms(1) by (auto simp: tidy_def)
  show ?thesis
    unfolding wp_run_ubi_attached(2) [OF tidy_attached [OF assms(1)]]
  proof (rule wp_mono [OF wp_ubi_rename_vol [OF w]])
    fix e and w' :: "'x world_scheme"
    assume *: "leb_map (media w') = leb_map (media w) \<and>
     (if e = 0
      then \<exists>i. find_name (vnames w) a = Some i \<and> find_name (vnames w) b = None
             \<and> vols w' = Some (vs[i := map_option (set_name b) (vs ! i)], k)
      else vols w' = vols w)"
    show "tidy m w' \<and> (\<forall>q x. q \<noteq> a \<longrightarrow> stored q x w \<longrightarrow> stored q x w') \<and>
       ((if e \<noteq> 0 then 1 else (0::int)) = 0 \<longrightarrow> (\<forall>x. stored a x w \<longrightarrow> stored b x w'))"
    proof (cases "e = 0")
      case True
      with * obtain i where "find_name (vnames w) a = Some i" "find_name (vnames w) b = None"
        "vols w' = Some (vs[i := map_option (set_name b) (vs ! i)], k)" "leb_map (media w') = leb_map (media w)"
        by auto
      then show ?thesis
        using renamed_volume [OF assms w, of a i b w'] True by simp
    next
      case False
      with * show ?thesis
        using unchanged_volumes [where w' = w', OF _ _ assms] by simp
    qed
  qed
qed

text \<open>Writing a volume leaves the data of the others.\<close>

lemma tidy_attrs:
  assumes "vol_attrs w' = vol_attrs w" "dev_params w' = dev_params w" "tidy m w"
  shows "tidy m w'" "vnames w' = vnames w"
proof -
  obtain d where d: "ubi w = Some d" "wf_vols (volumes d, vtbl_slots d)" "uniq_name m (vnames w)"
    using assms(3) by (auto simp: tidy_def vols_Some)
  obtain d' where d': "ubi w' = Some d'" "vtbl_slots d' = vtbl_slots d"
    using assms(2) d(1) by (auto simp: dev_params_def)
  have m: "map (map_option attrs) (volumes d') = map (map_option attrs) (volumes d)"
    using assms(1) by (simp add: vol_attrs_def d d')
  then have len: "length (volumes d') = length (volumes d)"
    by (metis length_map)
  have at: "map_option attrs (volumes d' ! i) = map_option attrs (volumes d ! i)" if "i < vtbl_slots d" for i
    using map_eq_nth [OF m] that d(2) by (simp add: wf_vols_def)
  have same: "map_option vol_name (volumes d' ! i) = map_option vol_name (volumes d ! i)
       \<and> map_option vol_name_len (volumes d' ! i) = map_option vol_name_len (volumes d ! i)"
    if "i < vtbl_slots d" for i
    using at [OF that] by (cases "volumes d' ! i"; cases "volumes d ! i"; simp add: attrs_def)
  then show vn: "vnames w' = vnames w"
    by (simp add: vnames_def d d')
  have "vol_name_len v = length (vol_name v)" if "i < vtbl_slots d" "volumes d' ! i = Some v" for i v
    using same [OF that(1)] that(2) d(2) that(1) by (cases "volumes d ! i") (auto simp: wf_vols_def)
  then have "wf_vols (volumes d', vtbl_slots d')"
    using d(2) len d'(2) by (simp add: wf_vols_def)
  then show "tidy m w'"
    using vn d d' by (simp add: tidy_def vols_def)
qed

lemma blind_pair: "blind j f \<Longrightarrow> blind j g \<Longrightarrow> blind j (\<lambda>w. (f w, g w))"
  by (simp add: blind_def view_defs)

lemma blind_fun: "(\<And>i. P i \<Longrightarrow> blind j (f i)) \<Longrightarrow> blind j (\<lambda>w i. if P i then Some (f i w) else None)"
  by (auto simp: blind_def view_defs fun_eq_iff)

definition all_but :: "nat \<Rightarrow> 'x world_scheme \<Rightarrow> _" where
  "all_but j w = (vol_attrs w, dev_params w, (\<lambda>i. if i \<noteq> j then Some (vol_state i w) else None))"

lemma blind_all_but: "blind j (all_but j)"
  unfolding all_but_def [abs_def] by (intro blind_pair blind_fun blind_vol_attrs blind_dev_params blind_vol_state)

lemma all_butD: "all_but i w' = all_but i w \<Longrightarrow> j \<noteq> i \<Longrightarrow> vol_state j w' = vol_state j w"
  by (drule arg_cong [where f = "\<lambda>p. snd (snd p) j"]) (simp add: all_but_def)

lemma written_volume:
  assumes "tidy m w" "find_name (vnames w) n = Some i" "all_but i w' = all_but i w"
  shows "tidy m w'" "vnames w' = vnames w" "q \<noteq> n \<Longrightarrow> stored q x w \<Longrightarrow> stored q x w'"
proof -
  note st = all_butD [OF assms(3)]
  have "vol_attrs w' = vol_attrs w" "dev_params w' = dev_params w"
    using assms(3) by (simp_all add: all_but_def)
  then show "tidy m w'" and vn: "vnames w' = vnames w"
    using tidy_attrs [OF _ _ assms(1)] by blast+
  show "stored q x w'" if "q \<noteq> n" "stored q x w"
    by (rule stored_keep [OF that(2)])
       (use vn st find_name_ne [OF _ assms(2) that(1)] in \<open>auto simp: vol_state_def\<close>)
qed

lemma tidy_alive: "tidy m w \<Longrightarrow> find_name (vnames w) n = Some i \<Longrightarrow> alive i w"
  by (auto simp: tidy_def vols_Some wf_vols_def intro: find_name_alive)

lemma all_but_type:
  assumes "tidy m w" "find_name (vnames w) n = Some i" "all_but i w' = all_but i w"
  shows "vview vol_type i w' = vview vol_type i w"
proof -
  obtain d v where d: "ubi w = Some d" "volumes d ! i = Some v" "i < length (volumes d)"
    using tidy_alive [OF assms(1,2)] by (auto simp: alive_def split: option.splits)
  have "vol_attrs w' = vol_attrs w" "dev_params w' = dev_params w"
    using assms(3) by (simp_all add: all_but_def)
  then obtain d' where d': "ubi w' = Some d'" "map (map_option attrs) (volumes d') = map (map_option attrs) (volumes d)"
    using d(1) by (auto simp: dev_params_def vol_attrs_def)
  then have "map_option attrs (volumes d' ! i) = Some (attrs v)"
    using map_eq_nth [OF d'(2) d(3)] d(2) by simp
  then show ?thesis
    using d d' by (auto simp: vview_def attrs_def)
qed

lemma wp_run_write:
  assumes "tidy m w" "find_name (vnames w) n = Some i" "sz \<noteq> 0"
  shows "wp (run_ubi (Ubi_write buf n sz)) (\<lambda>r w'. all_but i w' = all_but i w
     \<and> (r = 0 \<longrightarrow> vview (upd_done sz) i w' = Some True)) w"
  unfolding wp_run_ubi_attached(4) [OF tidy_attached [OF assms(1)]]
proof (rule wp_mono [OF wp_conj])
  show "wp (ubi_volume_write n (mem_read buf sz (ram w))) (\<lambda>_ w'. all_but i w' = all_but i w) w"
    by (rule wp_ubi_volume_write_blind [OF tidy_attached [OF assms(1)] assms(2) blind_all_but])
  show "wp (ubi_volume_write n (mem_read buf sz (ram w))) (\<lambda>e w'. e = 0 \<longrightarrow> vview (upd_done sz) i w' = Some True) w"
    using wp_ubi_volume_write_sized [OF tidy_alive [OF assms(1,2)] assms(2), of "mem_read buf sz (ram w)"] assms(3)
    by (simp add: mem_read_def)
qed (simp split: if_splits)

text \<open>Writing does not change the room of a dynamic volume.\<close>

definition dyn_room :: "ubi_volume \<Rightarrow> ubi_vol_type \<times> nat" where
  "dyn_room v = (vol_type v, if vol_type v = UBI_DYNAMIC_VOLUME then used_bytes v else 0)"

lemmas dyn_intros = quiet_intros quiet_vview keeps_upd_vol_vview

lemma keeps_clear_marker_room: "keeps (vview dyn_room i) (clear_update_marker j n)"
  unfolding clear_update_marker_def by (intro dyn_intros) (simp_all add: dyn_room_def set_static_size_def)

lemma keeps_start_update_room: "keeps (vview dyn_room i) (ubi_start_update j n)"
  unfolding ubi_start_update_def set_update_marker_def
  by (intro keeps_clear_marker_room dyn_intros) (simp_all add: dyn_room_def)

lemma keeps_more_loop_room: "keeps (vview dyn_room i) (more_update_loop j u l buf)"
proof (induction "length buf" arbitrary: l buf rule: less_induct)
  case less
  show ?case
    by (subst more_update_loop.simps, intro dyn_intros less) (simp_all add: dyn_room_def)
qed

lemma keeps_volume_write_room: "keeps (vview dyn_room i) (ubi_volume_write n buf)"
  unfolding ubi_volume_write_def ubi_volume_begin_write_def ubi_volume_continue_write_def continue_update_def
    ubi_more_update_data_def
  by (intro keeps_start_update_room keeps_clear_marker_room keeps_more_loop_room dyn_intros)
     (simp_all add: dyn_room_def)

lemma wp_run_write_others:
  assumes "tidy m w"
  shows "wp (run_ubi (Ubi_write buf n sz)) (\<lambda>_ w'. tidy m w' \<and> (\<forall>q x. q \<noteq> n \<longrightarrow> stored q x w \<longrightarrow> stored q x w')) w"
  unfolding wp_run_ubi_attached(4) [OF tidy_attached [OF assms]]
proof (cases "find_name (vnames w) n")
  case None
  then show "wp (ubi_volume_write n (mem_read buf sz (ram w)))
     (\<lambda>_ w'. tidy m w' \<and> (\<forall>q x. q \<noteq> n \<longrightarrow> stored q x w \<longrightarrow> stored q x w')) w"
    using assms tidy_attached [OF assms]
    by (simp add: ubi_volume_write_def ubi_volume_begin_write_def wp_ubi_find_volume attached_def)
next
  case (Some i)
  show "wp (ubi_volume_write n (mem_read buf sz (ram w)))
     (\<lambda>_ w'. tidy m w' \<and> (\<forall>q x. q \<noteq> n \<longrightarrow> stored q x w \<longrightarrow> stored q x w')) w"
    by (rule wp_mono [OF wp_ubi_volume_write_blind [OF tidy_attached [OF assms] Some blind_all_but]])
       (use written_volume [OF assms Some] in blast)
qed

section \<open>The RAM a command writes\<close>

text \<open>Views that do not see the bytes of a buffer.\<close>

definition ignores_buf :: "nat \<Rightarrow> nat \<Rightarrow> ('x world_scheme \<Rightarrow> 'v) \<Rightarrow> bool" where
  "ignores_buf lo n f =
     (\<forall>w a xs. lo \<le> a \<longrightarrow> a + length xs \<le> lo + n \<longrightarrow> f (w\<lparr>ram := mem_write a xs (ram w)\<rparr>) = f w)"

lemma wp_eba_read_length:
  "ignores_time f \<Longrightarrow> wp (eba_read_leb i lnum off len) (\<lambda>(e, d) w'. length d = len \<and> f w' = f w) w"
  by (auto simp: eba_read_leb_def io_result_def view_defs Let_def split: option.split)

lemma wp_read_loop_buf:
  fixes f :: "'x world_scheme \<Rightarrow> 'v"
  assumes "ignores_time f" "ignores_hung f" "ignores_buf lo n f"
  shows "lo \<le> buf \<Longrightarrow> buf + sz \<le> lo + n \<Longrightarrow>
     wp (ubi_read_loop i u t l off sz buf) (\<lambda>_ w'. f w' = f w) w"
proof (induction sz arbitrary: l off buf w rule: less_induct)
  case (less sz)
  let ?len0 = "if sz > t then t else sz"
  define len where "len = (if off + ?len0 \<ge> u then u - off else ?len0)"
  have le: "len \<le> sz"
    by (auto simp: len_def)
  show ?case
  proof (cases "len = 0")
    case True
    then show ?thesis
      using assms(2) by (subst ubi_read_loop.simps) (simp add: len_def [symmetric] view_defs)
  next
    case False
    have step: "wp (if e \<noteq> 0 then ret (- e, sz) else do { ram_write buf d; if sz \<le> len then ret (0, 0)
           else if off + len = u then ubi_read_loop i u t (l + 1) 0 (sz - len) (buf + len)
             else ubi_read_loop i u t l (off + len) (sz - len) (buf + len) }) (\<lambda>_ w'. f w' = f w) w1"
      if "length d = len" "f w1 = f w" for e d and w1 :: "'x world_scheme"
    proof -
      let ?w = "w1\<lparr>ram := mem_write buf d (ram w1)\<rparr>"
      have f: "f ?w = f w"
        using assms(3) less.prems le that by (simp add: ignores_buf_def)
      have "wp (ubi_read_loop i u t l' off' (sz - len) (buf + len)) (\<lambda>_ w'. f w' = f w) ?w" if "\<not> sz \<le> len" for l' off'
        using less.IH [of "sz - len" "buf + len" l' off' ?w] False that less.prems le f by simp
      with that f show ?thesis
        by (simp add: ram_write_def)
    qed
    have "wp (do { (e, d) \<leftarrow> eba_read_leb i l off len; if e \<noteq> 0 then ret (- e, sz) else do { ram_write buf d; if sz \<le> len then ret (0, 0)
           else if off + len = u then ubi_read_loop i u t (l + 1) 0 (sz - len) (buf + len)
             else ubi_read_loop i u t l (off + len) (sz - len) (buf + len) } }) (\<lambda>_ w'. f w' = f w) w"
      by (rule wp_bindI [OF wp_eba_read_length [OF assms(1)]]) (simp only: split_paired_all prod.case step)
    with False show ?thesis
      by (subst ubi_read_loop.simps) (simp only: Let_def len_def [symmetric] if_False)
  qed
qed

lemma wp_run_read_buf:
  assumes "ignores_time f" "ignores_hung f" "ignores_env f" "ignores_buf buf sz f" "sz \<noteq> 0"
  shows "keeps f (run_ubi (Ubi_read buf n sz))"
proof -
  have loop: "keeps f (ubi_read_loop i u t 0 0 k buf)" if "k \<le> sz" for i u t k
    unfolding keeps_def using wp_read_loop_buf [OF assms(1,2,4), of buf k i u t 0 0] that
    by (simp add: wp_def case_prod_beta)
  have "keeps f (ubi_volume_read n buf sz)"
    unfolding ubi_volume_read_def Let_def using assms by (intro loop keeps_intros) simp_all
  then show ?thesis
    unfolding run_ubi_def do_ubi_def ubi_command.case by (intro keeps_intros)
qed

definition ram_off :: "nat \<Rightarrow> nat \<Rightarrow> 'x world_scheme \<Rightarrow> nat \<Rightarrow> byte" where
  "ram_off lo n w = (\<lambda>a. if lo \<le> a \<and> a < lo + n then 0 else ram w a)"

lemma ignores_buf_ram_off: "ignores_buf a m (ram_off lo n)" if "lo \<le> a" "a + m \<le> lo + n"
  using that by (auto simp: ignores_buf_def ram_off_def mem_write_def fun_eq_iff)

lemma ram_off_ignores [simp]:
  "ignores_time (ram_off lo n)" "ignores_hung (ram_off lo n)" "ignores_env (ram_off lo n)"
  "ignores_ubi (ram_off lo n)" "ignores_media (ram_off lo n)" "ignores_raw (ram_off lo n)" "ignores_mtds (ram_off lo n)"
  "calm (ram_off lo n)"
  by (simp_all add: view_defs calm_def ram_off_def fun_eq_iff)

lemma ram_off_read:
  assumes "ram_off lo n w' = ram_off lo n w" "a + k \<le> lo \<or> lo + n \<le> a"
  shows "mem_read a k (ram w') = mem_read a k (ram w)"
proof -
  have "ram w' x = ram w x" if "a \<le> x" "x < a + k" for x
    using fun_cong [OF assms(1), of x] assms(2) that by (simp add: ram_off_def split: if_splits)
  then show ?thesis
    by (simp add: mem_read_def)
qed

text \<open>What a successful read delivers.\<close>

definition delivered :: "'x world_scheme \<Rightarrow> nat \<Rightarrow> string \<Rightarrow> nat \<Rightarrow> 'x world_scheme \<Rightarrow> bool" where
  "delivered w buf n sz w' =
     (\<exists>i. find_name (vnames w) n = Some i \<and> \<not> updating (the (vol w i)) \<and> \<not> upd_marker (the (vol w i))
        \<and> ram w' = mem_write buf (vol_data w i (read_length (the (vol w i)) sz)) (ram w))"

lemma wp_run_read:
  assumes "attached w"
  shows "wp (run_ubi (Ubi_read buf n sz)) (\<lambda>r w'. rview w' = rview w \<and> (r = 0 \<longrightarrow> delivered w buf n sz w')) w"
proof (rule wp_conj [OF keeps_wp [OF keeps_run_read_rview]])
  have "ubi w \<noteq> None"
    using assms by (simp add: attached_def)
  then show "wp (run_ubi (Ubi_read buf n sz)) (\<lambda>r w'. r = 0 \<longrightarrow> delivered w buf n sz w') w"
    unfolding wp_run_ubi_attached(3) [OF assms]
    by (rule wp_mono [OF wp_ubi_volume_read]) (auto simp: delivered_def)
qed

text \<open>A static volume whose update has ended is read whole.\<close>

lemma delivered_static:
  assumes "delivered w buf n sz w'" "find_name (vnames w) n = Some i" "alive i w"
    and "vview vol_type i w = Some UBI_STATIC_VOLUME" "vview (upd_done sz) i w = Some True"
  shows "mem_read buf sz (ram w') = vol_data w i sz"
proof -
  have "read_length (the (vol w i)) sz = sz"
    using assms(1,2) vview_vol [OF assms(4)] vview_vol [OF assms(5)]
    by (auto simp: delivered_def upd_done_def sized_def read_length_def)
  then show ?thesis
    using assms(1,2) by (auto simp: delivered_def)
qed

section \<open>Dynamic volumes with room\<close>

text \<open>A dynamic volume of that name with room for some bytes.\<close>

definition room_named :: "string \<Rightarrow> nat \<Rightarrow> 'x world_scheme \<Rightarrow> bool" where
  "room_named n sz w =
     (\<exists>i m. find_name (vnames w) n = Some i \<and> vview dyn_room i w = Some (UBI_DYNAMIC_VOLUME, m) \<and> sz \<le> m)"

lemma room_namedI:
  assumes "find_name (vnames w) n = Some i" "vview vol_type i w = Some UBI_DYNAMIC_VOLUME" "vview (roomy sz) i w = Some True"
  shows "room_named n sz w"
proof -
  obtain d v where v: "ubi w = Some d" "volumes d ! i = Some v" "vol_type v = UBI_DYNAMIC_VOLUME"
    using assms(2) by (auto simp: vview_def split: option.splits)
  have "sz \<le> used_bytes v"
    using assms(3) v by (simp add: vview_def roomy_def)
  with assms(1) v show ?thesis
    by (simp add: room_named_def vview_def dyn_room_def)
qed

text \<open>A dynamic volume with room for some bytes is read back whole.\<close>

lemma delivered_room:
  assumes "delivered w buf n sz w'" "room_named n sz w" "0 < sz"
  shows "stored n (mem_read buf sz (ram w')) w"
proof -
  obtain i m where i: "find_name (vnames w) n = Some i" "vview dyn_room i w = Some (UBI_DYNAMIC_VOLUME, m)" "sz \<le> m"
    using assms(2) by (auto simp: room_named_def)
  have "read_length (the (vol w i)) sz = sz"
    using vview_vol [OF i(2)] i(3) assms(3) by (auto simp: dyn_room_def read_length_def split: if_splits)
  then have "mem_read buf sz (ram w') = vol_data w i sz"
    using assms(1) i(1) by (auto simp: delivered_def)
  then show ?thesis
    using i(1) by (simp add: stored_def)
qed

section \<open>A volume that is left alone\<close>

text \<open>The volume \<open>n\<close> still holds what it held in \<open>w\<close>.\<close>

definition spares :: "string \<Rightarrow> 'x world_scheme \<Rightarrow> 'x world_scheme \<Rightarrow> bool" where
  "spares n w v = (tidy n v \<and> (\<forall>x. stored n x w \<longrightarrow> stored n x v))"

lemma spares_refl: "tidy n w \<Longrightarrow> spares n w w"
  by (simp add: spares_def)

lemma spares_same: "rview v' = rview v \<Longrightarrow> spares n w v \<Longrightarrow> spares n w v'"
  using rview_same(1) [of v' v n] rview_same(2) [of v' v n n] by (auto simp: spares_def)

lemma spares_rview: "keeps rview m \<Longrightarrow> spares n w v \<Longrightarrow> wp m (\<lambda>_. spares n w) v"
  by (rule wp_mono [OF keeps_wp]) (auto intro: spares_same)

lemma spares_remove: "spares n w v \<Longrightarrow> k \<noteq> n \<Longrightarrow> wp (run_ubi (Ubi_remove k)) (\<lambda>_. spares n w) v"
  by (rule wp_mono [OF wp_run_remove [of n]]) (auto simp: spares_def)

lemma spares_create: "spares n w v \<Longrightarrow> sz \<noteq> 0 \<Longrightarrow> wp (run_ubi (Ubi_create k sz d None)) (\<lambda>_. spares n w) v"
  by (rule wp_mono [OF wp_run_create [of n]]) (auto simp: spares_def)

lemma spares_write_other: "spares n w v \<Longrightarrow> k \<noteq> n \<Longrightarrow> wp (run_ubi (Ubi_write a k sz)) (\<lambda>_. spares n w) v"
  by (rule wp_mono [OF wp_run_write_others [of n]]) (auto simp: spares_def)

section \<open>A concrete device\<close>

definition sample_volume :: "nat \<Rightarrow> string \<Rightarrow> ubi_volume" where
  "sample_volume i n =
     (new_volume i)\<lparr>vol_type := UBI_STATIC_VOLUME, vol_name_len := length n, vol_name := n, alignment := 1,
        reserved_pebs := 1, usable_leb_size := 4, used_ebs := 1, last_eb_bytes := 3, used_bytes := 3\<rparr>"

text \<open>Two volumes, each with the bytes 1, 2, 3, in a table of three entries.\<close>

definition sample_device :: "string \<Rightarrow> string \<Rightarrow> string \<Rightarrow> ubi_device" where
  "sample_device mtd a b =
     \<lparr>dev_mtd = mtd, leb_size = 4, min_io_size = 1, vtbl_slots = 3,
      volumes = [Some (sample_volume 0 a), Some (sample_volume 1 b), None, None], vtbl = replicate 3 empty_vtbl_record,
      peb_count = 20, good_peb_count = 20, bad_peb_count = 0, corr_peb_count = 0, avail_pebs = 10, rsvd_pebs = 10,
      beb_rsvd_pebs = 0, beb_rsvd_level = 0, vol_count = 2, ro_mode = False\<rparr>"

definition sample_media :: ubi_media where
  "sample_media = blank_media\<lparr>media_empty := False, leb_map := (\<lambda>i l. if i < 2 \<and> l = 0 then Some ([1, 2, 3], 1) else None)\<rparr>"

lemma sample_device_names:
  assumes "ubi w = Some (sample_device mtd a b)"
  shows "vnames w = [Some a, Some b, None]"
  using assms by (simp add: vnames_def sample_device_def sample_volume_def upt_rec)

lemma sample_device_tidy:
  assumes "ubi w = Some (sample_device mtd a b)" "a \<noteq> b"
  shows "tidy n w"
proof -
  have "vol_name_len v = length (vol_name v)" if "i < 3" "volumes (sample_device mtd a b) ! i = Some v" for i v
    using that by (auto simp: sample_device_def sample_volume_def less_Suc_eq numeral_3_eq_3)
  then have "wf_vols (volumes (sample_device mtd a b), 3)"
    by (simp add: wf_vols_def) (simp add: sample_device_def)
  moreover have "uniq_name n [Some a, Some b, None]"
    using assms(2) by (auto simp: uniq_name_def less_Suc_eq numeral_3_eq_3)
  ultimately show ?thesis
    using assms(1) sample_device_names [OF assms(1)] by (auto simp: tidy_def vols_def sample_device_def)
qed

lemma sample_device_stored:
  assumes "ubi w = Some (sample_device mtd a b)" "media w = sample_media" "a \<noteq> b" "n = a \<or> n = b"
  shows "stored n [1, 2, 3] w"
proof -
  have "vol_data w i 3 = [1, 2, 3]" if "i < 2" for i
    using that assms(1,2)
    by (auto simp: vol_data_def vol_byte_def sample_media_def sample_device_def sample_volume_def upt_rec less_2_cases_iff)
  moreover have "find_name (vnames w) a = Some 0" "find_name (vnames w) b = Some 1"
    using sample_device_names [OF assms(1)] assms(3) by (auto simp: find_name_Some)
  ultimately show ?thesis
    using assms(4) by (auto simp: stored_def eval_nat_numeral)
qed

end
