(* ===== verification/Fip_Soundness.thy ===== *)
theory Fip_Soundness
  imports Fip_Update Ubi_Track
begin

text \<open>
  What a boot loader update that reports success has done: an invariant over the stages of
  \<open>ursus_fip_update_step\<close>, carried through the blocking loop of \<open>ursusupdate write\<close>.
\<close>

section \<open>The invariant\<close>

text \<open>A candidate of a usable size, apart from the read-back buffer.\<close>

definition placed :: "nat \<Rightarrow> bytes \<Rightarrow> bool" where
  "placed addr cand =
     (0 < length cand \<and> length cand \<le> URSUS_UBI_FIP_VOL_SIZE \<and>
      (addr + length cand \<le> URSUS_UBI_READBACK_ADDR \<or> URSUS_UBI_READBACK_ADDR + URSUS_UBI_FIP_VOL_SIZE \<le> addr))"

text \<open>The context describes the candidate, and RAM holds it.\<close>

definition carries :: "nat \<Rightarrow> bytes \<Rightarrow> 'x fip_world_scheme \<Rightarrow> bool" where
  "carries addr cand w =
     (fc_addr (ursus_up w) = addr \<and> fc_len (ursus_up w) = length cand
      \<and> fc_kind (ursus_up w) = URSUS_FIP_KIND_URSUS \<and> mem_read addr (length cand) (ram w) = cand)"

definition masters_flat :: "'x world_scheme \<Rightarrow> bool" where
  "masters_flat w = (\<forall>m \<in> set (mtds w). \<not> mtd_is_partition m \<longrightarrow> mtd_offset m = 0)"

definition chip_flat :: "'x fip_world_scheme \<Rightarrow> bool" where
  "chip_flat w = (mtd_offset (the (ursus_update_nand w)) = 0)"

definition boot_area :: "'x world_scheme \<Rightarrow> bytes" where
  "boot_area w = mem_read 0 URSUS_STOCK_BOOT_SIZE (nand w)"

definition static_named :: "string \<Rightarrow> (ubi_volume \<Rightarrow> bool) \<Rightarrow> 'x world_scheme \<Rightarrow> bool" where
  "static_named n P w =
     (\<exists>i. find_name (vnames w) n = Some i \<and> vview vol_type i w = Some UBI_STATIC_VOLUME \<and> vview P i w = Some True)"

fun stage_ok :: "bytes \<Rightarrow> bytes \<Rightarrow> ursus_up_stage \<Rightarrow> 'x fip_world_scheme \<Rightarrow> bool" where
  "stage_ok old cand URSUS_UP_PRECHECK w =
     ((attached w \<longrightarrow> tidy ''fip'' w) \<and> boot_area w = old \<and> masters_flat w)"
| "stage_ok old cand URSUS_UP_STOCK_BACKUP w = 
     (boot_area w = old \<and> chip_flat w \<and> \<not> fc_ubi_layout (ursus_up w) \<and> length cand < URSUS_STOCK_FIP_MAX)"
| "stage_ok old cand URSUS_UP_STOCK_ERASE w =
     (fc_stock_candidate (ursus_up w) = Some (stock_image old cand) \<and> chip_flat w \<and> \<not> fc_ubi_layout (ursus_up w)
      \<and> length old = URSUS_STOCK_BOOT_SIZE \<and> length cand < URSUS_STOCK_FIP_MAX)"
| "stage_ok old cand URSUS_UP_STOCK_WRITE w =
     (fc_stock_candidate (ursus_up w) = Some (stock_image old cand) \<and> chip_flat w \<and> \<not> fc_ubi_layout (ursus_up w)
      \<and> length old = URSUS_STOCK_BOOT_SIZE \<and> length cand < URSUS_STOCK_FIP_MAX)"
| "stage_ok old cand URSUS_UP_STOCK_VERIFY w =
     (fc_stock_candidate (ursus_up w) = Some (stock_image old cand) \<and> chip_flat w \<and> \<not> fc_ubi_layout (ursus_up w)
      \<and> length old = URSUS_STOCK_BOOT_SIZE \<and> length cand < URSUS_STOCK_FIP_MAX)"
| "stage_ok old cand URSUS_UP_UBI_ATTACH w = ((attached w \<longrightarrow> tidy ''fip'' w) \<and> fc_ubi_layout (ursus_up w))"
| "stage_ok old cand URSUS_UP_UBI_STAGE_PREP w = (tidy ''fip'' w \<and> fc_ubi_layout (ursus_up w))"
| "stage_ok old cand URSUS_UP_UBI_STAGE_WRITE w =
     (tidy ''fip'' w \<and> fc_ubi_layout (ursus_up w) \<and> static_named ''fip.new'' (\<lambda>_. True) w)"
| "stage_ok old cand URSUS_UP_UBI_STAGE_VERIFY w =
     (tidy ''fip'' w \<and> fc_ubi_layout (ursus_up w) \<and> static_named ''fip.new'' (upd_done (length cand)) w)"
| "stage_ok old cand URSUS_UP_UBI_PROMOTE w =
     (tidy ''fip'' w \<and> fc_ubi_layout (ursus_up w) \<and> stored ''fip.new'' cand w)"
| "stage_ok old cand URSUS_UP_UBI_VERIFY w =
     (tidy ''fip'' w \<and> fc_ubi_layout (ursus_up w) \<and> stored ''fip'' cand w)"
| "stage_ok old cand URSUS_UP_COMPLETE w =
     (if fc_ubi_layout (ursus_up w) then stored ''fip'' cand w else boot_area w = stock_image old cand)"
| "stage_ok old cand _ w = True"

definition up_inv :: "bytes \<Rightarrow> nat \<Rightarrow> bytes \<Rightarrow> 'x fip_world_scheme \<Rightarrow> bool" where
  "up_inv old addr cand w =
     (fc_active (ursus_up w) \<or> fc_stage (ursus_up w) = URSUS_UP_COMPLETE \<longrightarrow>
      carries addr cand w \<and> stage_ok old cand (fc_stage (ursus_up w)) w)"

section \<open>What the predicates depend on\<close>

lemma ctx_irrelevant [simp]:
  "vnames (w\<lparr>ursus_up := c\<rparr>) = vnames w" "vview P i (w\<lparr>ursus_up := c\<rparr>) = vview P i w"
  "attached (w\<lparr>ursus_up := c\<rparr>) = attached w" "tidy n (w\<lparr>ursus_up := c\<rparr>) = tidy n w"
  "stored n x (w\<lparr>ursus_up := c\<rparr>) = stored n x w" "static_named n Q (w\<lparr>ursus_up := c\<rparr>) = static_named n Q w"
  "boot_area (w\<lparr>ursus_up := c\<rparr>) = boot_area w" "masters_flat (w\<lparr>ursus_up := c\<rparr>) = masters_flat w"
  "chip_flat (w\<lparr>ursus_up := c\<rparr>) = chip_flat w" "alive i (w\<lparr>ursus_up := c\<rparr>) = alive i w"
proof -
  show vn: "vnames (w\<lparr>ursus_up := c\<rparr>) = vnames w" and vv: "vview Q i (w\<lparr>ursus_up := c\<rparr>) = vview Q i w" for Q :: "ubi_volume \<Rightarrow> 'q" and i
    by (simp_all add: vnames_def vview_def)
  show "attached (w\<lparr>ursus_up := c\<rparr>) = attached w" "tidy n (w\<lparr>ursus_up := c\<rparr>) = tidy n w"
    "boot_area (w\<lparr>ursus_up := c\<rparr>) = boot_area w" "masters_flat (w\<lparr>ursus_up := c\<rparr>) = masters_flat w"
    "chip_flat (w\<lparr>ursus_up := c\<rparr>) = chip_flat w" "alive i (w\<lparr>ursus_up := c\<rparr>) = alive i w"
    by (simp_all add: vn attached_def tidy_def vols_def boot_area_def masters_flat_def chip_flat_def alive_def)
  show "stored n x (w\<lparr>ursus_up := c\<rparr>) = stored n x w"
    by (simp add: stored_def vn vol_data_def vol_byte_def [abs_def])
  show "static_named n Q (w\<lparr>ursus_up := c\<rparr>) = static_named n Q w"
    by (simp add: static_named_def vn vview_def)
qed

lemma carries_up [simp]:
  "carries addr cand (w\<lparr>ursus_up := c\<rparr>) =
   (fc_addr c = addr \<and> fc_len c = length cand \<and> fc_kind c = URSUS_FIP_KIND_URSUS
    \<and> mem_read addr (length cand) (ram w) = cand)"
  by (simp add: carries_def)

lemma wp_fail_reason_inv [simp]: "wp (ursus_update_fail_reason r code) (\<lambda>_. up_inv old addr cand) = (\<lambda>_. True)"
  by (simp add: ursus_update_fail_reason_def up_inv_def fun_eq_iff)

lemma wp_fail_inv [simp]: "wp (ursus_update_fail r) (\<lambda>_. up_inv old addr cand) = (\<lambda>_. True)"
  by (simp add: ursus_update_fail_def fun_eq_iff)

lemma wp_up_advance [simp]:
  "wp (up_advance here next) Q = (\<lambda>w. Q 0 (w\<lparr>ursus_up := (ursus_up w)\<lparr>fc_last_success_stage := here, fc_stage := next\<rparr>\<rparr>))"
  by (simp add: up_advance_def)

text \<open>The context and the RAM outside the read-back buffer.\<close>

definition kept :: "'x fip_world_scheme \<Rightarrow> ursus_up_ctx \<times> (nat \<Rightarrow> byte)" where
  "kept w = (ursus_up w, ram_off URSUS_UBI_READBACK_ADDR URSUS_UBI_FIP_VOL_SIZE w)"

lemma kept_ignores [simp]:
  "ignores_time kept" "ignores_hung kept" "ignores_env kept" "calm kept" "update_parts_free kept"
  by (simp_all add: kept_def [abs_def] view_defs calm_def update_parts_free_def ram_off_def fun_eq_iff)

lemma ignores_time_pair: "ignores_time f \<Longrightarrow> ignores_time g \<Longrightarrow> ignores_time (\<lambda>w. (f w, g w))"
  by (simp add: view_defs)

lemma carries_kept: "placed addr cand \<Longrightarrow> kept w' = kept w \<Longrightarrow> carries addr cand w' = carries addr cand w"
  using ram_off_read [of URSUS_UBI_READBACK_ADDR URSUS_UBI_FIP_VOL_SIZE w' w addr "length cand"]
  by (auto simp: kept_def carries_def placed_def)

lemma keeps_kept_run: "(\<And>a n sz. c \<noteq> Ubi_read a n sz) \<Longrightarrow> keeps kept (run_ubi c)"
  by (rule keeps_run_ubi_calm) simp_all

lemma keeps_kept_read:
  "0 < sz \<Longrightarrow> sz \<le> URSUS_UBI_FIP_VOL_SIZE \<Longrightarrow> keeps kept (run_ubi (Ubi_read URSUS_UBI_READBACK_ADDR n sz))"
  by (rule wp_run_read_buf) (auto simp: kept_def ignores_buf_def ram_off_def mem_write_def fun_eq_iff)

section \<open>The atomic switch\<close>

lemma switched_volumes:
  fixes w :: "'x world_scheme"
  assumes "tidy cur w" "vols w = Some (vs, k)" "find_name (vnames w) cur = Some a" "find_name (vnames w) cand = Some b"
    and "vols w' = Some (rename_vols [\<lparr>re_vol = a, re_new_name = bak, re_remove = False\<rparr>,
                                     \<lparr>re_vol = b, re_new_name = cur, re_remove = False\<rparr>] vs, k)"
    and "leb_map (media w') = leb_map (media w)" "cand \<noteq> cur" "bak \<noteq> cur" "bak \<noteq> cand"
  shows "tidy cur w'" "stored cand x w \<Longrightarrow> stored cur x w'"
proof -
  have wf: "wf_vols (vs, k)" "uniq_name cur (vnames w)"
    using assms(1,2) by (auto simp: tidy_def)
  define vs1 where "vs1 = vs[a := map_option (set_name bak) (vs ! a)]"
  define w1 where "w1 = w\<lparr>ubi := map_option (\<lambda>d. d\<lparr>volumes := vs1\<rparr>) (ubi w)\<rparr>"
  have w1: "vols w1 = Some (vs1, k)" "media w1 = media w"
    using assms(2) by (auto simp: w1_def vols_def)
  note ren = vnames_rename [OF assms(2) wf(1) assms(3) w1(1) [unfolded vs1_def], folded vs1_def]
  have nm: "vnames w ! a = Some cur"
    using assms(3) by (simp add: find_name_Some)
  have "tidy cur w1"
    using ren(1,2) wf(2) assms(8) w1(1) by (simp add: tidy_def uniq_name_update)
  moreover have cand: "find_name (vnames w1) cand = Some b"
    using assms(4,7,9) nm by (simp add: ren(1) find_name_update)
  moreover have "find_name (vnames w1) cur = None"
    using wf(2) assms(3,8) by (auto simp: find_name_None find_name_Some uniq_name_def ren(1) nth_update)
  moreover have "vols w' = Some (vs1[b := map_option (set_name cur) (vs1 ! b)], k)"
    using assms(5) by (simp add: vs1_def)
  ultimately have sw: "tidy cur w'" "stored cand x w1 \<Longrightarrow> stored cur x w'" for x
    using renamed_volume [where w' = w' and w = w1 and m = cur, OF _ w1(1)] assms(6) w1(2) by simp_all
  show "tidy cur w'"
    by (rule sw(1))
  show "stored cur x w'" if "stored cand x w"
  proof (rule sw(2), rule stored_keep [OF that])
    show "find_name (vnames w1) cand = find_name (vnames w) cand"
      by (simp add: cand assms(4))
    fix j assume "find_name (vnames w) cand = Some j"
    then have "j \<noteq> a"
      using find_name_ne assms(3,7) by metis
    then show "vol w1 j = vol w j \<and> leb_map (media w1) j = leb_map (media w) j"
      using w1(2) by (simp add: vol_vols [OF assms(2)] vol_vols [OF w1(1)] vs1_def)
  qed
qed

lemma wp_open_tidy:
  assumes "tidy m w"
  shows "wp (ubi_open_volume_nm n md) (\<lambda>r w'. opened w n r \<and> rview w' = rview w \<and> kept w' = kept w) w"
proof -
  obtain vs k where "vols w = Some (vs, k)" "wf_vols (vs, k)"
    using assms by (auto simp: tidy_def)
  then show ?thesis
    by (intro wp_conj keeps_wp keeps_open_rview keeps_open_volume_nm wp_ubi_open_volume_nm) simp_all
qed

lemma keeps_close_both: "keeps (\<lambda>w. (rview w, kept w)) (ubi_close_volume i md)"
  by (intro keeps_pair keeps_close_rview keeps_close_volume) simp

lemma wp_switch_tail:
  fixes w :: "'x fip_world_scheme"
  assumes "tidy cur w" "find_name (vnames w) cur = Some a" "find_name (vnames w) cand = Some b"
    and "cand \<noteq> cur" "bak \<noteq> cur" "bak \<noteq> cand"
  shows "wp (do {
      r \<leftarrow> ubi_rename_volumes [\<lparr>re_vol = a, re_new_name = bak, re_remove = False\<rparr>,
                               \<lparr>re_vol = b, re_new_name = cur, re_remove = False\<rparr>];
      ubi_close_volume b UBI_READWRITE;
      ubi_close_volume a UBI_READWRITE;
      ret r })
    (\<lambda>r w'. kept w' = kept w \<and> (r = 0 \<longrightarrow> tidy cur w' \<and> (\<forall>x. stored cand x w \<longrightarrow> stored cur x w'))) w"
proof -
  obtain vs k where v: "vols w = Some (vs, k)"
    using assms(1) by (auto simp: tidy_def)
  let ?R = "[\<lparr>re_vol = a, re_new_name = bak, re_remove = False\<rparr>, \<lparr>re_vol = b, re_new_name = cur, re_remove = False\<rparr>]"
  have ren: "wp (ubi_rename_volumes ?R) (\<lambda>r w'. kept w' = kept w \<and>
       (r = 0 \<longrightarrow> tidy cur w' \<and> (\<forall>x. stored cand x w \<longrightarrow> stored cur x w'))) w"
  proof (rule wp_mono [OF wp_conj [OF keeps_wp [OF keeps_ubi_rename_volumes [of kept]] wp_ubi_rename_volumes [OF v]]], goal_cases)
    case (3 r w')
    then show ?case
      using switched_volumes [where w' = w', OF assms(1) v assms(2,3) _ _ assms(4-6)] by auto
  qed simp_all
  have cl: "wp (do { ubi_close_volume b UBI_READWRITE; ubi_close_volume a UBI_READWRITE; ret r })
       (\<lambda>r' w'. r' = r \<and> rview w' = rview v \<and> kept w' = kept v) v" for r and v :: "'x fip_world_scheme"
    by (rule wp_bindI [OF keeps_wp [OF keeps_close_both]], rule wp_bindI [OF keeps_wp [OF keeps_close_both]]) simp
  show ?thesis
  proof (rule wp_bindI [OF ren], rule wp_mono [OF cl], goal_cases)
    case (1 r v r' w')
    then show ?case
      using rview_same [where w' = w' and w = v and n = cur] by auto
  qed
qed

lemma wp_atomic_switch:
  fixes w :: "'x fip_world_scheme"
  assumes "tidy cur w" "cand \<noteq> cur" "bak \<noteq> cur" "bak \<noteq> cand"
  shows "wp (ursus_ubi_atomic_switch cur cand bak)
    (\<lambda>r w'. kept w' = kept w \<and> (r = 0 \<longrightarrow> tidy cur w' \<and> (\<forall>x. stored cand x w \<longrightarrow> stored cur x w'))) w"
    (is "wp _ ?Q w")
proof -
  let ?tail = "\<lambda>a b. do {
      r \<leftarrow> ubi_rename_volumes [\<lparr>re_vol = a, re_new_name = bak, re_remove = False\<rparr>,
                               \<lparr>re_vol = b, re_new_name = cur, re_remove = False\<rparr>];
      ubi_close_volume b UBI_READWRITE;
      ubi_close_volume a UBI_READWRITE;
      ret r }"
  let ?second = "\<lambda>a. do {
      new_desc \<leftarrow> ubi_open_volume_nm cand UBI_READWRITE;
      case new_desc of Inl e \<Rightarrow> do { ubi_close_volume a UBI_READWRITE; ret e } | Inr b \<Rightarrow> ?tail a b }"
  have second: "wp (?second a) ?Q v"
    if v: "find_name (vnames v) cur = Some a" "tidy cur v" "rview v = rview w" "kept v = kept w"
    for a and v :: "'x fip_world_scheme"
  proof (rule wp_bindI [OF wp_open_tidy [OF v(2)]], goal_cases)
    case (1 d v')
    have t: "tidy cur v'" "vnames v' = vnames v" "kept v' = kept w" "\<And>x. stored cand x w \<Longrightarrow> stored cand x v'"
      using 1 v rview_same [where w' = v' and w = v and n = cur]
        rview_same(2) [where w' = v' and w = w, OF _ assms(1)] by auto
    show ?case
    proof (cases d)
      case (Inl e)
      have "wp (ubi_close_volume a UBI_READWRITE) (\<lambda>_ w'. kept w' = kept v') v'"
        by (intro keeps_wp keeps_close_volume) simp
      with Inl 1 t(3) show ?thesis
        by (auto simp: opened_def elim: wp_mono)
    next
      case (Inr b)
      then have "find_name (vnames v') cand = Some b"
        using 1 t(2) by (simp add: opened_def)
      then have "wp (?tail a b) ?Q v'"
        using t v(1) by (intro wp_mono [OF wp_switch_tail [OF t(1)]]) (auto simp: assms)
      with Inr show ?thesis
        by (simp only: sum.case)
    qed
  qed
  have "ubi w \<noteq> None"
    using tidy_attached [OF assms(1)] by (simp add: attached_def)
  moreover have "wp (do { old_desc \<leftarrow> ubi_open_volume_nm cur UBI_READWRITE;
       case old_desc of Inl e \<Rightarrow> ret e | Inr a \<Rightarrow> ?second a }) ?Q w"
  proof (rule wp_bindI [OF wp_open_tidy [OF assms(1)]], goal_cases)
    case (1 d v)
    show ?case
    proof (cases d)
      case (Inr a)
      then have "wp (?second a) ?Q v"
        using 1 rview_same [where w' = v and w = w and n = cur] assms(1) by (intro second) (auto simp: opened_def)
      with Inr show ?thesis
        by (simp only: sum.case)
    qed (use 1 in \<open>simp add: opened_def\<close>)
  qed
  ultimately show ?thesis
    unfolding ursus_ubi_atomic_switch_def by (simp only: wp_bind wp_gets if_False)
qed

section \<open>The stages on UBI\<close>

lemma wp_remove_quietly:
  assumes "tidy m w"
  shows "wp (remove_quietly n) (\<lambda>_ w'. tidy m w' \<and> kept w' = kept w) w"
proof -
  have rm: "wp (run_ubi (Ubi_remove n)) (\<lambda>_ w'. tidy m w' \<and> kept w' = kept w) v"
    if "tidy m v" "kept v = kept w" for v
    using that wp_conj [OF wp_run_remove [OF that(1), of n] keeps_wp [OF keeps_kept_run, of "Ubi_remove n" v]]
    by (auto elim: wp_mono)
  show ?thesis
    unfolding remove_quietly_def
    by (rule wp_bindI [OF keeps_wp [OF keeps_run_check [where f = "\<lambda>w. w"]]]) (use rm [of w] assms in \<open>auto elim: wp_mono\<close>)
qed

lemma up_create_new_inv:
  assumes "placed addr cand" "carries addr cand w" "tidy ''fip'' w" "fc_ubi_layout (ursus_up w)"
  shows "wp (up_create_new h) (\<lambda>_. up_inv old addr cand) w"
proof -
  have "wp (run_ubi (Ubi_create ''fip.new'' 0x100000 False None))
     (\<lambda>r w'. kept w' = kept w \<and> tidy ''fip'' w' \<and> (r = 0 \<longrightarrow> static_named ''fip.new'' (\<lambda>_. True) w')) w"
    by (rule wp_mono [OF wp_conj [OF keeps_wp [OF keeps_kept_run] wp_run_create [OF assms(3)]]])
       (auto simp: static_named_def vview_def split: option.splits)
  then have "wp (do { r \<leftarrow> run_ubi (Ubi_create ''fip.new'' 0x100000 False None);
        if r \<noteq> 0 then ursus_update_fail r
        else up_advance URSUS_UP_UBI_STAGE_PREP URSUS_UP_UBI_STAGE_WRITE }) (\<lambda>_. up_inv old addr cand) w"
  proof (rule wp_bindI, goal_cases)
    case (1 r w')
    then have "carries addr cand w'" "fc_ubi_layout (ursus_up w')"
      using carries_kept [OF assms(1)] assms(2,4) by (auto simp: kept_def)
    with 1 show ?case
      by (simp add: up_inv_def carries_def)
  qed
  then show ?thesis
    by (simp add: up_create_new_def)
qed

lemma up_stage_write_inv:
  assumes "placed addr cand" "carries addr cand w" "stage_ok old cand URSUS_UP_UBI_STAGE_WRITE w"
  shows "wp up_stage_write (\<lambda>_. up_inv old addr cand) w"
proof -
  obtain i where i: "find_name (vnames w) ''fip.new'' = Some i" "vview vol_type i w = Some UBI_STATIC_VOLUME"
    and t: "tidy ''fip'' w" "fc_ubi_layout (ursus_up w)"
    using assms(3) by (auto simp: static_named_def)
  have c: "fc_addr (ursus_up w) = addr" "fc_len (ursus_up w) = length cand"
    using assms(2) by (simp_all add: carries_def)
  show ?thesis
    unfolding up_stage_write_def
  proof (simp only: wp_bind wp_gets c,
      rule wp_mono [OF wp_conj [OF keeps_wp [OF keeps_kept_run] wp_run_write [OF t(1) i(1)]]], goal_cases)
    case 2
    then show ?case using assms(1) by (simp add: placed_def)
  next
    case (3 r w')
    then have "carries addr cand w'" "fc_ubi_layout (ursus_up w')"
      using carries_kept [OF assms(1)] assms(2) t(2) by (auto simp: kept_def)
    moreover have "tidy ''fip'' w'" "find_name (vnames w') ''fip.new'' = Some i"
      using written_volume [where w' = w', OF t(1) i(1)] 3 i(1) by simp_all
    moreover have "vview vol_type i w' = Some UBI_STATIC_VOLUME"
      using all_but_type [where w' = w', OF t(1) i(1)] 3 i(2) by simp
    ultimately show ?case
      using 3 by (auto simp: up_inv_def carries_def static_named_def)
  qed simp
qed

lemma up_stage_prep_inv:
  assumes "placed addr cand" "carries addr cand w" "stage_ok old cand URSUS_UP_UBI_STAGE_PREP w"
  shows "wp up_stage_prep (\<lambda>_. up_inv old addr cand) w"
proof -
  let ?I = "\<lambda>w :: 'a fip_world_scheme. tidy ''fip'' w \<and> carries addr cand w \<and> fc_ubi_layout (ursus_up w)"
  have I: "?I w'" if "tidy ''fip'' w'" "kept w' = kept v" "?I v" for v w' :: "'a fip_world_scheme"
    using carries_kept [OF assms(1) that(2)] that by (simp add: kept_def)
  have rq: "wp (remove_quietly n) (\<lambda>_. ?I) v" if "?I v" for n v
    by (rule wp_mono [OF wp_remove_quietly]) (use that I in blast)+
  have rm: "wp (run_ubi (Ubi_remove ''fip'')) (\<lambda>_. ?I) v" if "?I v" for v
    by (rule wp_mono [OF wp_conj [OF wp_run_remove keeps_wp [OF keeps_kept_run]]]) (use that I in blast)+
  have cn: "wp (up_create_new h) (\<lambda>_. up_inv old addr cand) v" if "?I v" for h v
    using that by (intro up_create_new_inv assms(1)) simp_all
  have again: "wp (case h of None \<Rightarrow> ursus_update_fail_reason e code | Some h \<Rightarrow> up_create_new h)
      (\<lambda>_. up_inv old addr cand) v" if "?I v" for h e code v
    using cn [OF that] by (cases h) simp_all
  have drop: "wp up_drop_invalid (\<lambda>_. up_inv old addr cand) v" if "?I v" for v
    unfolding up_drop_invalid_def
    by (rule wp_bindI [OF rm [OF that]], unfold wp_if wp_bind wp_set_up ursus_ubi_fip_new_headroom_def wp_gets)
       (use again in \<open>auto simp: carries_def\<close>)
  have space: "wp (up_prep_space c) (\<lambda>_. up_inv old addr cand) v" if "?I v" for c v
    unfolding up_prep_space_def ursus_ubi_fip_new_headroom_def
    using that drop cn by (auto split: option.split)
  have bad: "wp (do { remove_quietly ''fip.bad''; up_prep_space c }) (\<lambda>_. up_inv old addr cand) v" if "?I v" for c v
    by (rule wp_bindI [OF rq [OF that]]) (rule space)
  have old: "wp (do { remove_quietly n; remove_quietly ''fip.bad''; up_prep_space c }) (\<lambda>_. up_inv old addr cand) v"
    if "?I v" for n c v
    by (rule wp_bindI [OF rq [OF that]]) (rule bad)
  have rest: "wp (do { when_m b (remove_quietly ''fip.old''); remove_quietly ''fip.bad''; up_prep_space c })
      (\<lambda>_. up_inv old addr cand) v" if "?I v" for b c v
    using bad [OF that] old [OF that] by (cases b) (simp_all add: when_m_def)
  have "?I (w\<lparr>ursus_up := (ursus_up w)\<lparr>fc_write_started := True\<rparr>\<rparr>)"
    using assms(2,3) by (simp add: carries_def)
  then have "wp (do { remove_quietly ''fip.new''; when_m b (remove_quietly ''fip.old''); remove_quietly ''fip.bad''; up_prep_space c })
      (\<lambda>_. up_inv old addr cand) (w\<lparr>ursus_up := (ursus_up w)\<lparr>fc_write_started := True\<rparr>\<rparr>)" for b c
    by (intro wp_bindI [OF rq] rest)
  then show ?thesis
    by (simp only: up_stage_prep_def wp_bind wp_set_up wp_gets)
qed

lemma up_stage_verify_inv:
  assumes "placed addr cand" "carries addr cand w" "stage_ok old cand URSUS_UP_UBI_STAGE_VERIFY w"
  shows "wp up_stage_verify (\<lambda>_. up_inv old addr cand) w"
proof -
  obtain i where i: "find_name (vnames w) ''fip.new'' = Some i" "vview vol_type i w = Some UBI_STATIC_VOLUME"
      "vview (upd_done (length cand)) i w = Some True"
    and t: "tidy ''fip'' w" "fc_ubi_layout (ursus_up w)"
    using assms(3) by (auto simp: static_named_def)
  have c: "fc_addr (ursus_up w) = addr" "fc_len (ursus_up w) = length cand"
    using assms(2) by (simp_all add: carries_def)
  have len: "0 < length cand" "length cand \<le> URSUS_UBI_FIP_VOL_SIZE"
    using assms(1) by (simp_all add: placed_def)
  have fin: "up_inv old addr cand (w'\<lparr>ursus_up := (ursus_up w')\<lparr>fc_last_success_stage := l, fc_stage := URSUS_UP_UBI_PROMOTE\<rparr>\<rparr>)"
    if "rview v = rview w" "delivered w URSUS_UBI_READBACK_ADDR ''fip.new'' (length cand) v" "kept v = kept w"
      "(ursus_up w', ram w', ubi w', media w') = (ursus_up v, ram v, ubi v, media v)"
      "mem_read addr (length cand) (ram w') = mem_read URSUS_UBI_READBACK_ADDR (length cand) (ram w')"
    for v w' :: "'a fip_world_scheme" and l
  proof -
    have "carries addr cand v" "ursus_up v = ursus_up w"
      using carries_kept [OF assms(1) that(3)] assms(2) that(3) by (simp_all add: kept_def)
    moreover have "rview w' = rview w"
      using that(1,4) by (simp add: rview_def cvols_def vols_def)
    moreover have "vol_data w i (length cand) = cand"
      using delivered_static [OF that(2) i(1) tidy_alive [OF t(1) i(1)] i(2,3)] that(4,5) \<open>carries addr cand v\<close>
      by (simp add: carries_def)
    then have "stored ''fip.new'' cand w"
      using i(1) by (simp add: stored_def)
    ultimately show ?thesis
      using rview_same [where w' = w' and w = w and n = "''fip''"] t that(4) by (simp add: up_inv_def carries_def)
  qed
  have tail: "wp (do { r \<leftarrow> ursus_fip_validate_kind URSUS_UBI_READBACK_ADDR (length cand) False k;
       if r \<noteq> 0 then ursus_update_fail r
       else if map_sysmem_null addr then ursus_update_fail (- ENOMEM)
       else do {
         src \<leftarrow> ram_read addr (length cand);
         rb \<leftarrow> ram_read URSUS_UBI_READBACK_ADDR (length cand);
         if src \<noteq> rb then ursus_update_fail (- EBADMSG)
         else up_advance URSUS_UP_UBI_STAGE_VERIFY URSUS_UP_UBI_PROMOTE
       } }) (\<lambda>_. up_inv old addr cand) v"
    if v: "rview v = rview w" "delivered w URSUS_UBI_READBACK_ADDR ''fip.new'' (length cand) v" "kept v = kept w"
    for k v
    by (rule wp_bindI [OF keeps_wp [of "\<lambda>w. (ursus_up w, ram w, ubi w, media w)"]])
       (use fin [OF v] in \<open>auto simp: ram_read_def intro!: keeps_intros simp: view_defs\<close>)
  show ?thesis
    unfolding up_stage_verify_def
  proof (simp only: wp_bind wp_gets c, rule wp_mono [OF wp_conj [OF keeps_wp [OF keeps_kept_read]
        wp_run_read [OF tidy_attached [OF t(1)]]]], goal_cases)
    case (3 r v)
    then show ?case
      using tail [of v] by (simp only: wp_bind wp_if) (auto split: if_splits)
  qed (use len in simp_all)
qed

lemma up_promote_inv:
  assumes "placed addr cand" "carries addr cand w" "stage_ok old cand URSUS_UP_UBI_PROMOTE w"
  shows "wp up_promote (\<lambda>_. up_inv old addr cand) w"
proof -
  let ?w = "w\<lparr>ursus_up := (ursus_up w)\<lparr>fc_commit_started := True\<rparr>\<rparr>"
  have t: "tidy ''fip'' ?w" "stored ''fip.new'' cand ?w" "carries addr cand ?w" "fc_ubi_layout (ursus_up ?w)"
    using assms(2,3) by (simp_all add: carries_def)
  have fin: "up_inv old addr cand (w'\<lparr>ursus_up := (ursus_up w')\<lparr>fc_last_success_stage := l, fc_stage := URSUS_UP_UBI_VERIFY\<rparr>\<rparr>)"
    if "kept w' = kept ?w" "tidy ''fip'' w'" "stored ''fip'' cand w'" for w' :: "'a fip_world_scheme" and l
    using carries_kept [OF assms(1) that(1)] that t(3,4) by (simp add: up_inv_def carries_def kept_def)
  have ren: "wp (do { r \<leftarrow> run_ubi (Ubi_rename ''fip.new'' ''fip'');
      if r \<noteq> 0 then ursus_update_fail_reason r code else up_advance URSUS_UP_UBI_PROMOTE URSUS_UP_UBI_VERIFY })
      (\<lambda>_. up_inv old addr cand) ?w" for code
    by (rule wp_bindI [OF wp_conj [OF wp_run_rename [OF t(1)] keeps_wp [OF keeps_kept_run]]])
       (use fin t(2) in auto)
  have sw: "wp (do { r \<leftarrow> ursus_ubi_atomic_switch ''fip'' ''fip.new'' bak;
      if r \<noteq> 0 then g r else up_advance URSUS_UP_UBI_PROMOTE URSUS_UP_UBI_VERIFY }) (\<lambda>_. up_inv old addr cand) ?w"
    if "bak \<noteq> ''fip''" "bak \<noteq> ''fip.new''" "\<And>r v. wp (g r) (\<lambda>_. up_inv old addr cand) v" for g bak
    by (rule wp_bindI [OF wp_atomic_switch [OF t(1)]]) (use that fin t(2) in auto)
  show ?thesis
    unfolding up_promote_def
    by (cases "fc_mode (ursus_up w)") (use ren sw in \<open>simp_all del: wp_bind add: wp_bind [of "set_up _"] wp_bind [of "gets _"]\<close>)
qed

lemma up_rollback_inv: "wp up_rollback (\<lambda>_. up_inv old addr cand) w"
  by (auto simp: up_rollback_def split: ursus_ubi_fip_mode.split cong: if_cong)

lemma up_ubi_verify_inv:
  assumes "placed addr cand" "carries addr cand w" "stage_ok old cand URSUS_UP_UBI_VERIFY w"
  shows "wp up_ubi_verify (\<lambda>_. up_inv old addr cand) w"
proof -
  have t: "tidy ''fip'' w" "stored ''fip'' cand w" "fc_ubi_layout (ursus_up w)"
    using assms(3) by simp_all
  have c: "fc_len (ursus_up w) = length cand" "fc_kind (ursus_up w) = URSUS_FIP_KIND_URSUS"
    using assms(2) by (simp_all add: carries_def)
  have len: "0 < length cand" "length cand \<le> URSUS_UBI_FIP_VOL_SIZE"
    using assms(1) by (simp_all add: placed_def)
  let ?same = "\<lambda>v :: 'a fip_world_scheme. kept v = kept w \<and> rview v = rview w"
  have read: "wp (run_ubi (Ubi_read URSUS_UBI_READBACK_ADDR ''fip'' (length cand))) (\<lambda>_. ?same) w"
    by (intro wp_conj keeps_wp keeps_kept_read len keeps_run_read_rview)
  have val: "wp (if r \<noteq> 0 then ret r else ursus_fip_validate_kind URSUS_UBI_READBACK_ADDR (length cand) False k) (\<lambda>_. ?same) v"
    if "?same v" for v r k
    by (rule wp_mono [OF keeps_wp [of "\<lambda>w. (kept w, rview w)"]])
       (use that in \<open>auto intro!: keeps_intros simp: ignores_time_pair\<close>)
  have roll: "up_inv old addr cand (v\<lparr>ursus_up := (ursus_up v)\<lparr>fc_last_success_stage := l, fc_stage := URSUS_UP_UBI_ROLLBACK\<rparr>\<rparr>)"
    if "?same v" for v l
    using carries_kept [OF assms(1), of v w] that assms(2) by (simp add: up_inv_def carries_def)
  have compl: "up_inv old addr cand (v\<lparr>ursus_up := (ursus_up v)\<lparr>fc_stage := URSUS_UP_COMPLETE, fc_active := False\<rparr>\<rparr>)"
    if "?same v" for v
    using carries_kept [OF assms(1), of v w] rview_same(2) [of v w, OF _ t(1,2)] that assms(2) t(3)
    by (simp add: up_inv_def carries_def kept_def)
  show ?thesis
    unfolding up_ubi_verify_def c wp_bind wp_gets
    apply (rule wp_mono [OF read])
    apply (rule wp_mono [OF val])
    apply assumption
    using roll compl by auto
qed

lemma wp_ensure_attachment:
  assumes "attached w \<longrightarrow> tidy m w"
  shows "wp ursus_update_ensure_ubi_attachment (\<lambda>r w'. kept w' = kept w \<and> (r = 0 \<longrightarrow> tidy m w')) w"
proof -
  let ?f = "\<lambda>w :: 'a fip_world_scheme. (kept w, ubi w)"
  let ?Q = "\<lambda>r w'. kept w' = kept w \<and> (r = 0 \<longrightarrow> tidy m w')"
  have free: "update_parts_free ?f"
    by (simp add: update_parts_free_def view_defs kept_def ram_off_def fun_eq_iff)
  have part: "wp (do { r \<leftarrow> run_ubi (Ubi_part n); u \<leftarrow> gets ubi; if r \<noteq> 0 then ret r
       else ret (case u of None \<Rightarrow> - ENODEV | Some d \<Rightarrow> if \<not> attached_to d p then - EXDEV else 0) }) ?Q v"
    if "\<not> attached v" "kept v = kept w" for n p and v :: "'a fip_world_scheme"
    by (rule wp_bindI [OF wp_conj [OF wp_run_part [OF that(1), where m = m] keeps_wp [OF keeps_kept_run]]])
       (use that(2) in \<open>auto split: option.split\<close>)
  have rest: "wp (do {
       u \<leftarrow> gets ubi; p \<leftarrow> gets ursus_update_ubi_part;
       case u of
         Some d \<Rightarrow> ret (if \<not> attached_to d p \<or> \<not> good_geometry (the p) URSUS_UBI_SIZE then - EXDEV else 0)
       | None \<Rightarrow> do {
           n \<leftarrow> gets ursus_update_ubi_part_name;
           r \<leftarrow> run_ubi (Ubi_part n);
           u \<leftarrow> gets ubi;
           if r \<noteq> 0 then ret r
           else ret (case u of None \<Rightarrow> - ENODEV | Some d \<Rightarrow> if \<not> attached_to d p then - EXDEV else 0) } }) ?Q v"
    if "?f v = ?f w" for v :: "'a fip_world_scheme"
  proof (cases "ubi v")
    case None
    then show ?thesis
      using part [of v] that by (simp only: wp_bind wp_gets option.case) (simp add: attached_def)
  next
    case (Some d)
    then have "tidy m v"
      using that assms by (auto simp: attached_def tidy_def vols_def vnames_def)
    moreover have "kept v = kept w"
      using that by simp
    ultimately show ?thesis
      using Some by simp
  qed
  show ?thesis
    unfolding ursus_update_ensure_ubi_attachment_def
    by (rule wp_bindI [OF keeps_wp [OF keeps_register_ubi_part [OF free]]]) (use rest in \<open>simp only: wp_if\<close>, simp)
qed

text \<open>What classifying the active FIP keeps.\<close>

definition settled :: "'x fip_world_scheme \<Rightarrow> _" where
  "settled w = (rview w, ram_off URSUS_UBI_READBACK_ADDR URSUS_UBI_FIP_VOL_SIZE w,
     (\<lambda>c. (fc_addr c, fc_len c, fc_kind c, fc_ubi_layout c)) (ursus_up w))"

lemma keeps_settled_classify: "keeps settled ursus_ubi_classify_active_fip"
proof -
  have rv: "keeps settled m" if "keeps rview m" "keeps kept m" for m :: "('x fip_world_scheme, 'r) state"
    using that by (auto simp: keeps_def settled_def kept_def)
  have mode: "keeps settled (set_mode m y)" for m y
    unfolding set_mode_def set_up_def
    by (intro keeps_intros) (simp add: settled_def rview_def cvols_def vols_def ram_off_def fun_eq_iff)
  have time: "ignores_time settled"
    by (simp add: settled_def [abs_def] view_defs rview_def cvols_def vols_def ram_off_def fun_eq_iff)
  show ?thesis
    unfolding ursus_ubi_classify_active_fip_def Let_def
    by (intro mode keeps_intros rv keeps_run_read_rview keeps_kept_read keeps_open_rview keeps_close_rview
        keeps_open_volume_nm keeps_close_volume time kept_ignores) simp_all
qed

lemma up_ubi_attach_inv:
  assumes "placed addr cand" "carries addr cand w" "stage_ok old cand URSUS_UP_UBI_ATTACH w"
  shows "wp up_ubi_attach (\<lambda>_. up_inv old addr cand) w"
proof -
  have t: "attached w \<longrightarrow> tidy ''fip'' w" "fc_ubi_layout (ursus_up w)"
    using assms(3) by simp_all
  have fin: "up_inv old addr cand (v'\<lparr>ursus_up := (ursus_up v')\<lparr>fc_last_success_stage := l, fc_stage := URSUS_UP_UBI_STAGE_PREP\<rparr>\<rparr>)"
    if "settled v' = settled v" "kept v = kept w" "tidy ''fip'' v" for v v' :: "'a fip_world_scheme" and l
  proof -
    have "carries addr cand v" "fc_ubi_layout (ursus_up v)"
      using carries_kept [OF assms(1) that(2)] assms(2) t(2) that(2) by (simp_all add: kept_def)
    then have "carries addr cand v'" "fc_ubi_layout (ursus_up v')"
      using that(1) ram_off_read [of URSUS_UBI_READBACK_ADDR URSUS_UBI_FIP_VOL_SIZE v' v addr "length cand"] assms(1)
      by (auto simp: settled_def carries_def placed_def)
    moreover have "tidy ''fip'' v'"
      using rview_same(1) [of v' v] that(1,3) by (simp add: settled_def)
    ultimately show ?thesis
      by (simp add: up_inv_def carries_def)
  qed
  have rest: "wp (do {
       r \<leftarrow> ursus_ubi_classify_active_fip;
       c \<leftarrow> gets ursus_up;
       if r \<noteq> 0 then ursus_update_fail_reason r ''UBI_ACTIVE_FIP_CLASSIFY_FAILED''
       else if fc_mode c \<noteq> URSUS_UBI_FIP_NORMAL \<and> fc_kind c \<noteq> URSUS_FIP_KIND_URSUS
       then if fc_mode c = URSUS_UBI_FIP_REPAIR_MISSING
            then ursus_update_fail_reason (- ENOENT) ''UBI_ACTIVE_FIP_MISSING''
            else ursus_update_fail_reason (- EBADMSG) ''UBI_ACTIVE_FIP_INVALID''
       else up_advance URSUS_UP_UBI_ATTACH URSUS_UP_UBI_STAGE_PREP }) (\<lambda>_. up_inv old addr cand) v"
    if "kept v = kept w" "tidy ''fip'' v" for v :: "'a fip_world_scheme"
    by (rule wp_bindI [OF keeps_wp [OF keeps_settled_classify]]) (use fin that in auto)
  show ?thesis
    unfolding up_ubi_attach_def
    by (rule wp_bindI [OF wp_ensure_attachment [OF t(1)]]) (use rest in \<open>simp only: wp_if\<close>, simp)
qed

section \<open>The first stage and the stock layout\<close>

text \<open>What detection and validation leave alone.\<close>

definition steady :: "'x fip_world_scheme \<Rightarrow> _" where
  "steady w = (ursus_up w, ram w, ubi w, media w, nand w, mtds w, orc w)"

lemma steady_same:
  assumes "steady w' = steady w"
  shows "ursus_up w' = ursus_up w" "ram w' = ram w" "attached w' = attached w"
    "tidy n w' = tidy n w" "boot_area w' = boot_area w" "masters_flat w' = masters_flat w"
    "orc w' = orc w"
  using assms by (simp_all add: steady_def attached_def tidy_def vols_def vnames_def boot_area_def masters_flat_def)

lemma ignores_time_steady [simp]: "ignores_time steady"
  by (simp add: view_defs steady_def)

lemma wp_detect:
  "wp ursus_detect_ubi_layout (\<lambda>l w'. steady w' = steady w \<and> (\<forall>b. l = Inr b \<longrightarrow> masters_flat w \<longrightarrow> chip_flat w')) w"
proof (rule wp_conj)
  show "wp ursus_detect_ubi_layout (\<lambda>_ w'. steady w' = steady w) w"
    unfolding ursus_detect_ubi_layout_def by (intro keeps_wp keeps_intros) (simp_all add: steady_def view_defs)
  have flat: "mtd_offset chip = 0"
    if "find (\<lambda>m. \<not> mtd_is_partition m \<and> (mtd_type m = MTD_NANDFLASH \<or> mtd_type m = MTD_MLCNANDFLASH)) (mtds w) = Some chip"
      "masters_flat w" for chip
    using that by (auto simp: masters_flat_def find_Some_iff)
  have rd: "wp (ursus_read_exact chip a n) (\<lambda>_ w'. ursus_update_nand w' = ursus_update_nand v) v"
    for chip a n and v :: "'a fip_world_scheme"
    by (intro keeps_wp keeps_intros) (simp add: view_defs)
  show "wp ursus_detect_ubi_layout (\<lambda>l w'. \<forall>b. l = Inr b \<longrightarrow> masters_flat w \<longrightarrow> chip_flat w') w"
    using flat
    by (auto simp: ursus_detect_ubi_layout_def ursus_find_master_nand_def chip_flat_def split: option.split
        intro!: wp_mono [OF rd])
qed

lemma up_precheck_inv:
  assumes "carries addr cand w" "stage_ok old cand URSUS_UP_PRECHECK w"
  shows "wp up_precheck (\<lambda>_. up_inv old addr cand) w"
proof -
  let ?f = "\<lambda>w :: 'a fip_world_scheme. (steady w, chip_flat w)"
  have time: "ignores_time ?f"
    by (simp add: view_defs steady_def chip_flat_def)
  have fin: "up_inv old addr cand (v\<lparr>ursus_up := (ursus_up v)\<lparr>fc_last_success_stage := l,
        fc_stage := if b then URSUS_UP_UBI_ATTACH else URSUS_UP_STOCK_BACKUP\<rparr>\<rparr>)"
    if "?f v = ?f (u\<lparr>ursus_up := (ursus_up u)\<lparr>fc_ubi_layout := b\<rparr>\<rparr>)" "steady u = steady w" "chip_flat u"
      "\<not> b \<longrightarrow> length cand < URSUS_STOCK_FIP_MAX" for u v :: "'a fip_world_scheme" and b l
  proof -
    note s = steady_same [OF that(2)]
    have v: "steady v = steady (u\<lparr>ursus_up := (ursus_up u)\<lparr>fc_ubi_layout := b\<rparr>\<rparr>)" "chip_flat v"
      using that(1,3) by simp_all
    note s' = steady_same [OF v(1)]
    show ?thesis
      using assms s s' v(2) that(4) by (simp add: up_inv_def carries_def)
  qed
  have tail: "wp (do {
         c \<leftarrow> gets ursus_up;
         r \<leftarrow> ursus_fip_validate_kind (fc_addr c) (fc_len c) (\<not> fc_ubi_layout c) (fc_kind c);
         if r \<noteq> 0 then ursus_update_fail_reason r ''PRECHECK_FIP_VALIDATE_FAILED''
         else do {
           r \<leftarrow> (if fc_kind c = URSUS_FIP_KIND_VANILLA then ursus_ubi_installed_bl2_matches_pin else ret 0);
           if r \<noteq> 0 then ursus_update_fail_reason r ''PRECHECK_INSTALLED_BL2_NOT_PINNED''
           else up_advance URSUS_UP_PRECHECK
                  (if fc_ubi_layout c then URSUS_UP_UBI_ATTACH else URSUS_UP_STOCK_BACKUP)
         } }) (\<lambda>_. up_inv old addr cand) (u\<lparr>ursus_up := (ursus_up u)\<lparr>fc_ubi_layout := b\<rparr>\<rparr>)"
    if "steady u = steady w" "chip_flat u" for u :: "'a fip_world_scheme" and b
  proof -
    have k: "fc_kind (ursus_up u) = URSUS_FIP_KIND_URSUS" "mem_read (fc_addr (ursus_up u)) (fc_len (ursus_up u)) (ram u) = cand"
      using assms(1) steady_same(1,2) [OF that(1)] by (simp_all add: carries_def)
    show ?thesis
      by (simp only: wp_bind wp_gets, rule wp_mono [OF wp_conj [OF keeps_wp [of ?f] wp_fip_validate_kind]], intro keeps_intros time)
         (use fin that k in \<open>auto simp: accepted_fip_def split: if_splits\<close>)
  qed
  show ?thesis
    unfolding up_precheck_def
  proof (rule wp_bindI [OF wp_detect], goal_cases)
    case (1 l u)
    then show ?case
      using tail [of u] assms(2) by (cases l) (simp_all only: sum.case wp_bind wp_set_up stage_ok.simps simp_thms, simp)
  qed
qed

lemma length_patch: "off + length xs \<le> length buf \<Longrightarrow> length (patch off xs buf) = length buf"
  by (simp add: patch_def)

lemma length_stock_image:
  "length old = URSUS_STOCK_BOOT_SIZE \<Longrightarrow> length fip < URSUS_STOCK_FIP_MAX \<Longrightarrow>
   length (stock_image old fip) = URSUS_STOCK_BOOT_SIZE"
  unfolding stock_image_def
  by (subst length_patch; simp add: length_patch URSUS_STOCK_FIP_MAX_def URSUS_STOCK_ENV_OFF_def URSUS_STOCK_FIP_OFF_def
      URSUS_STOCK_BOOT_SIZE_def)

text \<open>What the stock stages leave alone apart from the flash.\<close>

definition stock_kept :: "'x fip_world_scheme \<Rightarrow> _" where
  "stock_kept w = ((\<lambda>c. (fc_addr c, fc_len c, fc_kind c, fc_ubi_layout c)) (ursus_up w), ram w, ursus_update_nand w)"

lemma stock_kept_same:
  assumes "stock_kept w' = stock_kept w"
  shows "carries addr cand w' = carries addr cand w" "chip_flat w' = chip_flat w"
    "fc_ubi_layout (ursus_up w') = fc_ubi_layout (ursus_up w)"
  using assms by (simp_all add: stock_kept_def carries_def chip_flat_def)

lemma stock_kept_ignores [simp]: "ignores_time stock_kept" "ignores_flash stock_kept"
  by (simp_all add: view_defs stock_kept_def)

lemma keeps_stock_kept_set: "(\<And>c. fc_addr (f c) = fc_addr c \<and> fc_len (f c) = fc_len c \<and> fc_kind (f c) = fc_kind c
     \<and> fc_ubi_layout (f c) = fc_ubi_layout c) \<Longrightarrow> keeps (\<lambda>w. (stock_kept w, nand w)) (set_up f)"
  unfolding set_up_def by (rule keeps_modify) (simp add: stock_kept_def)

lemma up_stock_compose_inv:
  assumes "carries addr cand w" "chip_flat w" "\<not> fc_ubi_layout (ursus_up w)" "length cand < URSUS_STOCK_FIP_MAX"
    and "length old = URSUS_STOCK_BOOT_SIZE"
  shows "wp (up_stock_compose old) (\<lambda>_. up_inv old addr cand) w"
proof -
  let ?f = "\<lambda>w :: 'a fip_world_scheme. (ursus_up w, ram w, ursus_update_nand w)"
  have "wp (ursus_fip_validate_current buf) (\<lambda>_ v. ?f v = ?f w) w" for buf
    by (intro keeps_wp keeps_intros) (simp add: view_defs)
  then show ?thesis
    unfolding up_stock_compose_def wp_bind
    by (rule wp_mono)
       (use assms in \<open>auto simp: up_inv_def carries_def ram_read_def chip_flat_def split: sum.split\<close>)
qed

lemma up_stock_backup_inv:
  assumes "carries addr cand w" "stage_ok old cand URSUS_UP_STOCK_BACKUP w"
  shows "wp up_stock_backup (\<lambda>_. up_inv old addr cand) w"
proof -
  let ?f = "\<lambda>w :: 'a fip_world_scheme. (stock_kept w, nand w)"
  have flat: "mtd_offset (the (ursus_update_nand w)) = 0" and area: "mem_read 0 URSUS_STOCK_BOOT_SIZE (nand w) = old"
    and rest: "\<not> fc_ubi_layout (ursus_up w)" "length cand < URSUS_STOCK_FIP_MAX" "chip_flat w"
    using assms(2) by (simp_all add: chip_flat_def boot_area_def)
  have len: "length old = URSUS_STOCK_BOOT_SIZE"
    by (simp add: area [symmetric])
  have time: "ignores_time ?f"
    by (intro ignores_time_pair stock_kept_ignores) (simp add: view_defs)
  have compose: "wp (do { set_up (\<lambda>c. c\<lparr>fc_stock_candidate := Some d\<rparr>);
      if r \<noteq> 0 then ursus_update_fail r else up_stock_compose d }) (\<lambda>_. up_inv old addr cand) v"
    if "r = 0 \<longrightarrow> d = old" "?f v = ?f w" for r d and v :: "'a fip_world_scheme"
  proof -
    have v: "carries addr cand v" "chip_flat v" "\<not> fc_ubi_layout (ursus_up v)"
      using stock_kept_same [where w' = v and w = w] that(2) assms(1) rest by simp_all
    have "wp (up_stock_compose old) (\<lambda>_. up_inv old addr cand) (v\<lparr>ursus_up := (ursus_up v)\<lparr>fc_stock_candidate := x\<rparr>\<rparr>)" for x
      using v rest(2) len by (intro up_stock_compose_inv) (simp_all add: carries_def)
    with that(1) show ?thesis by simp
  qed
  have read: "wp (do { (r, d) \<leftarrow> ursus_read_exact (the (ursus_update_nand w)) 0 URSUS_STOCK_BOOT_SIZE;
      set_up (\<lambda>c. c\<lparr>fc_stock_candidate := Some d\<rparr>);
      if r \<noteq> 0 then ursus_update_fail r else up_stock_compose d }) (\<lambda>_. up_inv old addr cand) v"
    if "?f v = ?f w" for v :: "'a fip_world_scheme"
    by (rule wp_bindI [OF wp_conj [OF wp_read_exact keeps_wp [where f = ?f]]], intro keeps_intros time)
       (use compose that flat area in \<open>auto simp del: wp_bind\<close>)
  have fork: "wp (if b then ursus_update_fail e else m) (\<lambda>_. up_inv old addr cand) v"
    if "\<not> b \<Longrightarrow> wp m (\<lambda>_. up_inv old addr cand) v" for b e m v
    using that by simp
  have malloc: "keeps ?f (malloc_buf n)" and bad: "keeps ?f (ursus_bad_in_range chip a n)" for n chip a
    by (intro keeps_intros time)+
  show ?thesis
    unfolding up_stock_backup_def wp_bind [of "gets _"] wp_gets
    by (rule wp_bind_keeps [OF bad], rule fork, rule wp_bind_keeps [OF malloc], rule wp_bind_keeps [OF malloc],
        rule wp_bind_keeps [OF keeps_stock_kept_set], simp, rule fork, rule read, simp)
qed

lemma up_stock_erase_inv:
  assumes "carries addr cand w" "stage_ok old cand URSUS_UP_STOCK_ERASE w"
  shows "wp up_stock_erase (\<lambda>_. up_inv old addr cand) w"
proof -
  let ?f = "\<lambda>w :: 'a fip_world_scheme. (ursus_up w, ram w, ursus_update_nand w)"
  have "wp (mtd_erase chip 0 n) (\<lambda>_ v'. ?f v' = ?f v) v" for chip n and v :: "'a fip_world_scheme"
    by (intro keeps_wp keeps_mtd_erase) (simp_all add: view_defs)
  then show ?thesis
    unfolding up_stock_erase_def wp_bind wp_gets wp_set_up
    by (rule wp_mono) (use assms in \<open>auto simp: up_inv_def carries_def chip_flat_def\<close>)
qed

lemma up_stock_write_inv:
  assumes "carries addr cand w" "stage_ok old cand URSUS_UP_STOCK_WRITE w"
  shows "wp up_stock_write (\<lambda>_. up_inv old addr cand) w"
proof -
  let ?f = "\<lambda>w :: 'a fip_world_scheme. (ursus_up w, ram w, ursus_update_nand w)"
  have "wp (mtd_write chip 0 d) (\<lambda>_ v'. ?f v' = ?f v) v" for chip d and v :: "'a fip_world_scheme"
    by (intro keeps_wp keeps_mtd_write) (simp_all add: view_defs)
  then show ?thesis
    unfolding up_stock_write_def wp_bind wp_gets
    by (rule wp_mono) (use assms in \<open>auto simp: up_inv_def carries_def chip_flat_def\<close>)
qed

lemma up_stock_verify_inv:
  assumes "carries addr cand w" "stage_ok old cand URSUS_UP_STOCK_VERIFY w"
  shows "wp up_stock_verify (\<lambda>_. up_inv old addr cand) w"
proof -
  let ?f = "\<lambda>w :: 'a fip_world_scheme. (ursus_up w, ram w, ursus_update_nand w, nand w)"
  have w: "the (fc_stock_candidate (ursus_up w)) = stock_image old cand" "mtd_offset (the (ursus_update_nand w)) = 0"
    "\<not> fc_ubi_layout (ursus_up w)" "length (stock_image old cand) = URSUS_STOCK_BOOT_SIZE"
    using assms(2) length_stock_image by (simp_all add: chip_flat_def)
  have "wp (ursus_read_exact (the (ursus_update_nand w)) 0 n)
     (\<lambda>p v. (case p of (r, d) \<Rightarrow> r = 0 \<longrightarrow> d = mem_read 0 n (nand w)) \<and> ?f v = ?f w) w" for n
    by (rule wp_mono [OF wp_conj [OF wp_read_exact keeps_wp [where f = ?f]]], intro keeps_intros)
       (use w(2) in \<open>auto simp: view_defs\<close>)
  then show ?thesis
    unfolding up_stock_verify_def wp_bind wp_gets w(1)
    by (rule wp_mono)
       (use assms(1) w in \<open>auto simp: up_inv_def carries_def boot_area_def split: if_splits\<close>)
qed

section \<open>The step and the loop\<close>

lemmas up_stage_inv = up_precheck_inv up_stock_backup_inv up_stock_erase_inv up_stock_write_inv up_stock_verify_inv
  up_ubi_attach_inv up_stage_prep_inv up_stage_write_inv up_stage_verify_inv up_promote_inv up_ubi_verify_inv up_rollback_inv

lemma up_execute_inv:
  assumes "placed addr cand" "carries addr cand w" "stage_ok old cand st w"
  shows "wp (up_execute st) (\<lambda>_. up_inv old addr cand) w"
  by (cases st; use assms in \<open>auto simp only: up_execute_def ursus_up_stage.case wp_fail_inv intro!: up_stage_inv\<close>)

lemma stage_ok_announced:
  "stage_ok old cand st w \<Longrightarrow> stage_ok old cand st (w\<lparr>ursus_up := (ursus_up w)\<lparr>fc_announced := b\<rparr>\<rparr>)"
  "stage_ok old cand st w \<Longrightarrow> stage_ok old cand st (w\<lparr>ursus_up := (ursus_up w)\<lparr>fc_announced := b, fc_announced_at := t\<rparr>\<rparr>)"
  by (cases st; simp)+

lemma up_step_inv:
  assumes "placed addr cand" "up_inv old addr cand w"
  shows "wp ursus_fip_update_step (\<lambda>_. up_inv old addr cand) w"
proof (cases "fc_active (ursus_up w)")
  case True
  then have ok: "carries addr cand w" "stage_ok old cand (fc_stage (ursus_up w)) w"
    using assms(2) by (simp_all add: up_inv_def)
  have run: "wp (up_execute (fc_stage (ursus_up w))) (\<lambda>_. up_inv old addr cand)
      (w\<lparr>ursus_up := (ursus_up w)\<lparr>fc_announced := False\<rparr>\<rparr>)"
    using ok by (intro up_execute_inv assms(1) stage_ok_announced) (simp_all add: carries_def)
  have ann: "up_inv old addr cand (w\<lparr>ursus_up := (ursus_up w)\<lparr>fc_announced := True, fc_announced_at := t\<rparr>\<rparr>)" for t
    using ok stage_ok_announced(2) [OF ok(2)] by (simp add: up_inv_def carries_def del: stage_ok.simps)
  show ?thesis
    using True run ann assms(2) by (simp add: ursus_fip_update_step_def)
qed (use assms in \<open>simp add: ursus_fip_update_step_def\<close>)

text \<open>A machine that has stopped is complete or has an error.\<close>

definition reported :: "'x fip_world_scheme \<Rightarrow> bool" where
  "reported w = (fc_active (ursus_up w) \<or> fc_stage (ursus_up w) = URSUS_UP_COMPLETE \<or> fc_error (ursus_up w) \<noteq> 0)"

lemma up_step_reported:
  assumes "reported w"
  shows "wp ursus_fip_update_step (\<lambda>_. reported) w"
proof (cases "fc_active (ursus_up w) \<and> fc_announced (ursus_up w)
    \<and> URSUS_UPDATE_STAGE_HOLD_MS \<le> clock w - fc_announced_at (ursus_up w)")
  case True
  then show ?thesis
    by (intro wp_mono [OF wp_fip_step_due]) (auto simp: up_outcome_def reported_def split: if_splits)
next
  case False
  then show ?thesis
    using assms by (auto simp: ursus_fip_update_step_def reported_def)
qed

lemma mdelay_inv: "wp (mdelay n) (\<lambda>_. up_inv old addr cand) w = up_inv old addr cand w"
proof -
  have "stage_ok old cand st (w\<lparr>clock := t\<rparr>) = stage_ok old cand st w" for st t
    by (cases st; simp add: attached_def tidy_def vols_def vnames_def boot_area_def masters_flat_def chip_flat_def
        static_named_def vview_def stored_def vol_data_def vol_byte_def [abs_def])
  then show ?thesis
    by (simp add: up_inv_def carries_def mdelay_def del: stage_ok.simps)
qed

lemma up_arm_inv:
  assumes "attached v \<longrightarrow> tidy ''fip'' v" "masters_flat v" "\<not> fc_announced (ursus_up v)"
  shows "wp (up_arm addr len kind u) (\<lambda>r w'. r = 0 \<longrightarrow>
     up_inv (boot_area v) addr (mem_read addr len (ram v)) w' \<and> fc_active (ursus_up w')
     \<and> accepted_fip (orc v) False (mem_read addr len (ram v))) v"
  unfolding up_arm_def wp_bind
proof (rule wp_mono [OF wp_conj [OF wp_fip_validate_kind keeps_wp [of steady]]], intro keeps_intros ignores_time_steady, goal_cases)
  case (1 r v')
  note s = steady_same [of v' v]
  from 1 show ?case
    using assms s
    by (auto simp: up_inv_def carries_def ram_read_def accepted_fip_def)
qed

lemma up_start_inv:
  assumes "attached w \<longrightarrow> tidy ''fip'' w" "masters_flat w"
  shows "wp (ursus_fip_update_start_kind addr len kind) (\<lambda>r w'. r = 0 \<longrightarrow>
     up_inv (boot_area w) addr (mem_read addr len (ram w)) w' \<and> fc_active (ursus_up w')
     \<and> accepted_fip (orc w) False (mem_read addr len (ram w))) w"
proof (cases "fc_active (ursus_up w)")
  case False
  let ?w = "w\<lparr>ursus_up := zero_up\<rparr>"
  let ?R = "\<lambda>r w'. r = 0 \<longrightarrow> up_inv (boot_area w) addr (mem_read addr len (ram w)) w' \<and> fc_active (ursus_up w')
     \<and> accepted_fip (orc w) False (mem_read addr len (ram w))"
  have arm: "wp (up_arm addr len kind u) ?R v" if "steady v = steady ?w" for u and v :: "'a fip_world_scheme"
    using up_arm_inv [of v addr len kind u] steady_same [OF that] assms by (simp add: zero_up_def)
  have "wp (do { l \<leftarrow> ursus_detect_ubi_layout; case l of Inl e \<Rightarrow> ret e | Inr u \<Rightarrow> up_arm addr len kind u }) ?R ?w"
  proof (rule wp_bindI [OF wp_conj [OF wp_detect_error wp_detect]], goal_cases)
    case (1 l v)
    then show ?case
      using arm by (cases l) simp_all
  qed
  then show ?thesis
    using False by (simp only: ursus_fip_update_start_kind_def wp_bind wp_gets wp_if wp_set_up if_False)
qed (simp add: ursus_fip_update_start_kind_def)

section \<open>Properties\<close>

text \<open>
  C8: every step of the boot loader update keeps the invariant of its stages, whatever faults occur:
  once staged, \<open>fip.new\<close> is a static volume; after staging it has the length of the candidate; after
  verification it holds the candidate byte for byte; after promotion the active volume \<open>fip\<close> does;
  on the stock layout the image to be written is the old boot area with only the FIP replaced.
\<close>

theorem fip_step_keeps_invariant:
  assumes "placed addr cand" "up_inv old addr cand w"
  shows "up_inv old addr cand (snd (run_state ursus_fip_update_step w))"
  using up_step_inv [OF assms] by (simp add: wp_def split_beta)

text \<open>The witness is about to promote a verified candidate.\<close>

definition sample_updater :: "ursus_up_stage \<Rightarrow> fip_world" where
  "sample_updater st =
     ubi_world.extend (sample_engine\<lparr>ram := mem_write 0x82000000 [1, 2, 3] (\<lambda>_. 0), clock := 250,
          ubi := Some (sample_device ''ursus-ubi-full'' ''fip'' ''fip.new''), media := sample_media\<rparr>)
       (fip_world.fields
          (zero_up\<lparr>fc_addr := 0x82000000, fc_len := 3, fc_stage := st, fc_active := (st \<noteq> URSUS_UP_IDLE), fc_announced := True,
                   fc_ubi_layout := True\<rparr>) None None [] False)"

lemma sample_updater_simps [simp]:
  "ubi (sample_updater st) = Some (sample_device ''ursus-ubi-full'' ''fip'' ''fip.new'')"
  "media (sample_updater st) = sample_media" "ram (sample_updater st) = mem_write 0x82000000 [1, 2, 3] (\<lambda>_. 0)"
  "ursus_up (sample_updater st) =
     zero_up\<lparr>fc_addr := 0x82000000, fc_len := 3, fc_stage := st, fc_active := (st \<noteq> URSUS_UP_IDLE), fc_announced := True, fc_ubi_layout := True\<rparr>"
  "clock (sample_updater st) = 250" "mtds (sample_updater st) = []" "orc (sample_updater st) = sample_platform"
  by (simp_all add: sample_updater_def sample_engine_def sample_world_def world.extend_def ubi_world.extend_def
      ubi_world.fields_def fip_world.fields_def)

theorem fip_step_keeps_invariant_witness:
  "placed 0x82000000 [1, 2, 3]
   \<and> up_inv [] 0x82000000 [1, 2, 3] (sample_updater URSUS_UP_UBI_PROMOTE)
   \<and> up_inv [] 0x82000000 [1, 2, 3] (snd (run_state ursus_fip_update_step (sample_updater URSUS_UP_UBI_PROMOTE)))"
proof -
  have p: "placed 0x82000000 [1, 2, 3]"
    by (simp add: placed_def URSUS_UBI_READBACK_ADDR_def URSUS_UBI_FIP_VOL_SIZE_def)
  have i: "up_inv [] 0x82000000 [1, 2, 3] (sample_updater URSUS_UP_UBI_PROMOTE)"
    using sample_device_tidy [of "sample_updater URSUS_UP_UBI_PROMOTE"]
      sample_device_stored [of "sample_updater URSUS_UP_UBI_PROMOTE"]
    by (simp add: up_inv_def carries_def zero_up_def)
  show ?thesis
    using fip_step_keeps_invariant [OF p i] p i by blast
qed





end
