(* ===== verification/Fip_Safety.thy ===== *)
theory Fip_Safety
  imports Fip_Soundness
begin

text \<open>
  What a boot loader update leaves alone until it commits, and how its failures are reported.
\<close>

section \<open>The active volume before promotion\<close>

lemma spares_up [simp]: "spares ''fip'' w (v\<lparr>ursus_up := c\<rparr>) = spares ''fip'' w v"
  by (simp add: spares_def)

lemma wp_fail_spares [simp]:
  "wp (ursus_update_fail_reason r code) (\<lambda>_. spares ''fip'' w) = spares ''fip'' w" "wp (ursus_update_fail r) (\<lambda>_. spares ''fip'' w) = spares ''fip'' w"
  by (simp_all add: ursus_update_fail_def ursus_update_fail_reason_def fun_eq_iff)

lemma spares_quietly: "spares ''fip'' w v \<Longrightarrow> n \<noteq> ''fip'' \<Longrightarrow> wp (remove_quietly n) (\<lambda>_. spares ''fip'' w) v"
  unfolding remove_quietly_def
  by (rule wp_bind_keeps [OF keeps_run_check [of "\<lambda>w. w"]]) (auto intro: spares_remove)

lemma spares_create_new: "spares ''fip'' w v \<Longrightarrow> wp (up_create_new h) (\<lambda>_. spares ''fip'' w) v"
proof -
  assume s: "spares ''fip'' w v"
  have "wp (run_ubi (Ubi_create ''fip.new'' 0x100000 False None)) (\<lambda>_. spares ''fip'' w) v"
    using s by (rule spares_create) simp
  then show ?thesis
    unfolding up_create_new_def using s by (auto elim!: wp_mono)
qed

text \<open>The active FIP has not been found structurally broken; \<open>-ENODEV\<close> marks an intact foreign one.\<close>

definition intact :: "ursus_up_ctx \<Rightarrow> bool" where
  "intact c = (fc_mode c = URSUS_UBI_FIP_REPAIR_INVALID \<longrightarrow> fc_invalid_ret c = - ENODEV)"

lemma spares_prep:
  assumes "spares ''fip'' w v" "intact (ursus_up v)"
  shows "wp up_stage_prep (\<lambda>_. spares ''fip'' w) v"
proof -
  have space: "wp (up_prep_space c) (\<lambda>_. spares ''fip'' w) u"
    if "spares ''fip'' w u" "intact c" for c u
    using that spares_create_new [OF that(1)]
    by (auto simp: intact_def up_prep_space_def ursus_ubi_fip_new_headroom_def split: option.split)
  have bad: "wp (do { remove_quietly ''fip.bad''; up_prep_space c }) (\<lambda>_. spares ''fip'' w) u"
    if "spares ''fip'' w u" "intact c" for c u
    by (rule wp_bindI [OF spares_quietly [OF that(1)]]) (simp, rule space [OF _ that(2)])
  have old: "wp (do { when_m b (remove_quietly ''fip.old''); remove_quietly ''fip.bad''; up_prep_space c }) (\<lambda>_. spares ''fip'' w) u"
    if "spares ''fip'' w u" "intact c" for b c u
    by (rule wp_bindI [where P = "\<lambda>_. spares ''fip'' w"]) (use that bad spares_quietly [OF that(1)] in auto)
  have "wp (do { remove_quietly ''fip.new''; when_m b (remove_quietly ''fip.old''); remove_quietly ''fip.bad''; up_prep_space c })
      (\<lambda>_. spares ''fip'' w) (v\<lparr>ursus_up := x\<rparr>)" if "intact c" for b c x
    by (rule wp_bindI [OF spares_quietly]) (use assms(1) in simp, simp, rule old [OF _ that])
  then show ?thesis
    using assms(2) by (simp only: up_stage_prep_def wp_bind wp_set_up wp_gets) (simp add: intact_def)
qed

lemma spares_write: "spares ''fip'' w v \<Longrightarrow> wp up_stage_write (\<lambda>_. spares ''fip'' w) v"
proof -
  assume s: "spares ''fip'' w v"
  have "wp (run_ubi (Ubi_write a ''fip.new'' n)) (\<lambda>_. spares ''fip'' w) v" for a n
    using s by (rule spares_write_other) simp
  then show ?thesis
    unfolding up_stage_write_def wp_bind wp_gets by (rule wp_mono) auto
qed

lemma spares_verify: "spares ''fip'' w v \<Longrightarrow> wp up_stage_verify (\<lambda>_. spares ''fip'' w) v"
proof -
  assume s: "spares ''fip'' w v"
  have val: "wp (ursus_fip_validate_kind a n st k) (\<lambda>_. spares ''fip'' w) u" if "spares ''fip'' w u" for a n st k u
    by (rule spares_rview [OF _ that]) (intro keeps_intros rview_ignores)
  show ?thesis
    unfolding up_stage_verify_def
    by (auto simp: ram_read_def intro!: wp_mono [OF spares_rview [OF keeps_run_read_rview s]] wp_mono [OF val])
qed

lemma spares_attach:
  assumes "spares ''fip'' w v"
  shows "wp up_ubi_attach (\<lambda>_. spares ''fip'' w) v"
proof -
  let ?f = "\<lambda>w :: 'a fip_world_scheme. (ubi w, media w)"
  have free: "update_parts_free ?f"
    by (simp add: update_parts_free_def view_defs)
  have sp: "spares ''fip'' w u" if "?f u = ?f v" for u
    by (rule spares_same [OF _ assms]) (use that in \<open>simp add: rview_def cvols_def vols_def\<close>)
  have "attached v"
    using assms tidy_attached by (auto simp: spares_def)
  then have ens: "wp ursus_update_ensure_ubi_attachment (\<lambda>_. spares ''fip'' w) v"
    unfolding ursus_update_ensure_ubi_attachment_def
    by (intro wp_bindI [OF keeps_wp [OF keeps_register_ubi_part [OF free]]])
       (auto simp: sp attached_def split: option.split)
  have "keeps rview ursus_ubi_classify_active_fip"
    using keeps_settled_classify by (auto simp: keeps_def settled_def)
  note cl = spares_rview [OF this]
  show ?thesis
    unfolding up_ubi_attach_def wp_bind
    by (rule wp_mono [OF ens]) (auto intro!: wp_mono [OF cl])
qed

section \<open>Properties\<close>

text \<open>
  C3: until promotion the active boot loader stays in place: with a device attached, no step of the
  attach, prepare, write and verify stages changes what the volume \<open>fip\<close> holds, whatever faults
  occur, unless the active FIP has been found structurally broken.  An intact
  foreign FIP is never given up for its space.
\<close>

theorem active_fip_kept_until_promotion:
  assumes "tidy ''fip'' w" "stored ''fip'' x w" "fc_active (ursus_up w)"
    and "intact (ursus_up w)"
    and "fc_stage (ursus_up w) \<in> {URSUS_UP_UBI_ATTACH, URSUS_UP_UBI_STAGE_PREP, URSUS_UP_UBI_STAGE_WRITE, URSUS_UP_UBI_STAGE_VERIFY}"
  shows "stored ''fip'' x (snd (run_state ursus_fip_update_step w))"
proof -
  let ?w = "w\<lparr>ursus_up := (ursus_up w)\<lparr>fc_announced := False\<rparr>\<rparr>"
  have "spares ''fip'' w w"
    using assms(1) by (simp add: spares_def)
  then have "wp (up_execute (fc_stage (ursus_up w))) (\<lambda>_. spares ''fip'' w) ?w"
    using assms(4,5) spares_attach [of w ?w] spares_prep [of w ?w] spares_write [of w ?w] spares_verify [of w ?w]
    by (auto simp: up_execute_def intact_def)
  then have "wp ursus_fip_update_step (\<lambda>_. spares ''fip'' w) w"
    using assms(3) \<open>spares ''fip'' w w\<close> by (simp add: ursus_fip_update_step_def)
  then show ?thesis
    using assms(2) by (simp add: wp_def spares_def split_beta)
qed

theorem active_fip_kept_until_promotion_witness:
  "stored ''fip'' [1, 2, 3] (snd (run_state ursus_fip_update_step (sample_updater URSUS_UP_UBI_STAGE_PREP)))"
  by (rule active_fip_kept_until_promotion)
     (use sample_device_tidy [OF sample_updater_simps(1)] sample_device_stored [OF sample_updater_simps(1,2)] in
       \<open>simp_all add: zero_up_def intact_def\<close>)

text \<open>
  C21: a device that is attached to another partition is refused: the attach stage stops with
  \<open>UBI_ATTACHMENT_MISMATCH\<close> and neither the device nor the medium changes.  Saving the environment
  attaches the partition \<open>ubi\<close>, which is such a case.
\<close>

theorem foreign_attachment_refused:
  assumes "fc_active (ursus_up w)" "fc_announced (ursus_up w)" "fc_stage (ursus_up w) = URSUS_UP_UBI_ATTACH"
    and "URSUS_UPDATE_STAGE_HOLD_MS \<le> clock w - fc_announced_at (ursus_up w)" "fc_error_code (ursus_up w) = []"
    and "ursus_update_parts_ready w" "ubi w = Some d" "\<not> attached_to d (ursus_update_ubi_part w)"
  shows "case run_state ursus_fip_update_step w of (r, w') \<Rightarrow>
    r = - EXDEV \<and> fc_stage (ursus_up w') = URSUS_UP_FAILED \<and> fc_error_code (ursus_up w') = ''UBI_ATTACHMENT_MISMATCH''
    \<and> ubi w' = ubi w \<and> media w' = media w \<and> nand w' = nand w"
proof -
  have "wp ursus_fip_update_step (\<lambda>r w'. r = - EXDEV \<and> fc_stage (ursus_up w') = URSUS_UP_FAILED
      \<and> fc_error_code (ursus_up w') = ''UBI_ATTACHMENT_MISMATCH'' \<and> ubi w' = ubi w \<and> media w' = media w \<and> nand w' = nand w) w"
    using assms
    by (simp add: ursus_fip_update_step_def up_execute_def up_ubi_attach_def ursus_update_ensure_ubi_attachment_def
        ursus_update_register_ubi_part_def ursus_update_fail_reason_def snprintf_def)
  then show ?thesis
    by (simp add: wp_def)
qed

theorem foreign_attachment_refused_witness:
  "case run_state ursus_fip_update_step ((sample_updater URSUS_UP_UBI_ATTACH)\<lparr>ursus_update_parts_ready := True\<rparr>) of (r, w') \<Rightarrow>
    r = - EXDEV \<and> fc_stage (ursus_up w') = URSUS_UP_FAILED \<and> fc_error_code (ursus_up w') = ''UBI_ATTACHMENT_MISMATCH''
    \<and> ubi w' = ubi (sample_updater URSUS_UP_UBI_ATTACH) \<and> media w' = media (sample_updater URSUS_UP_UBI_ATTACH)
    \<and> nand w' = nand (sample_updater URSUS_UP_UBI_ATTACH)"
  using foreign_attachment_refused [of "(sample_updater URSUS_UP_UBI_ATTACH)\<lparr>ursus_update_parts_ready := True\<rparr>"
      "sample_device ''ursus-ubi-full'' ''fip'' ''fip.new''"]
  by (simp add: zero_up_def URSUS_UPDATE_STAGE_HOLD_MS_def attached_to_def)
     (simp add: sample_updater_def fip_world.fields_def ubi_world.extend_def)



end
