(* ===== verification/Fit_Update.thy ===== *)
theory Fit_Update
  imports Ubi_Engine Staged
begin

text \<open>
  Updating OpenWrt in the UBI layout, the \<open>ursus_upd\<close> machine of \<open>cmd/ursusubi.c\<close>: the image is
  written to a second volume \<open>fit.new\<close>, read back, and renamed over \<open>fit\<close>, which stays available
  as \<open>fit.old\<close>; when the space does not suffice, \<open>fit\<close> is replaced directly.
\<close>

section \<open>Names and failures\<close>

fun ursus_upd_stage_name :: "ursus_update_stage \<Rightarrow> string" where
  "ursus_upd_stage_name URSUS_UPD_PRECHECK = ''PRECHECK''"
| "ursus_upd_stage_name URSUS_UPD_STAGE_PREP = ''STAGE_PREP''"
| "ursus_upd_stage_name URSUS_UPD_STAGE_WRITE = ''STAGE_WRITE''"
| "ursus_upd_stage_name URSUS_UPD_STAGE_VERIFY = ''STAGE_VERIFY''"
| "ursus_upd_stage_name URSUS_UPD_PROMOTE = ''PROMOTE''"
| "ursus_upd_stage_name URSUS_UPD_FINAL_VERIFY = ''FINAL_VERIFY''"
| "ursus_upd_stage_name URSUS_UPD_COMPLETE = ''COMPLETE''"
| "ursus_upd_stage_name URSUS_UPD_FAILED = ''FAILED''"
| "ursus_upd_stage_name URSUS_UPD_IDLE = ''IDLE''"

fun ursus_upd_percent :: "ursus_update_stage \<Rightarrow> nat" where
  "ursus_upd_percent URSUS_UPD_PRECHECK = 5"
| "ursus_upd_percent URSUS_UPD_STAGE_PREP = 15"
| "ursus_upd_percent URSUS_UPD_STAGE_WRITE = 35"
| "ursus_upd_percent URSUS_UPD_STAGE_VERIFY = 60"
| "ursus_upd_percent URSUS_UPD_PROMOTE = 75"
| "ursus_upd_percent URSUS_UPD_FINAL_VERIFY = 90"
| "ursus_upd_percent URSUS_UPD_COMPLETE = 100"
| "ursus_upd_percent URSUS_UPD_FAILED = 100"
| "ursus_upd_percent URSUS_UPD_IDLE = 0"

definition set_upd :: "(ursus_update_ctx \<Rightarrow> ursus_update_ctx) \<Rightarrow> ('x, unit) engine" where
  "set_upd f = modify (\<lambda>w. w\<lparr>ursus_upd := f (ursus_upd w)\<rparr>)"

definition ursus_upd_fail_reason :: "int \<Rightarrow> string \<Rightarrow> ('x, int) engine" where
  "ursus_upd_fail_reason r code = do {
     set_upd (\<lambda>c. c\<lparr>uc_error := (if r \<noteq> 0 then r else - EIO), uc_failed_stage := uc_stage c,
                    uc_error_code := (if uc_error_code c = [] then snprintf 48 code else uc_error_code c),
                    uc_stage := URSUS_UPD_FAILED, uc_active := False, uc_announced := False\<rparr>);
     gets (\<lambda>w. uc_error (ursus_upd w))
   }"

definition ursus_upd_fail :: "int \<Rightarrow> ('x, int) engine" where
  "ursus_upd_fail r = do {
     st \<leftarrow> gets (\<lambda>w. uc_stage (ursus_upd w));
     ursus_upd_fail_reason r
       (snprintf 48 (ursus_upd_stage_name st @ ''_ERR_'' @ dec_int (if r \<noteq> 0 then - r else EIO)))
   }"

definition ursus_ubi_update_start :: "nat \<Rightarrow> nat \<Rightarrow> bool \<Rightarrow> ('x, int) engine" where
  "ursus_ubi_update_start fit_addr fit_len keep_settings = do {
     busy \<leftarrow> gets (\<lambda>w. uc_active (ursus_upd w) \<or> mc_active (ursus_mig w));
     if busy then ret (- EBUSY)
     else if fit_len = 0 \<or> fit_len > URSUS_FIT_MAX then ret (- EFBIG)
     else do {
       h \<leftarrow> fdt_check_header_at fit_addr;
       if h \<noteq> 0 then ret (- ENOEXEC)
       else do {
         set_upd (\<lambda>_. zero_upd\<lparr>uc_fit_addr := fit_addr, uc_fit_len := fit_len,
                                uc_keep_settings := keep_settings, uc_stage := URSUS_UPD_PRECHECK,
                                uc_active := True\<rparr>);
         ret 0
       }
     }
   }"

definition ursus_ubi_update_transaction_state :: "'x ubi_world_scheme \<Rightarrow> string" where
  "ursus_ubi_update_transaction_state w =
     (let c = ursus_upd w
      in if uc_stage c = URSUS_UPD_COMPLETE then ''COMPLETION_PROVEN''
         else if uc_stage c = URSUS_UPD_FAILED
         then if uc_write_started c then ''WRITE_STATE_UNKNOWN'' else ''NOT_STARTED''
         else if uc_active c \<and> uc_write_started c then ''IN_PROGRESS''
         else ''NOT_STARTED'')"

section \<open>The stages\<close>

definition upd_advance :: "ursus_update_stage \<Rightarrow> ursus_update_stage \<Rightarrow> ('x, int) engine" where
  "upd_advance here next = do {
     set_upd (\<lambda>c. c\<lparr>uc_last_success_stage := here, uc_stage := next\<rparr>);
     ret 0
   }"

text \<open>The reserved eraseblocks of a volume that can be opened.\<close>

definition volume_pebs :: "string \<Rightarrow> ('x world_scheme, nat option) state" where
  "volume_pebs n = do {
     desc \<leftarrow> ubi_open_volume_nm n UBI_READONLY;
     case desc of
       Inl _ \<Rightarrow> ret None
     | Inr i \<Rightarrow> do {
         v \<leftarrow> get_vol i;
         ubi_close_volume i UBI_READONLY;
         ret (Some (reserved_pebs v))
       }
   }"

definition u32 :: "int \<Rightarrow> nat" where
  "u32 x = nat (x mod 2 ^ 32)"

text \<open>
  Whether to replace \<open>fit\<close> directly: \<open>Some False\<close> when the candidate fits beside the volume in
  use, \<open>Some True\<close> when it fits in its place, \<open>None\<close> when it does not fit.
\<close>

definition upd_headroom :: "int \<Rightarrow> nat \<Rightarrow> nat \<Rightarrow> nat \<Rightarrow> bool option" where
  "upd_headroom avail reclaim fit_pebs required =
     (let current_headroom = u32 (avail + int reclaim)
      in if current_headroom \<ge> u32 (int (required + URSUS_UBI_STAGED_HEADROOM_LEBS)) then Some False
         else
           let preserve_headroom = min current_headroom URSUS_UBI_ROOTFS_FREE_RESERVE_LEBS;
               available_after_reclaim = u32 (int (current_headroom + fit_pebs))
           in if available_after_reclaim \<ge> u32 (int (required + preserve_headroom)) then Some True
              else None)"

definition upd_sizes :: "ubi_device \<Rightarrow> ('x, int) engine" where
  "upd_sizes d = do {
     len \<leftarrow> gets (\<lambda>w. uc_fit_len (ursus_upd w));
     old \<leftarrow> volume_pebs ''fit.old'';
     set_upd (\<lambda>c. c\<lparr>uc_fit_old_present := (old \<noteq> None \<or> uc_fit_old_present c)\<rparr>);
     new \<leftarrow> volume_pebs ''fit.new'';
     cur \<leftarrow> volume_pebs ''fit'';
     set_upd (\<lambda>c. case cur of None \<Rightarrow> c | Some n \<Rightarrow> c\<lparr>uc_fit_present := True, uc_fit_pebs := n\<rparr>);
     fit_pebs \<leftarrow> gets (\<lambda>w. uc_fit_pebs (ursus_upd w));
     let required = u32 (int ((len + leb_size d - 1) div leb_size d));
     let reclaim = (case old of None \<Rightarrow> 0 | Some n \<Rightarrow> n) + (case new of None \<Rightarrow> 0 | Some n \<Rightarrow> n);
     case upd_headroom (avail_pebs d) reclaim fit_pebs required of
       None \<Rightarrow> ursus_upd_fail_reason (- ENOSPC) ''PRECHECK_INSUFFICIENT_UBI_HEADROOM''
     | Some direct \<Rightarrow> do {
         set_upd (\<lambda>c. c\<lparr>uc_direct_mode := direct\<rparr>);
         upd_advance URSUS_UPD_PRECHECK URSUS_UPD_STAGE_PREP
       }
   }"

definition upd_check_manifest :: "('x, int) engine" where
  "upd_check_manifest = do {
     r \<leftarrow> ursus_ubi_verify_volume_manifest False;
     u \<leftarrow> gets ubi;
     if r \<noteq> 0 then ursus_upd_fail_reason r ''PRECHECK_VOLUME_MANIFEST_INVALID''
     else case u of
            None \<Rightarrow> ursus_upd_fail_reason (- ENODEV) ''PRECHECK_UBI_DEVICE_UNAVAILABLE''
          | Some d \<Rightarrow>
              if leb_size d = 0
              then ursus_upd_fail_reason (- ENODEV) ''PRECHECK_UBI_DEVICE_UNAVAILABLE''
              else upd_sizes d
   }"

definition upd_check_fip :: "('x, int) engine" where
  "upd_check_fip = do {
     c \<leftarrow> run_ubi (Ubi_check ''fip'');
     ok \<leftarrow> (if c \<noteq> 0 then ret False else ursus_ubi_volume_fip_valid ''fip'');
     if \<not> ok then ursus_upd_fail_reason (- EBADMSG) ''PRECHECK_FIP_INVALID''
     else upd_check_manifest
   }"

definition upd_precheck :: "('x, int) engine" where
  "upd_precheck = do {
     r \<leftarrow> ursus_ubi_register_mtd;
     if r \<noteq> 0 then ursus_upd_fail_reason r ''PRECHECK_MTD_REGISTER_FAILED''
     else do {
       r \<leftarrow> ursus_ubi_reattach;
       if r \<noteq> 0 then ursus_upd_fail_reason r ''PRECHECK_UBI_ATTACH_FAILED''
       else upd_check_fip
     }
   }"

text \<open>Remove a volume if it exists; true when that failed.\<close>

definition remove_existing :: "string \<Rightarrow> ('x world_scheme, bool) state" where
  "remove_existing n = do {
     c \<leftarrow> run_ubi (Ubi_check n);
     if c \<noteq> 0 then ret False
     else do { r \<leftarrow> run_ubi (Ubi_remove n); ret (r \<noteq> 0) }
   }"

text \<open>The volume that receives the candidate.\<close>

definition upd_target :: "ursus_update_ctx \<Rightarrow> string" where
  "upd_target c = (if uc_direct_mode c then ''fit'' else ''fit.new'')"

definition upd_stage_prep :: "('x, int) engine" where
  "upd_stage_prep = do {
     set_upd (\<lambda>c. c\<lparr>uc_write_started := True\<rparr>);
     c \<leftarrow> gets ursus_upd;
     b \<leftarrow> remove_existing ''fit.new'';
     if b then ursus_upd_fail (- EIO)
     else do {
       b \<leftarrow> remove_existing ''fit.old'';
       if b then ursus_upd_fail (- EIO)
       else do {
         b \<leftarrow> (if uc_direct_mode c then remove_existing ''fit'' else ret False);
         if b then ursus_upd_fail (- EIO)
         else do {
           r \<leftarrow> run_ubi (Ubi_create (upd_target c) (uc_fit_len c) True None);
           if r \<noteq> 0 then ursus_upd_fail r
           else upd_advance URSUS_UPD_STAGE_PREP URSUS_UPD_STAGE_WRITE
         }
       }
     }
   }"

definition upd_stage_write :: "('x, int) engine" where
  "upd_stage_write = do {
     c \<leftarrow> gets ursus_upd;
     r \<leftarrow> run_ubi (Ubi_write (uc_fit_addr c) (upd_target c) (uc_fit_len c));
     if r \<noteq> 0 then ursus_upd_fail r
     else upd_advance URSUS_UPD_STAGE_WRITE URSUS_UPD_STAGE_VERIFY
   }"

text \<open>Read a volume back and compare it with the candidate; the rest runs when they agree.\<close>

definition upd_readback :: "string \<Rightarrow> ('x, int) engine \<Rightarrow> ('x, int) engine" where
  "upd_readback n rest = do {
     c \<leftarrow> gets ursus_upd;
     r \<leftarrow> run_ubi (Ubi_read URSUS_UBI_READBACK_ADDR n (uc_fit_len c));
     e \<leftarrow> (if r \<noteq> 0 then ret 0 else ursus_mem_equal (uc_fit_addr c) URSUS_UBI_READBACK_ADDR (uc_fit_len c));
     if r \<noteq> 0 \<or> e \<noteq> 0 then ursus_upd_fail (if r \<noteq> 0 then r else - EBADMSG)
     else do {
       h \<leftarrow> fdt_check_header_at URSUS_UBI_READBACK_ADDR;
       if h \<noteq> 0 then ursus_upd_fail (- ENOEXEC) else rest
     }
   }"

definition upd_stage_verify :: "('x, int) engine" where
  "upd_stage_verify = do {
     c \<leftarrow> gets ursus_upd;
     upd_readback (upd_target c)
       (upd_advance URSUS_UPD_STAGE_VERIFY
          (if uc_direct_mode c then URSUS_UPD_FINAL_VERIFY else URSUS_UPD_PROMOTE))
   }"

definition upd_promote :: "('x, int) engine" where
  "upd_promote = do {
     k \<leftarrow> run_ubi (Ubi_check ''fit'');
     r \<leftarrow> (if k = 0 then run_ubi (Ubi_rename ''fit'' ''fit.old'') else ret 0);
     if r \<noteq> 0 then ursus_upd_fail r
     else do {
       r \<leftarrow> run_ubi (Ubi_rename ''fit.new'' ''fit'');
       if r \<noteq> 0 then ursus_upd_fail r
       else upd_advance URSUS_UPD_PROMOTE URSUS_UPD_FINAL_VERIFY
     }
   }"

text \<open>The settings policy: 0, or the error of the step.\<close>

definition upd_settings :: "bool \<Rightarrow> ('x, int) engine" where
  "upd_settings keep =
     (if \<not> keep then ursus_ubi_reset_settings
      else do {
        b \<leftarrow> ursus_ubi_current_rootfs_data;
        case b of
          Inl e \<Rightarrow> ret e
        | Inr (bytes, _) \<Rightarrow> do { ursus_ubi_store_rootfs_data_max bytes; ret 0 }
      })"

definition upd_final_verify :: "('x, int) engine" where
  "upd_final_verify = do {
     c \<leftarrow> gets ursus_upd;
     upd_readback ''fit'' (do {
       r \<leftarrow> upd_settings (uc_keep_settings c);
       if r \<noteq> 0 then ursus_upd_fail r
       else do {
         r \<leftarrow> ursus_ubi_verify_volume_manifest True;
         if r \<noteq> 0 then ursus_upd_fail r
         else do {
           set_upd (\<lambda>c. c\<lparr>uc_last_success_stage := URSUS_UPD_FINAL_VERIFY, uc_stage := URSUS_UPD_COMPLETE,
                          uc_active := False, uc_error := 0\<rparr>);
           ret 1
         }
       }
     })
   }"

definition upd_execute :: "ursus_update_stage \<Rightarrow> ('x, int) engine" where
  "upd_execute st =
     (case st of
        URSUS_UPD_PRECHECK \<Rightarrow> upd_precheck
      | URSUS_UPD_STAGE_PREP \<Rightarrow> upd_stage_prep
      | URSUS_UPD_STAGE_WRITE \<Rightarrow> upd_stage_write
      | URSUS_UPD_STAGE_VERIFY \<Rightarrow> upd_stage_verify
      | URSUS_UPD_PROMOTE \<Rightarrow> upd_promote
      | URSUS_UPD_FINAL_VERIFY \<Rightarrow> upd_final_verify
      | _ \<Rightarrow> ursus_upd_fail (- EINVAL))"

definition ursus_ubi_update_step :: "('x, int) engine" where
  "ursus_ubi_update_step = do {
     c \<leftarrow> gets ursus_upd;
     if \<not> uc_active c
     then ret (if uc_stage c = URSUS_UPD_COMPLETE then 1
               else if uc_stage c = URSUS_UPD_FAILED then uc_error c else 0)
     else if \<not> uc_announced c
     then do {
       t \<leftarrow> get_timer 0;
       set_upd (\<lambda>c. c\<lparr>uc_announced := True, uc_announced_at := t\<rparr>);
       ret 0
     }
     else do {
       dt \<leftarrow> get_timer (uc_announced_at c);
       if dt < URSUS_MIG_STAGE_HOLD_MS then ret 0
       else do {
         set_upd (\<lambda>c. c\<lparr>uc_announced := False\<rparr>);
         upd_execute (uc_stage c)
       }
     }
   }"

text \<open>The blocking form of the update; the first argument bounds the turns of its loop.\<close>

definition ursus_ubi_update_fit :: "nat \<Rightarrow> nat \<Rightarrow> nat \<Rightarrow> ('x, int option) engine" where
  "ursus_ubi_update_fit fuel fit_addr fit_len = do {
     r \<leftarrow> ursus_ubi_update_start fit_addr fit_len True;
     if r \<noteq> 0 then ret (Some r)
     else step_loop fuel (\<lambda>w. uc_active (ursus_upd w)) ursus_ubi_update_step (mdelay 10)
            (gets (\<lambda>w. if uc_stage (ursus_upd w) = URSUS_UPD_COMPLETE then 0 else uc_error (ursus_upd w)))
   }"

section \<open>The machine\<close>

text \<open>The order of the stages, and how a stage may end.\<close>

fun upd_successors :: "ursus_update_stage \<Rightarrow> ursus_update_stage list" where
  "upd_successors URSUS_UPD_PRECHECK = [URSUS_UPD_STAGE_PREP]"
| "upd_successors URSUS_UPD_STAGE_PREP = [URSUS_UPD_STAGE_WRITE]"
| "upd_successors URSUS_UPD_STAGE_WRITE = [URSUS_UPD_STAGE_VERIFY]"
| "upd_successors URSUS_UPD_STAGE_VERIFY = [URSUS_UPD_PROMOTE, URSUS_UPD_FINAL_VERIFY]"
| "upd_successors URSUS_UPD_PROMOTE = [URSUS_UPD_FINAL_VERIFY]"
| "upd_successors _ = []"

fun upd_rank :: "ursus_update_stage \<Rightarrow> nat" where
  "upd_rank URSUS_UPD_PRECHECK = 5"
| "upd_rank URSUS_UPD_STAGE_PREP = 4"
| "upd_rank URSUS_UPD_STAGE_WRITE = 3"
| "upd_rank URSUS_UPD_STAGE_VERIFY = 2"
| "upd_rank URSUS_UPD_PROMOTE = 1"
| "upd_rank _ = 0"

definition upd_at :: "ursus_update_stage \<Rightarrow> ursus_update_ctx \<Rightarrow> bool" where
  "upd_at st c = (uc_active c \<and> uc_stage c = st \<and> \<not> uc_announced c)"

definition upd_outcome :: "ursus_update_stage \<Rightarrow> int \<Rightarrow> ursus_update_ctx \<Rightarrow> bool" where
  "upd_outcome st r c =
     (if uc_active c then r = 0 \<and> \<not> uc_announced c \<and> uc_stage c \<in> set (upd_successors st)
      else if st = URSUS_UPD_FINAL_VERIFY \<and> uc_stage c = URSUS_UPD_COMPLETE then r = 1
      else uc_stage c = URSUS_UPD_FAILED \<and> uc_failed_stage c = st \<and> uc_error c = r \<and> r \<noteq> 0)"

lemma wp_set_upd [simp]: "wp (set_upd f) Q = (\<lambda>w. Q () (w\<lparr>ursus_upd := f (ursus_upd w)\<rparr>))"
  by (simp add: set_upd_def)

lemma ubi_free_upd: "ubi_free (\<lambda>w. p (ursus_upd w))"
  by (simp add: ubi_free_def view_defs)

lemma parts_free_upd: "parts_free (\<lambda>w. p (ursus_upd w))"
  by (simp add: parts_free_def view_defs)

lemma keeps_set_upd: "(\<And>c. p (f c) = p c) \<Longrightarrow> keeps (\<lambda>w. p (ursus_upd w)) (set_upd f)"
  by (simp add: set_upd_def keeps_modify)

lemma ens_upd_fail_reason:
  "ens (\<lambda>w. upd_at st (ursus_upd w)) (\<lambda>r w. upd_outcome st r (ursus_upd w)) (ursus_upd_fail_reason r code)"
  by (auto simp: ens_def ursus_upd_fail_reason_def upd_at_def upd_outcome_def)

lemma ens_upd_fail:
  "ens (\<lambda>w. upd_at st (ursus_upd w)) (\<lambda>r w. upd_outcome st r (ursus_upd w)) (ursus_upd_fail r)"
  unfolding ursus_upd_fail_def by (intro ens_bind keeps_intros ens_upd_fail_reason)

lemma ens_upd_advance:
  "next \<in> set (upd_successors st) \<Longrightarrow>
   ens (\<lambda>w. upd_at st (ursus_upd w)) (\<lambda>r w. upd_outcome st r (ursus_upd w)) (upd_advance here next)"
  by (auto simp: ens_def upd_advance_def upd_at_def upd_outcome_def)

lemma keeps_volume_pebs: "ubi_free f \<Longrightarrow> keeps f (volume_pebs n)"
  unfolding volume_pebs_def by (intro keeps_intros engine_frames)

lemma keeps_remove_existing: "ubi_free f \<Longrightarrow> keeps f (remove_existing n)"
  unfolding remove_existing_def by (intro keeps_intros engine_frames)

lemma keeps_upd_settings: "ubi_free f \<Longrightarrow> parts_free f \<Longrightarrow> keeps f (upd_settings b)"
  unfolding upd_settings_def by (intro keeps_intros engine_frames)

lemmas upd_frames = ens_intros ens_bind ens_upd_fail_reason ens_upd_fail ens_upd_advance keeps_intros
  engine_frames keeps_volume_pebs keeps_remove_existing keeps_upd_settings ubi_free_upd parts_free_upd

lemma ens_upd_precheck:
  "ens (\<lambda>w. upd_at URSUS_UPD_PRECHECK (ursus_upd w)) (\<lambda>r w. upd_outcome URSUS_UPD_PRECHECK r (ursus_upd w)) upd_precheck"
  unfolding upd_precheck_def upd_check_fip_def upd_check_manifest_def upd_sizes_def
  by (intro keeps_set_upd upd_frames; simp add: upd_at_def split: option.split)

lemma ens_upd_stage_prep:
  "ens (\<lambda>w. upd_at URSUS_UPD_STAGE_PREP (ursus_upd w)) (\<lambda>r w. upd_outcome URSUS_UPD_STAGE_PREP r (ursus_upd w)) upd_stage_prep"
  unfolding upd_stage_prep_def by (intro keeps_set_upd upd_frames; simp add: upd_at_def)

lemma ens_upd_stage_write:
  "ens (\<lambda>w. upd_at URSUS_UPD_STAGE_WRITE (ursus_upd w)) (\<lambda>r w. upd_outcome URSUS_UPD_STAGE_WRITE r (ursus_upd w)) upd_stage_write"
  unfolding upd_stage_write_def by (intro keeps_set_upd upd_frames; simp add: upd_at_def)

lemma ens_upd_stage_verify:
  "ens (\<lambda>w. upd_at URSUS_UPD_STAGE_VERIFY (ursus_upd w)) (\<lambda>r w. upd_outcome URSUS_UPD_STAGE_VERIFY r (ursus_upd w)) upd_stage_verify"
  unfolding upd_stage_verify_def upd_readback_def by (intro keeps_set_upd upd_frames; simp add: upd_at_def)

lemma ens_upd_promote:
  "ens (\<lambda>w. upd_at URSUS_UPD_PROMOTE (ursus_upd w)) (\<lambda>r w. upd_outcome URSUS_UPD_PROMOTE r (ursus_upd w)) upd_promote"
  unfolding upd_promote_def by (intro keeps_set_upd upd_frames; simp add: upd_at_def)

lemma ens_upd_complete:
  "ens (\<lambda>w. upd_at URSUS_UPD_FINAL_VERIFY (ursus_upd w)) (\<lambda>r w. upd_outcome URSUS_UPD_FINAL_VERIFY r (ursus_upd w))
     (do {
        set_upd (\<lambda>c. c\<lparr>uc_last_success_stage := URSUS_UPD_FINAL_VERIFY, uc_stage := URSUS_UPD_COMPLETE,
                       uc_active := False, uc_error := 0\<rparr>);
        ret 1
      })"
  by (simp add: ens_def upd_outcome_def)

lemma ens_upd_final_verify:
  "ens (\<lambda>w. upd_at URSUS_UPD_FINAL_VERIFY (ursus_upd w)) (\<lambda>r w. upd_outcome URSUS_UPD_FINAL_VERIFY r (ursus_upd w)) upd_final_verify"
  unfolding upd_final_verify_def upd_readback_def by (intro ens_upd_complete keeps_set_upd upd_frames)

lemma ens_upd_execute:
  "ens (\<lambda>w. upd_at st (ursus_upd w)) (\<lambda>r w. upd_outcome st r (ursus_upd w)) (upd_execute st)"
  by (cases st) (simp_all add: upd_execute_def ens_upd_precheck ens_upd_stage_prep ens_upd_stage_write
      ens_upd_stage_verify ens_upd_promote ens_upd_final_verify ens_upd_fail)

lemma wp_update_step_due:
  assumes "uc_active (ursus_upd w)" "uc_announced (ursus_upd w)"
    "URSUS_MIG_STAGE_HOLD_MS \<le> clock w - uc_announced_at (ursus_upd w)"
  shows "wp ursus_ubi_update_step (\<lambda>r w'. upd_outcome (uc_stage (ursus_upd w)) r (ursus_upd w')) w"
proof -
  have "wp (upd_execute (uc_stage (ursus_upd w)))
          (\<lambda>r w'. upd_outcome (uc_stage (ursus_upd w)) r (ursus_upd w'))
          (w\<lparr>ursus_upd := (ursus_upd w)\<lparr>uc_announced := False\<rparr>\<rparr>)"
    by (rule ensD [OF ens_upd_execute]) (use assms in \<open>simp add: upd_at_def\<close>)
  then show ?thesis
    using assms by (simp add: ursus_ubi_update_step_def)
qed

lemma upd_outcome_active:
  "upd_outcome st r c \<Longrightarrow> uc_active c \<Longrightarrow> \<not> uc_announced c \<and> upd_rank (uc_stage c) < upd_rank st"
  by (cases st) (auto simp: upd_outcome_def)

interpretation fit: staged_machine
  "\<lambda>w. uc_active (ursus_upd w)" "\<lambda>w. uc_stage (ursus_upd w)" "\<lambda>w. uc_announced (ursus_upd w)"
  "\<lambda>w. uc_announced_at (ursus_upd w)" "clock :: 'x ubi_world_scheme \<Rightarrow> nat" ursus_ubi_update_step "mdelay 10"
  URSUS_MIG_STAGE_HOLD_MS upd_rank
proof unfold_locales
  fix w :: "'x ubi_world_scheme"
  assume "uc_active (ursus_upd w)" "uc_announced (ursus_upd w)"
    "URSUS_MIG_STAGE_HOLD_MS \<le> clock w - uc_announced_at (ursus_upd w)"
  then show "wp ursus_ubi_update_step (\<lambda>r w'. uc_active (ursus_upd w') \<longrightarrow>
      \<not> uc_announced (ursus_upd w') \<and> upd_rank (uc_stage (ursus_upd w')) < upd_rank (uc_stage (ursus_upd w))) w"
    by (rule wp_mono [OF wp_update_step_due]) (blast dest: upd_outcome_active)
qed (simp_all add: ursus_ubi_update_step_def)

text \<open>The turns that the blocking form needs: six stages of at most 37 turns.\<close>

definition fit_fuel :: nat where "fit_fuel = 223"

lemma fit_turns: "fit.turns = 37"
  unfolding fit.turns_def by (simp add: URSUS_MIG_STAGE_HOLD_MS_def)

lemma wp_update_start:
  "wp (ursus_ubi_update_start a n k) (\<lambda>r w'. r = 0 \<longrightarrow>
      upd_at URSUS_UPD_PRECHECK (ursus_upd w')) w"
  by (simp add: ursus_ubi_update_start_def upd_at_def zero_upd_def fdt_check_header_at_def)

section \<open>Properties\<close>

text \<open>
  C19: the blocking OpenWrt update always returns: from any state and with any pattern of faults, the
  loop ends within 223 turns.
\<close>

theorem fit_update_returns:
  "\<exists>r. fst (run_state (ursus_ubi_update_fit fit_fuel fit_addr fit_len) w) = Some r"
proof -
  have "wp (ursus_ubi_update_fit fit_fuel fit_addr fit_len) (\<lambda>r _. r \<noteq> None) w"
    unfolding ursus_ubi_update_fit_def
  proof (rule wp_bindI [OF wp_update_start], simp only: wp_if wp_return, goal_cases)
    case (1 r w')
    have "fit.timely w' \<and> fit.turns_left w' < fit_fuel" if "r = 0"
      using 1 that fit.turns_left_le [of w']
      by (simp add: upd_at_def fit.timely_def fit_turns fit_fuel_def)
    then show ?case
      using fit.step_loop_ends by auto
  qed
  then show ?thesis
    by (auto simp: wp_def split: prod.splits)
qed

text \<open>
  The stages of the OpenWrt update are executed in order.  A due step either moves on to a
  stage that follows and returns 0, or, in the last stage only, completes and returns 1, or stops as
  failed, recording the stage that failed and returning the recorded error, which is not 0.
\<close>

theorem fit_update_stage_order:
  assumes "uc_active (ursus_upd w)" "uc_announced (ursus_upd w)"
    "URSUS_MIG_STAGE_HOLD_MS \<le> clock w - uc_announced_at (ursus_upd w)"
  shows "case run_state ursus_ubi_update_step w of (r, w') \<Rightarrow>
           upd_outcome (uc_stage (ursus_upd w)) r (ursus_upd w')"
  using wp_update_step_due [OF assms] by (simp add: wp_def)

definition due_engine :: "ursus_update_stage \<Rightarrow> ubi_world" where
  "due_engine st = sample_engine\<lparr>clock := 350,
     ursus_upd := zero_upd\<lparr>uc_active := True, uc_announced := True, uc_stage := st\<rparr>\<rparr>"

theorem fit_update_stage_order_witness:
  "case run_state ursus_ubi_update_step (due_engine URSUS_UPD_PROMOTE) of (r, w') \<Rightarrow>
     upd_outcome URSUS_UPD_PROMOTE r (ursus_upd w')"
  using fit_update_stage_order [of "due_engine URSUS_UPD_PROMOTE"]
  by (simp add: due_engine_def zero_upd_def URSUS_MIG_STAGE_HOLD_MS_def)

end
