(* ===== verification/Fit_Soundness.thy ===== *)
theory Fit_Soundness
  imports Fit_Update Ubi_Track
begin

text \<open>
  What an OpenWrt image update has done when it completes: an invariant over the stages of
  \<open>ursus_ubi_update_step\<close>.
\<close>

section \<open>The invariant\<close>

text \<open>The bytes of the read-back buffer that the update uses.\<close>

definition buf_len :: "bytes \<Rightarrow> nat" where
  "buf_len cand = max (length cand) URSUS_FIP_TOC_READ"

definition clear_of :: "nat \<Rightarrow> bytes \<Rightarrow> bool" where
  "clear_of addr cand =
     (0 < length cand \<and>
      (addr + length cand \<le> URSUS_UBI_READBACK_ADDR \<or> URSUS_UBI_READBACK_ADDR + buf_len cand \<le> addr))"

definition brings :: "nat \<Rightarrow> bytes \<Rightarrow> 'x ubi_world_scheme \<Rightarrow> bool" where
  "brings addr cand w =
     (uc_fit_addr (ursus_upd w) = addr \<and> uc_fit_len (ursus_upd w) = length cand
      \<and> mem_read addr (length cand) (ram w) = cand)"

fun fit_stage_ok :: "bytes \<Rightarrow> ursus_update_stage \<Rightarrow> 'x ubi_world_scheme \<Rightarrow> bool" where
  "fit_stage_ok cand URSUS_UPD_STAGE_PREP w = tidy ''fit'' w"
| "fit_stage_ok cand URSUS_UPD_STAGE_WRITE w =
     (tidy ''fit'' w \<and> room_named (upd_target (ursus_upd w)) (length cand) w)"
| "fit_stage_ok cand URSUS_UPD_STAGE_VERIFY w =
     (tidy ''fit'' w \<and> room_named (upd_target (ursus_upd w)) (length cand) w)"
| "fit_stage_ok cand URSUS_UPD_PROMOTE w = (tidy ''fit'' w \<and> stored ''fit.new'' cand w)"
| "fit_stage_ok cand URSUS_UPD_FINAL_VERIFY w = (tidy ''fit'' w \<and> stored ''fit'' cand w)"
| "fit_stage_ok cand URSUS_UPD_COMPLETE w = False"
| "fit_stage_ok cand _ w = True"

definition fit_inv :: "nat \<Rightarrow> bytes \<Rightarrow> 'x ubi_world_scheme \<Rightarrow> bool" where
  "fit_inv addr cand w =
     (uc_active (ursus_upd w) \<longrightarrow> brings addr cand w \<and> fit_stage_ok cand (uc_stage (ursus_upd w)) w)"

lemma upd_ctx_irrelevant [simp]:
  "vnames (w\<lparr>ursus_upd := c\<rparr>) = vnames w" "attached (w\<lparr>ursus_upd := c\<rparr>) = attached w"
  "tidy n (w\<lparr>ursus_upd := c\<rparr>) = tidy n w" "stored n x (w\<lparr>ursus_upd := c\<rparr>) = stored n x w"
  "room_named n m (w\<lparr>ursus_upd := c\<rparr>) = room_named n m w"
proof -
  show vn: "vnames (w\<lparr>ursus_upd := c\<rparr>) = vnames w"
    by (simp add: vnames_def)
  show "attached (w\<lparr>ursus_upd := c\<rparr>) = attached w" "tidy n (w\<lparr>ursus_upd := c\<rparr>) = tidy n w"
    by (simp_all add: attached_def tidy_def vols_def vn)
  show "stored n x (w\<lparr>ursus_upd := c\<rparr>) = stored n x w"
    by (simp add: stored_def vn vol_data_def vol_byte_def [abs_def])
  show "room_named n m (w\<lparr>ursus_upd := c\<rparr>) = room_named n m w"
    by (simp add: room_named_def vn vview_def)
qed

lemma wp_upd_fail_reason_inv [simp]: "wp (ursus_upd_fail_reason r code) (\<lambda>_. fit_inv addr cand) = (\<lambda>_. True)"
  by (simp add: ursus_upd_fail_reason_def fit_inv_def fun_eq_iff set_upd_def)

lemma wp_upd_fail_inv [simp]: "wp (ursus_upd_fail r) (\<lambda>_. fit_inv addr cand) = (\<lambda>_. True)"
  by (simp add: ursus_upd_fail_def fun_eq_iff)

lemma wp_upd_advance [simp]:
  "wp (upd_advance here next) Q =
   (\<lambda>w. Q 0 (w\<lparr>ursus_upd := (ursus_upd w)\<lparr>uc_last_success_stage := here, uc_stage := next\<rparr>\<rparr>))"
  by (simp add: upd_advance_def set_upd_def)

lemma upd_target_simps [simp]:
  "upd_target (c\<lparr>uc_last_success_stage := l, uc_stage := s\<rparr>) = upd_target c"
  "upd_target (c\<lparr>uc_announced := b\<rparr>) = upd_target c" "upd_target (c\<lparr>uc_announced := b, uc_announced_at := t\<rparr>) = upd_target c"
  "upd_target (c\<lparr>uc_write_started := b\<rparr>) = upd_target c"
  by (simp_all add: upd_target_def)

text \<open>The context and the RAM outside the read-back buffer.\<close>

definition fit_kept :: "nat \<Rightarrow> 'x ubi_world_scheme \<Rightarrow> ursus_update_ctx \<times> (nat \<Rightarrow> byte)" where
  "fit_kept n w = (ursus_upd w, ram_off URSUS_UBI_READBACK_ADDR n w)"

lemma fit_kept_ignores [simp]:
  "ignores_time (fit_kept n)" "ignores_hung (fit_kept n)" "ignores_env (fit_kept n)" "calm (fit_kept n)" "parts_free (fit_kept n)"
  by (simp_all add: fit_kept_def [abs_def] view_defs calm_def parts_free_def ram_off_def fun_eq_iff)

lemma brings_kept:
  "clear_of addr cand \<Longrightarrow> fit_kept (buf_len cand) w' = fit_kept (buf_len cand) w \<Longrightarrow> brings addr cand w' = brings addr cand w"
  using ram_off_read [of URSUS_UBI_READBACK_ADDR "buf_len cand" w' w addr "length cand"]
  by (auto simp: fit_kept_def brings_def clear_of_def)

lemma keeps_fit_kept_run: "(\<And>a n sz. c \<noteq> Ubi_read a n sz) \<Longrightarrow> keeps (fit_kept k) (run_ubi c)"
  by (rule keeps_run_ubi_calm) simp_all

lemma keeps_fit_kept_read:
  "0 < sz \<Longrightarrow> sz \<le> k \<Longrightarrow> keeps (fit_kept k) (run_ubi (Ubi_read URSUS_UBI_READBACK_ADDR n sz))"
  by (rule wp_run_read_buf) (auto simp: fit_kept_def ignores_buf_def ram_off_def mem_write_def fun_eq_iff)

section \<open>The stages\<close>

lemma fit_write_inv:
  assumes "clear_of addr cand" "brings addr cand w" "fit_stage_ok cand URSUS_UPD_STAGE_WRITE w"
  shows "wp upd_stage_write (\<lambda>_. fit_inv addr cand) w"
proof -
  let ?t = "upd_target (ursus_upd w)"
  obtain i m where i: "find_name (vnames w) ?t = Some i" "vview dyn_room i w = Some (UBI_DYNAMIC_VOLUME, m)"
      "length cand \<le> m" and t: "tidy ''fit'' w"
    using assms(3) by (auto simp: room_named_def)
  have len: "length cand \<noteq> 0"
    using assms(1) by (simp add: clear_of_def)
  have c: "uc_fit_addr (ursus_upd w) = addr" "uc_fit_len (ursus_upd w) = length cand"
    using assms(2) by (simp_all add: brings_def)
  have room: "keeps (vview dyn_room i) (run_ubi (Ubi_write addr ?t (length cand)))"
    unfolding run_ubi_def do_ubi_def ubi_command.case by (intro keeps_intros keeps_volume_write_room)
  have "wp (run_ubi (Ubi_write addr ?t (length cand)))
     (\<lambda>r w'. fit_kept (buf_len cand) w' = fit_kept (buf_len cand) w \<and> vview dyn_room i w' = vview dyn_room i w \<and> all_but i w' = all_but i w) w"
    by (rule wp_mono [OF wp_conj [OF keeps_wp [OF keeps_fit_kept_run [of _ "buf_len cand"]]
           wp_conj [OF keeps_wp [OF room] wp_run_write [OF t i(1) len]]]]) simp_all
  then show ?thesis
    unfolding upd_stage_write_def wp_bind wp_gets c
  proof (rule wp_mono, goal_cases)
    case (1 r w')
    then have k: "brings addr cand w'" "ursus_upd w' = ursus_upd w"
      using brings_kept [OF assms(1)] assms(2) by (auto simp: fit_kept_def)
    have "tidy ''fit'' w'" "vnames w' = vnames w"
      using written_volume [where w' = w', OF t i(1)] 1 by simp_all
    moreover from this have "room_named ?t (length cand) w'"
      using i 1 by (auto simp: room_named_def)
    ultimately show ?case
      using k by (simp add: fit_inv_def brings_def)
  qed
qed

lemma wp_remove_existing:
  assumes "tidy m w"
  shows "wp (remove_existing n) (\<lambda>_ w'. tidy m w' \<and> fit_kept k w' = fit_kept k w) w"
proof -
  have rm: "wp (run_ubi (Ubi_remove n)) (\<lambda>_ w'. tidy m w' \<and> fit_kept k w' = fit_kept k w) w"
    by (rule wp_mono [OF wp_conj [OF wp_run_remove [OF assms] keeps_wp [OF keeps_fit_kept_run]]]) auto
  show ?thesis
    unfolding remove_existing_def
    by (rule wp_bind_keeps [OF keeps_run_check [of "\<lambda>w. w"]]) (use assms in \<open>auto intro: wp_mono [OF rm]\<close>)
qed

lemma fit_prep_inv:
  assumes "clear_of addr cand" "brings addr cand w" "fit_stage_ok cand URSUS_UPD_STAGE_PREP w"
  shows "wp upd_stage_prep (\<lambda>_. fit_inv addr cand) w"
proof -
  let ?w = "w\<lparr>ursus_upd := (ursus_upd w)\<lparr>uc_write_started := True\<rparr>\<rparr>" and ?k = "buf_len cand"
  let ?t = "upd_target (ursus_upd w)"
  let ?I = "\<lambda>v :: 'a ubi_world_scheme. tidy ''fit'' v \<and> fit_kept ?k v = fit_kept ?k ?w"
  have I: "?I ?w"
    using assms(3) by simp
  have re: "wp (remove_existing n) (\<lambda>_. ?I) v" if "?I v" for n v
    by (rule wp_mono [OF wp_remove_existing [where m = "''fit''" and k = ?k]]) (use that in auto)
  have cr: "wp (do { r \<leftarrow> run_ubi (Ubi_create ?t (length cand) True None);
        if r \<noteq> 0 then ursus_upd_fail r else upd_advance URSUS_UPD_STAGE_PREP URSUS_UPD_STAGE_WRITE })
      (\<lambda>_. fit_inv addr cand) v" if v: "?I v" for v
  proof (rule wp_bindI [OF wp_conj [OF wp_run_create [of "''fit''"] keeps_wp [OF keeps_fit_kept_run [of _ ?k]]]], goal_cases)
    case (4 r v')
    then have k: "fit_kept ?k v' = fit_kept ?k ?w"
      using v by simp
    then have b: "brings addr cand v'" "upd_target (ursus_upd v') = ?t"
      using brings_kept [OF assms(1) k] assms(2) by (auto simp: fit_kept_def brings_def)
    have "room_named ?t (length cand) v'" if "r = 0"
      using 4 that room_namedI by force
    with 4 b show ?case
      by (simp add: fit_inv_def brings_def)
  qed (use v assms(1) in \<open>auto simp: clear_of_def\<close>)
  have guard: "wp (if b then ursus_upd_fail e else m) (\<lambda>_. fit_inv addr cand) v"
    if "wp m (\<lambda>_. fit_inv addr cand) v" for b e m v
    using that by simp
  have direct: "wp (do { b \<leftarrow> (if d then remove_existing ''fit'' else ret False);
       if b then ursus_upd_fail (- EIO)
       else do { r \<leftarrow> run_ubi (Ubi_create ?t (length cand) True None);
        if r \<noteq> 0 then ursus_upd_fail r else upd_advance URSUS_UPD_STAGE_PREP URSUS_UPD_STAGE_WRITE } })
      (\<lambda>_. fit_inv addr cand) v" if v: "?I v" for d v
  proof (rule wp_bindI [where P = "\<lambda>_. ?I"])
    show "wp (if d then remove_existing ''fit'' else ret False) (\<lambda>_. ?I) v"
      using v re [OF v] by simp
  qed (rule guard, rule cr)
  have old: "wp (do { b \<leftarrow> remove_existing ''fit.old'';
       if b then ursus_upd_fail (- EIO)
       else do { b \<leftarrow> (if d then remove_existing ''fit'' else ret False);
       if b then ursus_upd_fail (- EIO)
       else do { r \<leftarrow> run_ubi (Ubi_create ?t (length cand) True None);
        if r \<noteq> 0 then ursus_upd_fail r else upd_advance URSUS_UPD_STAGE_PREP URSUS_UPD_STAGE_WRITE } } })
      (\<lambda>_. fit_inv addr cand) v" if v: "?I v" for d v
    by (rule wp_bindI [OF re [OF v]]) (rule guard, rule direct)
  have "uc_fit_len (ursus_upd ?w) = length cand" "upd_target (ursus_upd ?w) = ?t"
    using assms(2) by (simp_all add: brings_def)
  then show ?thesis
    unfolding upd_stage_prep_def set_upd_def wp_bind [of "modify _"] wp_bind [of "gets _"] wp_modify wp_gets
    by (simp only:, intro wp_bindI [OF re [OF I]] guard old)
qed

lemma wp_upd_readback:
  assumes "clear_of addr cand" "brings addr cand w" "tidy ''fit'' w"
    and "\<And>v. rview v = rview w \<Longrightarrow> fit_kept (buf_len cand) v = fit_kept (buf_len cand) w \<Longrightarrow>
           (room_named n (length cand) w \<longrightarrow> stored n cand w) \<Longrightarrow> wp m (\<lambda>_. fit_inv addr cand) v"
  shows "wp (upd_readback n m) (\<lambda>_. fit_inv addr cand) w"
proof -
  let ?k = "buf_len cand"
  have c: "uc_fit_addr (ursus_upd w) = addr" "uc_fit_len (ursus_upd w) = length cand"
    using assms(2) by (simp_all add: brings_def)
  have len: "0 < length cand" "length cand \<le> ?k"
    using assms(1) by (simp_all add: clear_of_def buf_len_def)
  have fin: "wp m (\<lambda>_. fit_inv addr cand) v"
    if "rview v = rview w" "fit_kept ?k v = fit_kept ?k w" "delivered w URSUS_UBI_READBACK_ADDR n (length cand) v"
      "mem_read addr (length cand) (ram v) = mem_read URSUS_UBI_READBACK_ADDR (length cand) (ram v)" for v
    using assms(4) [OF that(1,2)] delivered_room [OF that(3)] len(1) that(4) brings_kept [OF assms(1) that(2)] assms(2)
    by (simp add: brings_def)
  show ?thesis
    unfolding upd_readback_def wp_bind wp_gets c
  proof (rule wp_mono [OF wp_conj [OF wp_run_read [OF tidy_attached [OF assms(3)]] keeps_wp [OF keeps_fit_kept_read [OF len]]]], goal_cases)
    case (1 r v)
    then show ?case
      using fin [of v] by (auto simp: ursus_mem_equal_def ram_read_def fdt_check_header_at_def)
  qed
qed

lemma fit_verify_inv:
  assumes "clear_of addr cand" "brings addr cand w" "fit_stage_ok cand URSUS_UPD_STAGE_VERIFY w"
  shows "wp upd_stage_verify (\<lambda>_. fit_inv addr cand) w"
  unfolding upd_stage_verify_def wp_bind wp_gets
proof (rule wp_upd_readback [OF assms(1,2)], goal_cases)
  case (2 v)
  have "stored (upd_target (ursus_upd w)) cand w" "tidy ''fit'' w"
    using 2 assms(3) by simp_all
  then have "stored (upd_target (ursus_upd w)) cand v" "tidy ''fit'' v"
    using rview_same [of v w "''fit''"] 2 by simp_all
  moreover have "brings addr cand v" "ursus_upd v = ursus_upd w"
    using brings_kept [OF assms(1)] 2 assms(2) by (auto simp: fit_kept_def)
  ultimately show ?case
    by (auto simp: fit_inv_def brings_def upd_target_def)
qed (use assms(3) in simp)

lemma fit_promote_inv:
  assumes "clear_of addr cand" "brings addr cand w" "fit_stage_ok cand URSUS_UPD_PROMOTE w"
  shows "wp upd_promote (\<lambda>_. fit_inv addr cand) w"
proof -
  let ?k = "buf_len cand"
  let ?I = "\<lambda>v :: 'a ubi_world_scheme. tidy ''fit'' v \<and> stored ''fit.new'' cand v \<and> fit_kept ?k v = fit_kept ?k w"
  have "wp (run_ubi (Ubi_rename ''fit'' ''fit.old'')) (\<lambda>_. ?I) w"
    by (rule wp_mono [OF wp_conj [OF wp_run_rename [of "''fit''"] keeps_wp [OF keeps_fit_kept_run [of _ ?k]]]])
       (use assms(3) in auto)
  then have aside: "wp (if k = 0 then run_ubi (Ubi_rename ''fit'' ''fit.old'') else ret 0) (\<lambda>_. ?I) w" for k :: int
    using assms(3) by simp
  have last: "wp (do { r \<leftarrow> run_ubi (Ubi_rename ''fit.new'' ''fit'');
       if r \<noteq> 0 then ursus_upd_fail r else upd_advance URSUS_UPD_PROMOTE URSUS_UPD_FINAL_VERIFY }) (\<lambda>_. fit_inv addr cand) v"
    if v: "?I v" for v
  proof (rule wp_bindI [OF wp_conj [OF wp_run_rename [of "''fit''"] keeps_wp [OF keeps_fit_kept_run [of _ ?k]]]], goal_cases)
    case (3 r v')
    then have "brings addr cand v'"
      using brings_kept [OF assms(1), of v' w] v assms(2) by simp
    with 3 v show ?case
      by (simp add: fit_inv_def brings_def)
  qed (use v in auto)
  show ?thesis
    unfolding upd_promote_def
  proof (rule wp_bind_keeps [OF keeps_run_check [of "\<lambda>w. w"]], goal_cases)
    case (1 k v)
    have "wp (do { r \<leftarrow> (if k = 0 then run_ubi (Ubi_rename ''fit'' ''fit.old'') else ret 0);
        if r \<noteq> 0 then ursus_upd_fail r
        else do { r \<leftarrow> run_ubi (Ubi_rename ''fit.new'' ''fit'');
          if r \<noteq> 0 then ursus_upd_fail r else upd_advance URSUS_UPD_PROMOTE URSUS_UPD_FINAL_VERIFY } })
        (\<lambda>_. fit_inv addr cand) w"
      by (rule wp_bindI [OF aside]) (use last in \<open>auto simp del: wp_bind\<close>)
    with 1 show ?case by simp
  qed
qed

text \<open>What the sizes and the manifest leave alone.\<close>

definition fit_settled :: "nat \<Rightarrow> 'x ubi_world_scheme \<Rightarrow> _" where
  "fit_settled n w = (rview w, ram_off URSUS_UBI_READBACK_ADDR n w, uc_fit_addr (ursus_upd w), uc_fit_len (ursus_upd w))"

lemma keeps_fit_settled: "keeps rview m \<Longrightarrow> keeps (fit_kept n) m \<Longrightarrow> keeps (fit_settled n) m"
  by (auto simp: keeps_def fit_settled_def fit_kept_def)

lemma keeps_fit_settled_set:
  "(\<And>c. uc_fit_addr (f c) = uc_fit_addr c \<and> uc_fit_len (f c) = uc_fit_len c) \<Longrightarrow> keeps (fit_settled n) (set_upd f)"
  unfolding set_upd_def
  by (rule keeps_modify) (simp add: fit_settled_def rview_def cvols_def vols_def ram_off_def fun_eq_iff)

lemma keeps_fit_settled_vol: "keeps (fit_settled k) (ubi_open_volume_nm n md)" "keeps (fit_settled k) (ubi_close_volume i md)"
  by (intro keeps_fit_settled keeps_open_rview keeps_close_rview keeps_open_volume_nm keeps_close_volume fit_kept_ignores)+

lemma keeps_fit_settled_read:
  "0 < sz \<Longrightarrow> sz \<le> k \<Longrightarrow> keeps (fit_settled k) (run_ubi (Ubi_read URSUS_UBI_READBACK_ADDR n sz))"
  by (intro keeps_fit_settled keeps_run_read_rview keeps_fit_kept_read)

lemma keeps_fit_settled_pebs: "keeps (fit_settled k) (volume_pebs n)"
  unfolding volume_pebs_def by (intro keeps_intros keeps_fit_settled_vol)

lemma keeps_fit_settled_present: "keeps (fit_settled k) (volumes_present ns)"
  by (induction ns; unfold volumes_present.simps; intro keeps_intros keeps_fit_settled_vol; assumption?)

lemma keeps_fit_settled_manifest: "keeps (fit_settled k) (ursus_ubi_verify_volume_manifest b)"
  unfolding ursus_ubi_verify_volume_manifest_def by (intro keeps_intros keeps_fit_settled_vol keeps_fit_settled_present)

lemma keeps_fit_settled_fip_valid: "URSUS_FIP_TOC_READ \<le> k \<Longrightarrow> keeps (fit_settled k) (ursus_ubi_volume_fip_valid n)"
  unfolding ursus_ubi_volume_fip_valid_def
  by (intro keeps_intros keeps_fit_settled_read) (simp_all add: URSUS_FIP_TOC_READ_def)

lemma brings_settled:
  assumes "clear_of addr cand" "fit_settled (buf_len cand) w' = fit_settled (buf_len cand) w" "brings addr cand w" "tidy ''fit'' w"
  shows "brings addr cand w'" "tidy ''fit'' w'"
  using assms ram_off_read [of URSUS_UBI_READBACK_ADDR "buf_len cand" w' w addr "length cand"] rview_same(1) [of w' w "''fit''"]
  by (auto simp: fit_settled_def brings_def clear_of_def)

lemma fit_sizes_inv:
  assumes "clear_of addr cand" "brings addr cand w" "tidy ''fit'' w"
  shows "wp (upd_sizes d) (\<lambda>_. fit_inv addr cand) w"
proof -
  let ?k = "buf_len cand"
  note b = brings_settled [OF assms(1) _ assms(2,3)]
  have fin: "fit_inv addr cand (v\<lparr>ursus_upd := (ursus_upd v)\<lparr>uc_direct_mode := d, uc_last_success_stage := l, uc_stage := URSUS_UPD_STAGE_PREP\<rparr>\<rparr>)"
    if "fit_settled ?k v = fit_settled ?k w" for v d l
    using b [OF that] by (simp add: fit_inv_def brings_def)
  have tail: "wp (case h of None \<Rightarrow> ursus_upd_fail_reason e code
     | Some direct \<Rightarrow> do { set_upd (\<lambda>c. c\<lparr>uc_direct_mode := direct\<rparr>); upd_advance URSUS_UPD_PRECHECK URSUS_UPD_STAGE_PREP })
      (\<lambda>_. fit_inv addr cand) v" if "fit_settled ?k v = fit_settled ?k w" for h e code v
    using fin [OF that] by (cases h) (simp_all add: set_upd_def)
  show ?thesis
    unfolding upd_sizes_def Let_def wp_bind [of "gets _"] wp_gets
    by (rule wp_bindI [OF keeps_wp [OF keeps_fit_settled_pebs [of ?k]]],
        rule wp_bindI [OF keeps_wp [OF keeps_fit_settled_set [of _ ?k]]], simp,
        rule wp_bindI [OF keeps_wp [OF keeps_fit_settled_pebs [of ?k]]],
        rule wp_bindI [OF keeps_wp [OF keeps_fit_settled_pebs [of ?k]]],
        rule wp_bindI [OF keeps_wp [OF keeps_fit_settled_set [of _ ?k]]], simp split: option.split,
        unfold wp_bind [of "gets _"] wp_gets, rule tail, simp)
qed

lemma wp_reattach:
  "wp ursus_ubi_reattach (\<lambda>r v. (r = 0 \<longrightarrow> tidy m v) \<and> fit_kept k v = fit_kept k w) w"
proof -
  have det: "wp (run_ubi Ubi_detach) (\<lambda>_ v. \<not> attached v \<and> fit_kept k v = fit_kept k w) w"
    using wp_conj [OF _ keeps_wp [OF keeps_fit_kept_run [of Ubi_detach k]], of "\<lambda>_ v. \<not> attached v" w]
    by (simp add: run_ubi_def do_ubi_def ubi_detach_def attached_def)
  show ?thesis
    unfolding ursus_ubi_reattach_def
    by (rule wp_bindI [OF det], rule wp_mono [OF wp_conj [OF wp_run_part [where m = m] keeps_wp [OF keeps_fit_kept_run [of _ k]]]]) auto
qed

lemma fit_check_manifest_inv:
  assumes "clear_of addr cand" "brings addr cand w" "tidy ''fit'' w"
  shows "wp upd_check_manifest (\<lambda>_. fit_inv addr cand) w"
  unfolding upd_check_manifest_def
proof (rule wp_bindI [OF keeps_wp [OF keeps_fit_settled_manifest [of "buf_len cand"]]], goal_cases)
  case (1 r v)
  note v = brings_settled [OF assms(1) 1 assms(2,3)]
  show ?case
    using fit_sizes_inv [OF assms(1) v] by (auto split: option.split)
qed

lemma fit_check_fip_inv:
  assumes "clear_of addr cand" "brings addr cand w" "tidy ''fit'' w"
  shows "wp upd_check_fip (\<lambda>_. fit_inv addr cand) w"
proof -
  let ?k = "buf_len cand"
  have "URSUS_FIP_TOC_READ \<le> ?k"
    by (simp add: buf_len_def)
  then have "wp (if c \<noteq> 0 then ret False else ursus_ubi_volume_fip_valid ''fip'') (\<lambda>_ u. fit_settled ?k u = fit_settled ?k w) w"
    for c :: int
    by (intro keeps_wp keeps_intros keeps_fit_settled_fip_valid)
  then have tail: "wp (do { ok \<leftarrow> (if c \<noteq> 0 then ret False else ursus_ubi_volume_fip_valid ''fip'');
      if \<not> ok then ursus_upd_fail_reason e code else upd_check_manifest }) (\<lambda>_. fit_inv addr cand) w" for c :: int and e code
  proof (rule wp_bindI, goal_cases)
    case (1 ok v)
    show ?case
      using fit_check_manifest_inv [OF assms(1) brings_settled [OF assms(1) 1 assms(2,3)]] by simp
  qed
  show ?thesis
    unfolding upd_check_fip_def
  proof (rule wp_bind_keeps [OF keeps_run_check [of "\<lambda>w. w"]], goal_cases)
    case (1 c v)
    then show ?case
      using tail by (simp only:)
  qed
qed

lemma fit_precheck_inv:
  assumes "clear_of addr cand" "brings addr cand w"
  shows "wp upd_precheck (\<lambda>_. fit_inv addr cand) w"
proof -
  let ?k = "buf_len cand"
  have "wp (do { r \<leftarrow> ursus_ubi_reattach; if r \<noteq> 0 then ursus_upd_fail_reason r code else upd_check_fip })
      (\<lambda>_. fit_inv addr cand) v" if "fit_kept ?k v = fit_kept ?k w" for v code
  proof (rule wp_bindI [OF wp_reattach [where m = "''fit''" and k = ?k]], goal_cases)
    case (1 r u)
    then show ?case
      using fit_check_fip_inv [OF assms(1), of u] brings_kept [OF assms(1), of u w] that assms(2) by simp
  qed
  then show ?thesis
    unfolding upd_precheck_def
    by (intro wp_bindI [OF keeps_wp [OF keeps_register_mtd [of "fit_kept ?k"]]]) (auto simp del: wp_bind)
qed

lemma fit_final_inv:
  assumes "clear_of addr cand" "brings addr cand w" "fit_stage_ok cand URSUS_UPD_FINAL_VERIFY w"
  shows "wp upd_final_verify (\<lambda>_. fit_inv addr cand) w"
  unfolding upd_final_verify_def wp_bind [of "gets _"] wp_gets
  by (rule wp_upd_readback [OF assms(1,2)])
     (use assms(3) in \<open>simp_all add: set_upd_def fit_inv_def cong: if_cong\<close>)

lemma fit_execute_inv:
  assumes "clear_of addr cand" "brings addr cand w" "fit_stage_ok cand st w"
  shows "wp (upd_execute st) (\<lambda>_. fit_inv addr cand) w"
  by (cases st; use assms in \<open>auto simp only: upd_execute_def ursus_update_stage.case wp_upd_fail_inv
      intro!: fit_precheck_inv fit_prep_inv fit_write_inv fit_verify_inv fit_promote_inv fit_final_inv\<close>)

lemma fit_stage_ok_announced:
  "fit_stage_ok cand st w \<Longrightarrow> fit_stage_ok cand st (w\<lparr>ursus_upd := (ursus_upd w)\<lparr>uc_announced := b\<rparr>\<rparr>)"
  "fit_stage_ok cand st w \<Longrightarrow> fit_stage_ok cand st (w\<lparr>ursus_upd := (ursus_upd w)\<lparr>uc_announced := b, uc_announced_at := t\<rparr>\<rparr>)"
  by (cases st; simp)+

lemma fit_step_inv:
  assumes "clear_of addr cand" "fit_inv addr cand w"
  shows "wp ursus_ubi_update_step (\<lambda>_. fit_inv addr cand) w"
proof (cases "uc_active (ursus_upd w)")
  case True
  then have ok: "brings addr cand w" "fit_stage_ok cand (uc_stage (ursus_upd w)) w"
    using assms(2) by (simp_all add: fit_inv_def)
  have run: "wp (upd_execute (uc_stage (ursus_upd w))) (\<lambda>_. fit_inv addr cand)
      (w\<lparr>ursus_upd := (ursus_upd w)\<lparr>uc_announced := False\<rparr>\<rparr>)"
    using ok by (intro fit_execute_inv assms(1) fit_stage_ok_announced) (simp_all add: brings_def)
  have ann: "fit_inv addr cand (w\<lparr>ursus_upd := (ursus_upd w)\<lparr>uc_announced := True, uc_announced_at := t\<rparr>\<rparr>)" for t
    using ok fit_stage_ok_announced(2) [OF ok(2)] by (simp add: fit_inv_def brings_def del: fit_stage_ok.simps)
  show ?thesis
    using True run ann assms(2) by (simp add: ursus_ubi_update_step_def set_upd_def)
qed (use assms in \<open>simp add: ursus_ubi_update_step_def\<close>)

section \<open>Properties\<close>

text \<open>
  C9: every step of the OpenWrt update keeps the invariant of its stages, whatever faults occur: the
  target volume is dynamic with room for the candidate; after verification it holds the candidate byte
  for byte; after promotion the active volume \<open>fit\<close> does.
\<close>

theorem fit_step_keeps_invariant:
  assumes "clear_of addr cand" "fit_inv addr cand w"
  shows "fit_inv addr cand (snd (run_state ursus_ubi_update_step w))"
  using fit_step_inv [OF assms] by (simp add: wp_def split_beta)

text \<open>The witness is about to promote a verified candidate.\<close>

definition sample_fit_update :: "ursus_update_stage \<Rightarrow> ubi_world" where
  "sample_fit_update st = sample_engine\<lparr>ram := mem_write 0x82000000 [1, 2, 3] (\<lambda>_. 0), clock := 350,
     ubi := Some (sample_device ''ursus-ubi-full'' ''fit'' ''fit.new''), media := sample_media,
     ursus_upd := zero_upd\<lparr>uc_fit_addr := 0x82000000, uc_fit_len := 3, uc_stage := st, uc_active := True, uc_announced := True\<rparr>\<rparr>"

lemma sample_fit_update_inv:
  assumes "st = URSUS_UPD_STAGE_PREP \<or> st = URSUS_UPD_PROMOTE \<or> st = URSUS_UPD_FINAL_VERIFY"
  shows "fit_inv 0x82000000 [1, 2, 3] (sample_fit_update st)"
proof -
  let ?w = "sample_fit_update st"
  have u: "ubi ?w = Some (sample_device ''ursus-ubi-full'' ''fit'' ''fit.new'')" "media ?w = sample_media"
    by (simp_all add: sample_fit_update_def)
  have "brings 0x82000000 [1, 2, 3] ?w" "uc_stage (ursus_upd ?w) = st"
    by (simp_all add: brings_def sample_fit_update_def)
  then show ?thesis
    using assms sample_device_tidy [OF u(1)] sample_device_stored [OF u] by (auto simp: fit_inv_def)
qed

lemma sample_fit_clear: "clear_of 0x82000000 [1, 2, 3]"
  by (simp add: clear_of_def URSUS_UBI_READBACK_ADDR_def)

theorem fit_step_keeps_invariant_witness:
  "fit_inv 0x82000000 [1, 2, 3] (sample_fit_update URSUS_UPD_PROMOTE)
   \<and> fit_inv 0x82000000 [1, 2, 3] (snd (run_state ursus_ubi_update_step (sample_fit_update URSUS_UPD_PROMOTE)))"
  using fit_step_keeps_invariant [OF sample_fit_clear sample_fit_update_inv] sample_fit_update_inv by blast



section \<open>The installed system before promotion\<close>

lemma spares_upd [simp]: "spares n w (v\<lparr>ursus_upd := c\<rparr>) = spares n w v"
  by (simp add: spares_def)

lemma wp_upd_fail_spares [simp]: "wp (ursus_upd_fail r) (\<lambda>_. spares n w) = spares n w"
  by (simp add: ursus_upd_fail_def ursus_upd_fail_reason_def set_upd_def fun_eq_iff)

lemma wp_upd_advance_spares [simp]: "wp (upd_advance a b) (\<lambda>_. spares n w) = spares n w"
  by (simp add: upd_advance_def set_upd_def fun_eq_iff)

lemma spares_existing: "spares n w v \<Longrightarrow> k \<noteq> n \<Longrightarrow> wp (remove_existing k) (\<lambda>_. spares n w) v"
  unfolding remove_existing_def
  by (rule wp_bind_keeps [OF keeps_run_check [of "\<lambda>w. w"]]) (auto intro: wp_mono [OF spares_remove])

lemma spares_fit_prep:
  assumes "spares ''fit'' w v" "\<not> uc_direct_mode (ursus_upd v)" "0 < uc_fit_len (ursus_upd v)"
  shows "wp upd_stage_prep (\<lambda>_. spares ''fit'' w) v"
proof -
  let ?S = "\<lambda>_. spares ''fit'' w"
  have guard: "wp (if b then ursus_upd_fail e else m) ?S u" if "wp m ?S u" "spares ''fit'' w u" for b e m u
    using that by simp
  have create: "wp (do { b \<leftarrow> ret False; if b then ursus_upd_fail (- EIO) else do {
      r \<leftarrow> run_ubi (Ubi_create t n True None);
      if r \<noteq> 0 then ursus_upd_fail r else upd_advance URSUS_UPD_STAGE_PREP URSUS_UPD_STAGE_WRITE }}) ?S u"
    if "spares ''fit'' w u" "0 < n" for t n u
    unfolding wp_bind [of "ret _"] wp_return if_False
    by (rule wp_bindI [OF spares_create]) (use that in auto)
  have "wp (do { b \<leftarrow> remove_existing ''fit.old''; if b then ursus_upd_fail (- EIO) else do {
      b \<leftarrow> ret False; if b then ursus_upd_fail (- EIO) else do {
      r \<leftarrow> run_ubi (Ubi_create t n True None);
      if r \<noteq> 0 then ursus_upd_fail r else upd_advance URSUS_UPD_STAGE_PREP URSUS_UPD_STAGE_WRITE }}}) ?S u"
    if "spares ''fit'' w u" "0 < n" for t n u
    by (rule wp_bindI [OF spares_existing [OF that(1)]]) (simp, rule guard, rule create [OF _ that(2)])
  note old = this
  have "wp (do { b \<leftarrow> remove_existing ''fit.new''; if b then ursus_upd_fail (- EIO) else do {
      b \<leftarrow> remove_existing ''fit.old''; if b then ursus_upd_fail (- EIO) else do {
      b \<leftarrow> ret False; if b then ursus_upd_fail (- EIO) else do {
      r \<leftarrow> run_ubi (Ubi_create t n True None);
      if r \<noteq> 0 then ursus_upd_fail r else upd_advance URSUS_UPD_STAGE_PREP URSUS_UPD_STAGE_WRITE }}}}) ?S u"
    if "spares ''fit'' w u" "0 < n" for t n u
    by (rule wp_bindI [OF spares_existing [OF that(1)]]) (simp, rule guard, rule old [OF _ that(2)])
  then show ?thesis
    using assms
    by (simp add: upd_stage_prep_def wp_bind [of "modify _"] set_upd_def wp_bind [of "gets _"] del: wp_bind cong: if_cong)
qed

lemma spares_fit_write:
  assumes "spares ''fit'' w v" "\<not> uc_direct_mode (ursus_upd v)"
  shows "wp upd_stage_write (\<lambda>_. spares ''fit'' w) v"
  unfolding upd_stage_write_def wp_bind [of "gets _"] wp_gets
  by (rule wp_bindI [OF spares_write_other]) (use assms in \<open>auto simp: upd_target_def\<close>)

lemma spares_fit_verify:
  assumes "spares ''fit'' w v"
  shows "wp upd_stage_verify (\<lambda>_. spares ''fit'' w) v"
  unfolding upd_stage_verify_def upd_readback_def wp_bind [of "gets _"] wp_gets
  by (rule wp_bindI [OF spares_rview [OF keeps_run_read_rview assms]])
     (simp add: ursus_mem_equal_def ram_read_def fdt_check_header_at_def)

text \<open>
  C4: a two-copy OpenWrt update leaves the installed system alone until the candidate is verified: no
  step of the preparing, writing and verifying stages changes what the volume \<open>fit\<close> holds, whatever
  faults occur.
\<close>

theorem active_fit_kept_until_promotion:
  assumes "tidy ''fit'' w" "stored ''fit'' x w" "0 < uc_fit_len (ursus_upd w)" "\<not> uc_direct_mode (ursus_upd w)"
    and "uc_stage (ursus_upd w) \<in> {URSUS_UPD_STAGE_PREP, URSUS_UPD_STAGE_WRITE, URSUS_UPD_STAGE_VERIFY}"
  shows "stored ''fit'' x (snd (run_state ursus_ubi_update_step w))"
proof -
  let ?w = "w\<lparr>ursus_upd := (ursus_upd w)\<lparr>uc_announced := False\<rparr>\<rparr>"
  have w: "spares ''fit'' w w"
    by (rule spares_refl [OF assms(1)])
  then have "wp (upd_execute (uc_stage (ursus_upd w))) (\<lambda>_. spares ''fit'' w) ?w"
    using assms(3-5) spares_fit_prep [of w ?w] spares_fit_write [of w ?w] spares_fit_verify [of w ?w]
    by (auto simp: upd_execute_def)
  then have "wp ursus_ubi_update_step (\<lambda>_. spares ''fit'' w) w"
    using w by (simp add: ursus_ubi_update_step_def set_upd_def)
  then show ?thesis
    using assms(2) by (simp add: wp_def spares_def split_beta)
qed

theorem active_fit_kept_until_promotion_witness:
  "stored ''fit'' [1, 2, 3] (snd (run_state ursus_ubi_update_step (sample_fit_update URSUS_UPD_STAGE_PREP)))"
proof -
  let ?w = "sample_fit_update URSUS_UPD_STAGE_PREP"
  have "ubi ?w = Some (sample_device ''ursus-ubi-full'' ''fit'' ''fit.new'')" "media ?w = sample_media"
    "0 < uc_fit_len (ursus_upd ?w)" "\<not> uc_direct_mode (ursus_upd ?w)" "uc_stage (ursus_upd ?w) = URSUS_UPD_STAGE_PREP"
    by (simp_all add: sample_fit_update_def zero_upd_def)
  then show ?thesis
    using active_fit_kept_until_promotion [of ?w] sample_device_tidy [of ?w] sample_device_stored [of ?w] by simp
qed

end
