(* ===== verification/Migration.thy ===== *)
theory Migration
  imports Ubi_Engine Staged
begin

text \<open>
  Migrating from the stock layout to the UBI layout, the \<open>ursus_mig\<close> machine of
  \<open>cmd/ursusubi.c\<close>: board data and the active FIP are copied to RAM, the flash behind the first
  block is erased and formatted, seven volumes are created, written and read back, and only then
  is the first block replaced by the BL2 candidate.
\<close>

section \<open>Names and failures\<close>

definition URSUS_STOCK_BOSA_OFF :: nat where "URSUS_STOCK_BOSA_OFF = 0x051c0000"
definition URSUS_STOCK_RI_OFF :: nat where "URSUS_STOCK_RI_OFF = 0x05200000"
definition URSUS_BOARD_DATA_SIZE :: nat where "URSUS_BOARD_DATA_SIZE = 0x40000"
definition URSUS_MIG_BOSA_ADDR :: nat where "URSUS_MIG_BOSA_ADDR = 0x98000000"
definition URSUS_MIG_RI_ADDR :: nat where "URSUS_MIG_RI_ADDR = 0x98040000"
definition URSUS_MIG_FIP_ADDR :: nat where "URSUS_MIG_FIP_ADDR = 0x98100000"

fun ursus_mig_stage_name :: "ursus_migration_stage \<Rightarrow> string" where
  "ursus_mig_stage_name URSUS_MIG_PRECHECK = ''PRECHECK''"
| "ursus_mig_stage_name URSUS_MIG_BACKUP_BOSA = ''BACKUP_BOSA''"
| "ursus_mig_stage_name URSUS_MIG_BACKUP_RI = ''BACKUP_RI''"
| "ursus_mig_stage_name URSUS_MIG_BACKUP_FIP = ''BACKUP_FIP''"
| "ursus_mig_stage_name URSUS_MIG_FORMAT_UBI = ''FORMAT_UBI''"
| "ursus_mig_stage_name URSUS_MIG_ATTACH_UBI = ''ATTACH_UBI''"
| "ursus_mig_stage_name URSUS_MIG_CREATE_VOLUMES = ''CREATE_VOLUMES''"
| "ursus_mig_stage_name URSUS_MIG_WRITE_BOSA = ''WRITE_BOSA''"
| "ursus_mig_stage_name URSUS_MIG_WRITE_RI = ''WRITE_RI''"
| "ursus_mig_stage_name URSUS_MIG_WRITE_FIP = ''WRITE_FIP''"
| "ursus_mig_stage_name URSUS_MIG_WRITE_FIT = ''WRITE_FIT''"
| "ursus_mig_stage_name URSUS_MIG_VERIFY_BOSA = ''VERIFY_BOSA''"
| "ursus_mig_stage_name URSUS_MIG_VERIFY_RI = ''VERIFY_RI''"
| "ursus_mig_stage_name URSUS_MIG_VERIFY_FIP = ''VERIFY_FIP''"
| "ursus_mig_stage_name URSUS_MIG_VERIFY_FIT = ''VERIFY_FIT''"
| "ursus_mig_stage_name URSUS_MIG_COMMIT_BL2 = ''COMMIT_BL2''"
| "ursus_mig_stage_name URSUS_MIG_VERIFY_BL2 = ''VERIFY_BL2''"
| "ursus_mig_stage_name URSUS_MIG_COMPLETE = ''COMPLETE''"
| "ursus_mig_stage_name URSUS_MIG_FAILED = ''FAILED''"
| "ursus_mig_stage_name URSUS_MIG_IDLE = ''IDLE''"

fun ursus_mig_percent :: "ursus_migration_stage \<Rightarrow> nat" where
  "ursus_mig_percent URSUS_MIG_PRECHECK = 3"
| "ursus_mig_percent URSUS_MIG_BACKUP_BOSA = 8"
| "ursus_mig_percent URSUS_MIG_BACKUP_RI = 12"
| "ursus_mig_percent URSUS_MIG_BACKUP_FIP = 18"
| "ursus_mig_percent URSUS_MIG_FORMAT_UBI = 25"
| "ursus_mig_percent URSUS_MIG_ATTACH_UBI = 35"
| "ursus_mig_percent URSUS_MIG_CREATE_VOLUMES = 42"
| "ursus_mig_percent URSUS_MIG_WRITE_BOSA = 48"
| "ursus_mig_percent URSUS_MIG_WRITE_RI = 53"
| "ursus_mig_percent URSUS_MIG_WRITE_FIP = 59"
| "ursus_mig_percent URSUS_MIG_WRITE_FIT = 67"
| "ursus_mig_percent URSUS_MIG_VERIFY_BOSA = 76"
| "ursus_mig_percent URSUS_MIG_VERIFY_RI = 80"
| "ursus_mig_percent URSUS_MIG_VERIFY_FIP = 84"
| "ursus_mig_percent URSUS_MIG_VERIFY_FIT = 88"
| "ursus_mig_percent URSUS_MIG_COMMIT_BL2 = 93"
| "ursus_mig_percent URSUS_MIG_VERIFY_BL2 = 97"
| "ursus_mig_percent URSUS_MIG_COMPLETE = 100"
| "ursus_mig_percent URSUS_MIG_FAILED = 0"
| "ursus_mig_percent URSUS_MIG_IDLE = 0"

definition set_mig :: "(ursus_migration_ctx \<Rightarrow> ursus_migration_ctx) \<Rightarrow> ('x, unit) engine" where
  "set_mig f = modify (\<lambda>w. w\<lparr>ursus_mig := f (ursus_mig w)\<rparr>)"

definition ursus_mig_fail :: "int \<Rightarrow> ('x, int) engine" where
  "ursus_mig_fail r =
     (let e = (if r \<noteq> 0 then r else - EIO)
      in do {
        set_mig (\<lambda>c. c\<lparr>mc_error := e, mc_failed_stage := mc_stage c,
                       mc_error_code := snprintf 48 (ursus_mig_stage_name (mc_stage c) @ ''_ERR_''
                                                     @ dec_int (if e \<noteq> 0 then - e else EIO)),
                       mc_stage := URSUS_MIG_FAILED, mc_active := False, mc_announced := False\<rparr>);
        ret e
      })"

definition ursus_ubi_migration_start :: "nat \<Rightarrow> nat \<Rightarrow> nat \<Rightarrow> nat \<Rightarrow> ('x, int) engine" where
  "ursus_ubi_migration_start fit_addr fit_len preloader_addr preloader_len = do {
     busy \<leftarrow> gets (\<lambda>w. mc_active (ursus_mig w));
     if busy then ret (- EBUSY)
     else if fit_len = 0 \<or> fit_len > URSUS_FIT_MAX then ret (- EFBIG)
     else do {
       set_mig (\<lambda>_. zero_mig\<lparr>mc_fit_addr := fit_addr, mc_fit_len := fit_len,
                              mc_preloader_addr := preloader_addr, mc_preloader_len := preloader_len,
                              mc_stage := URSUS_MIG_PRECHECK, mc_active := True\<rparr>);
       ret 0
     }
   }"

section \<open>The stages\<close>

definition mig_advance :: "ursus_migration_stage \<Rightarrow> ursus_migration_stage \<Rightarrow> ('x, int) engine" where
  "mig_advance here next = do {
     set_mig (\<lambda>c. c\<lparr>mc_last_success_stage := here, mc_stage := next\<rparr>);
     ret 0
   }"

text \<open>Run the rest of a stage unless an error occurred.\<close>

definition mig_check :: "int \<Rightarrow> ('x, int) engine \<Rightarrow> ('x, int) engine" where
  "mig_check r rest = (if r \<noteq> 0 then ursus_mig_fail r else rest)"

definition mig_precheck :: "('x, int) engine" where
  "mig_precheck = do {
     c \<leftarrow> gets ursus_mig;
     r \<leftarrow> ursus_ubi_validate_preloader (mc_preloader_addr c) (mc_preloader_len c);
     mig_check r (do {
       r \<leftarrow> ursus_ubi_register_mtd;
       mig_check r (do {
         chip \<leftarrow> gets (\<lambda>w. the (ursus_ubi_master w));
         r \<leftarrow> ursus_bad_in_range chip 0 0x80000;
         mig_check (if r > 0 then - EIO else r) (do {
           r \<leftarrow> ursus_bad_in_range chip URSUS_STOCK_BOSA_OFF URSUS_BOARD_DATA_SIZE;
           mig_check (if r > 0 then - EIO else r) (do {
             r \<leftarrow> ursus_bad_in_range chip URSUS_STOCK_RI_OFF URSUS_BOARD_DATA_SIZE;
             mig_check (if r > 0 then - EIO else r) (do {
               r \<leftarrow> ursus_verify_bl2_candidate;
               mig_check r (mig_advance URSUS_MIG_PRECHECK URSUS_MIG_BACKUP_BOSA)
             })
           })
         })
       })
     })
   }"

definition mig_backup :: "nat \<Rightarrow> nat \<Rightarrow> nat \<Rightarrow> ('x, int) engine \<Rightarrow> ('x, int) engine" where
  "mig_backup off len addr rest = do {
     chip \<leftarrow> gets (\<lambda>w. the (ursus_ubi_master w));
     (r, d) \<leftarrow> ursus_read_range chip off len;
     ram_write addr d;
     mig_check r rest
   }"

definition mig_backup_fip :: "('x, int) engine" where
  "mig_backup_fip = do {
     chip \<leftarrow> gets (\<lambda>w. the (ursus_ubi_master w));
     n \<leftarrow> ursus_current_fip_length chip;
     case n of
       Inl e \<Rightarrow> ursus_mig_fail e
     | Inr len \<Rightarrow> do {
         set_mig (\<lambda>c. c\<lparr>mc_fip_len := len\<rparr>);
         if len > URSUS_UBI_FIP_VOL_SIZE then ursus_mig_fail (- EFBIG)
         else mig_backup URSUS_STOCK_FIP_OFF len URSUS_MIG_FIP_ADDR
                (mig_advance URSUS_MIG_BACKUP_FIP URSUS_MIG_FORMAT_UBI)
       }
   }"

definition mig_format :: "('x, int) engine" where
  "mig_format = do {
     set_mig (\<lambda>c. c\<lparr>mc_write_started := True\<rparr>);
     run_ubi Ubi_detach;
     r \<leftarrow> run_mtd (Mtd_erase ''ursus-ubi-full'' 0 0xffe0000);
     mig_check r (mig_advance URSUS_MIG_FORMAT_UBI URSUS_MIG_ATTACH_UBI)
   }"

definition mig_attach :: "('x, int) engine" where
  "mig_attach = do {
     r \<leftarrow> run_ubi (Ubi_part ''ursus-ubi-full'');
     mig_check r (mig_advance URSUS_MIG_ATTACH_UBI URSUS_MIG_CREATE_VOLUMES)
   }"

text \<open>Commands joined by \<open>||\<close>: the first failure ends the sequence.\<close>

fun run_ubi_all :: "ubi_command list \<Rightarrow> ('x world_scheme, int) state" where
  "run_ubi_all [] = ret 0"
| "run_ubi_all (c # cs) = do {
     r \<leftarrow> run_ubi c;
     if r \<noteq> 0 then ret r else run_ubi_all cs
   }"

definition mig_volumes :: "nat \<Rightarrow> ubi_command list" where
  "mig_volumes fit_len =
     [Ubi_create ''ubootenv'' 0x1f000 True (Some 0),
      Ubi_create ''ubootenv2'' 0x1f000 True (Some 1),
      Ubi_create ''bosa'' 0x40000 True (Some 2),
      Ubi_create ''ri'' 0x40000 True (Some 3),
      Ubi_create ''fip'' 0x100000 False (Some 4),
      Ubi_create ''fit'' fit_len True (Some 5)]"

definition mig_volume_checks :: "ubi_command list" where
  "mig_volume_checks =
     map Ubi_check [''ubootenv'', ''ubootenv2'', ''bosa'', ''ri'', ''fip'', ''fit'', ''rootfs_data'']"

definition mig_create_volumes :: "('x, int) engine" where
  "mig_create_volumes = do {
     c \<leftarrow> gets ursus_mig;
     r \<leftarrow> run_ubi_all (mig_volumes (mc_fit_len c));
     mig_check r (do {
       t \<leftarrow> ursus_ubi_create_clean_rootfs_data False;
       case t of
         Inl e \<Rightarrow> ursus_mig_fail e
       | Inr _ \<Rightarrow> do {
           r \<leftarrow> run_ubi_all mig_volume_checks;
           mig_check r (do {
             r \<leftarrow> ursus_ubi_verify_volume_manifest True;
             mig_check r (mig_advance URSUS_MIG_CREATE_VOLUMES URSUS_MIG_WRITE_BOSA)
           })
         }
     })
   }"

definition mig_write ::
  "nat \<Rightarrow> string \<Rightarrow> nat \<Rightarrow> ursus_migration_stage \<Rightarrow> ursus_migration_stage \<Rightarrow> ('x, int) engine" where
  "mig_write addr n len here next = do {
     r \<leftarrow> run_ubi (Ubi_write addr n len);
     mig_check r (mig_advance here next)
   }"

definition mig_readback :: "nat \<Rightarrow> string \<Rightarrow> nat \<Rightarrow> ('x, int) engine \<Rightarrow> ('x, int) engine" where
  "mig_readback addr n len rest = do {
     r \<leftarrow> run_ubi (Ubi_read URSUS_UBI_READBACK_ADDR n len);
     e \<leftarrow> (if r \<noteq> 0 then ret 0 else ursus_mem_equal addr URSUS_UBI_READBACK_ADDR len);
     mig_check (if r \<noteq> 0 then r else if e \<noteq> 0 then - EBADMSG else 0) rest
   }"

definition mig_verify_fit :: "('x, int) engine" where
  "mig_verify_fit = do {
     c \<leftarrow> gets ursus_mig;
     mig_readback (mc_fit_addr c) ''fit'' (mc_fit_len c) (do {
       r \<leftarrow> run_ubi (Ubi_check ''rootfs_data'');
       mig_check r (do {
         b \<leftarrow> ursus_ubi_current_rootfs_data;
         case b of
           Inl e \<Rightarrow> ursus_mig_fail e
         | Inr (bytes, _) \<Rightarrow> do {
             ursus_ubi_store_rootfs_data_max bytes;
             r \<leftarrow> ursus_ubi_verify_volume_manifest True;
             mig_check r (mig_advance URSUS_MIG_VERIFY_FIT URSUS_MIG_COMMIT_BL2)
           }
       })
     })
   }"

definition mig_commit_bl2 :: "('x, int) engine" where
  "mig_commit_bl2 = do {
     set_mig (\<lambda>c. c\<lparr>mc_commit_started := True\<rparr>);
     run_ubi Ubi_detach;
     r \<leftarrow> run_mtd (Mtd_erase ''ursus-ubi-bl2'' 0 0x20000);
     mig_check r (do {
       a \<leftarrow> gets ursus_bl2_candidate_buf;
       r \<leftarrow> run_mtd (Mtd_write ''ursus-ubi-bl2'' a 0 0x20000);
       mig_check r (mig_advance URSUS_MIG_COMMIT_BL2 URSUS_MIG_VERIFY_BL2)
     })
   }"

definition mig_verify_bl2 :: "('x, int) engine" where
  "mig_verify_bl2 = do {
     r \<leftarrow> run_mtd (Mtd_read ''ursus-ubi-bl2'' URSUS_UBI_READBACK_ADDR 0 0x20000);
     a \<leftarrow> gets ursus_bl2_candidate_buf;
     e \<leftarrow> (if r \<noteq> 0 then ret 0 else ursus_mem_equal a URSUS_UBI_READBACK_ADDR URSUS_UBI_BL2_SIZE);
     mig_check (if r \<noteq> 0 then r else if e \<noteq> 0 then - EBADMSG else 0) (do {
       set_mig (\<lambda>c. c\<lparr>mc_last_success_stage := URSUS_MIG_VERIFY_BL2, mc_stage := URSUS_MIG_COMPLETE,
                      mc_active := False, mc_error := 0\<rparr>);
       ret 1
     })
   }"

definition mig_execute :: "ursus_migration_stage \<Rightarrow> ('x, int) engine" where
  "mig_execute st = do {
     c \<leftarrow> gets ursus_mig;
     case st of
        URSUS_MIG_PRECHECK \<Rightarrow> mig_precheck
      | URSUS_MIG_BACKUP_BOSA \<Rightarrow>
          mig_backup URSUS_STOCK_BOSA_OFF URSUS_BOARD_DATA_SIZE URSUS_MIG_BOSA_ADDR
            (mig_advance URSUS_MIG_BACKUP_BOSA URSUS_MIG_BACKUP_RI)
      | URSUS_MIG_BACKUP_RI \<Rightarrow>
          mig_backup URSUS_STOCK_RI_OFF URSUS_BOARD_DATA_SIZE URSUS_MIG_RI_ADDR
            (mig_advance URSUS_MIG_BACKUP_RI URSUS_MIG_BACKUP_FIP)
      | URSUS_MIG_BACKUP_FIP \<Rightarrow> mig_backup_fip
      | URSUS_MIG_FORMAT_UBI \<Rightarrow> mig_format
      | URSUS_MIG_ATTACH_UBI \<Rightarrow> mig_attach
      | URSUS_MIG_CREATE_VOLUMES \<Rightarrow> mig_create_volumes
      | URSUS_MIG_WRITE_BOSA \<Rightarrow>
          mig_write URSUS_MIG_BOSA_ADDR ''bosa'' URSUS_BOARD_DATA_SIZE URSUS_MIG_WRITE_BOSA URSUS_MIG_WRITE_RI
      | URSUS_MIG_WRITE_RI \<Rightarrow>
          mig_write URSUS_MIG_RI_ADDR ''ri'' URSUS_BOARD_DATA_SIZE URSUS_MIG_WRITE_RI URSUS_MIG_WRITE_FIP
      | URSUS_MIG_WRITE_FIP \<Rightarrow>
          mig_write URSUS_MIG_FIP_ADDR ''fip'' (mc_fip_len c) URSUS_MIG_WRITE_FIP URSUS_MIG_WRITE_FIT
      | URSUS_MIG_WRITE_FIT \<Rightarrow>
          mig_write (mc_fit_addr c) ''fit'' (mc_fit_len c) URSUS_MIG_WRITE_FIT URSUS_MIG_VERIFY_BOSA
      | URSUS_MIG_VERIFY_BOSA \<Rightarrow>
          mig_readback URSUS_MIG_BOSA_ADDR ''bosa'' URSUS_BOARD_DATA_SIZE
            (mig_advance URSUS_MIG_VERIFY_BOSA URSUS_MIG_VERIFY_RI)
      | URSUS_MIG_VERIFY_RI \<Rightarrow>
          mig_readback URSUS_MIG_RI_ADDR ''ri'' URSUS_BOARD_DATA_SIZE
            (mig_advance URSUS_MIG_VERIFY_RI URSUS_MIG_VERIFY_FIP)
      | URSUS_MIG_VERIFY_FIP \<Rightarrow>
          mig_readback URSUS_MIG_FIP_ADDR ''fip'' (mc_fip_len c)
            (mig_advance URSUS_MIG_VERIFY_FIP URSUS_MIG_VERIFY_FIT)
      | URSUS_MIG_VERIFY_FIT \<Rightarrow> mig_verify_fit
      | URSUS_MIG_COMMIT_BL2 \<Rightarrow> mig_commit_bl2
      | URSUS_MIG_VERIFY_BL2 \<Rightarrow> mig_verify_bl2
      | _ \<Rightarrow> ursus_mig_fail (- EINVAL)
   }"

definition ursus_ubi_migration_step :: "('x, int) engine" where
  "ursus_ubi_migration_step = do {
     c \<leftarrow> gets ursus_mig;
     if \<not> mc_active c
     then ret (if mc_stage c = URSUS_MIG_COMPLETE then 1
               else if mc_stage c = URSUS_MIG_FAILED then mc_error c else 0)
     else if \<not> mc_announced c
     then do {
       t \<leftarrow> get_timer 0;
       set_mig (\<lambda>c. c\<lparr>mc_announced := True, mc_announced_at := t\<rparr>);
       ret 0
     }
     else do {
       dt \<leftarrow> get_timer (mc_announced_at c);
       if dt < URSUS_MIG_STAGE_HOLD_MS then ret 0
       else do {
         set_mig (\<lambda>c. c\<lparr>mc_announced := False\<rparr>);
         mig_execute (mc_stage c)
       }
     }
   }"

definition ursus_ubi_migrate_from_stock :: "nat \<Rightarrow> nat \<Rightarrow> nat \<Rightarrow> nat \<Rightarrow> nat \<Rightarrow> ('x, int option) engine" where
  "ursus_ubi_migrate_from_stock fuel fit_addr fit_len preloader_addr preloader_len = do {
     r \<leftarrow> ursus_ubi_migration_start fit_addr fit_len preloader_addr preloader_len;
     if r \<noteq> 0 then ret (Some r)
     else step_loop fuel (\<lambda>w. mc_active (ursus_mig w)) ursus_ubi_migration_step (mdelay 10)
            (gets (\<lambda>w. if mc_stage (ursus_mig w) = URSUS_MIG_COMPLETE then 0 else mc_error (ursus_mig w)))
   }"

section \<open>The machine\<close>

fun mig_successor :: "ursus_migration_stage \<Rightarrow> ursus_migration_stage" where
  "mig_successor URSUS_MIG_PRECHECK = URSUS_MIG_BACKUP_BOSA"
| "mig_successor URSUS_MIG_BACKUP_BOSA = URSUS_MIG_BACKUP_RI"
| "mig_successor URSUS_MIG_BACKUP_RI = URSUS_MIG_BACKUP_FIP"
| "mig_successor URSUS_MIG_BACKUP_FIP = URSUS_MIG_FORMAT_UBI"
| "mig_successor URSUS_MIG_FORMAT_UBI = URSUS_MIG_ATTACH_UBI"
| "mig_successor URSUS_MIG_ATTACH_UBI = URSUS_MIG_CREATE_VOLUMES"
| "mig_successor URSUS_MIG_CREATE_VOLUMES = URSUS_MIG_WRITE_BOSA"
| "mig_successor URSUS_MIG_WRITE_BOSA = URSUS_MIG_WRITE_RI"
| "mig_successor URSUS_MIG_WRITE_RI = URSUS_MIG_WRITE_FIP"
| "mig_successor URSUS_MIG_WRITE_FIP = URSUS_MIG_WRITE_FIT"
| "mig_successor URSUS_MIG_WRITE_FIT = URSUS_MIG_VERIFY_BOSA"
| "mig_successor URSUS_MIG_VERIFY_BOSA = URSUS_MIG_VERIFY_RI"
| "mig_successor URSUS_MIG_VERIFY_RI = URSUS_MIG_VERIFY_FIP"
| "mig_successor URSUS_MIG_VERIFY_FIP = URSUS_MIG_VERIFY_FIT"
| "mig_successor URSUS_MIG_VERIFY_FIT = URSUS_MIG_COMMIT_BL2"
| "mig_successor URSUS_MIG_COMMIT_BL2 = URSUS_MIG_VERIFY_BL2"
| "mig_successor _ = URSUS_MIG_FAILED"

fun mig_rank :: "ursus_migration_stage \<Rightarrow> nat" where
  "mig_rank URSUS_MIG_PRECHECK = 16"
| "mig_rank URSUS_MIG_BACKUP_BOSA = 15"
| "mig_rank URSUS_MIG_BACKUP_RI = 14"
| "mig_rank URSUS_MIG_BACKUP_FIP = 13"
| "mig_rank URSUS_MIG_FORMAT_UBI = 12"
| "mig_rank URSUS_MIG_ATTACH_UBI = 11"
| "mig_rank URSUS_MIG_CREATE_VOLUMES = 10"
| "mig_rank URSUS_MIG_WRITE_BOSA = 9"
| "mig_rank URSUS_MIG_WRITE_RI = 8"
| "mig_rank URSUS_MIG_WRITE_FIP = 7"
| "mig_rank URSUS_MIG_WRITE_FIT = 6"
| "mig_rank URSUS_MIG_VERIFY_BOSA = 5"
| "mig_rank URSUS_MIG_VERIFY_RI = 4"
| "mig_rank URSUS_MIG_VERIFY_FIP = 3"
| "mig_rank URSUS_MIG_VERIFY_FIT = 2"
| "mig_rank URSUS_MIG_COMMIT_BL2 = 1"
| "mig_rank _ = 0"

definition mig_at :: "ursus_migration_stage \<Rightarrow> ursus_migration_ctx \<Rightarrow> bool" where
  "mig_at st c = (mc_active c \<and> mc_stage c = st \<and> \<not> mc_announced c)"

definition mig_outcome :: "ursus_migration_stage \<Rightarrow> int \<Rightarrow> ursus_migration_ctx \<Rightarrow> bool" where
  "mig_outcome st r c =
     (if mc_active c then r = 0 \<and> \<not> mc_announced c \<and> mig_rank st \<noteq> 0 \<and> mc_stage c = mig_successor st
      else if st = URSUS_MIG_VERIFY_BL2 \<and> mc_stage c = URSUS_MIG_COMPLETE then r = 1
      else mc_stage c = URSUS_MIG_FAILED \<and> mc_failed_stage c = st \<and> mc_error c = r \<and> r \<noteq> 0)"

lemma wp_set_mig [simp]: "wp (set_mig f) Q = (\<lambda>w. Q () (w\<lparr>ursus_mig := f (ursus_mig w)\<rparr>))"
  by (simp add: set_mig_def)

lemma ubi_free_mig: "ubi_free (\<lambda>w. p (ursus_mig w))"
  by (simp add: ubi_free_def view_defs)

lemma parts_free_mig: "parts_free (\<lambda>w. p (ursus_mig w))"
  by (simp add: parts_free_def view_defs)

lemma flash_free_mig: "ignores_flash (\<lambda>w. p (ursus_mig w))"
  by (simp add: view_defs)

lemma keeps_set_mig: "(\<And>c. p (f c) = p c) \<Longrightarrow> keeps (\<lambda>w. p (ursus_mig w)) (set_mig f)"
  by (simp add: set_mig_def keeps_modify)

lemma keeps_verify_bl2_candidate:
  "(\<And>w b. f (w\<lparr>ursus_bl2_candidate_ok := b\<rparr>) = f w) \<Longrightarrow> keeps f ursus_verify_bl2_candidate"
  unfolding ursus_verify_bl2_candidate_def by (intro keeps_intros)

lemma keeps_run_ubi_all: "ubi_free f \<Longrightarrow> keeps f (run_ubi_all cs)"
  by (induction cs; unfold run_ubi_all.simps; intro keeps_intros keeps_run_ubi; assumption?)

lemma ens_mig_fail:
  "ens (\<lambda>w. mig_at st (ursus_mig w)) (\<lambda>r w. mig_outcome st r (ursus_mig w)) (ursus_mig_fail r)"
  by (auto simp: ens_def ursus_mig_fail_def mig_at_def mig_outcome_def Let_def)

lemma ens_mig_advance:
  "mig_rank st \<noteq> 0 \<Longrightarrow> next = mig_successor st \<Longrightarrow>
   ens (\<lambda>w. mig_at st (ursus_mig w)) (\<lambda>r w. mig_outcome st r (ursus_mig w)) (mig_advance here next)"
  by (auto simp: ens_def mig_advance_def mig_at_def mig_outcome_def)

lemma ens_mig_check:
  "ens (\<lambda>w. mig_at st (ursus_mig w)) (\<lambda>r w. mig_outcome st r (ursus_mig w)) rest \<Longrightarrow>
   ens (\<lambda>w. mig_at st (ursus_mig w)) (\<lambda>r w. mig_outcome st r (ursus_mig w)) (mig_check r rest)"
  unfolding mig_check_def by (intro ens_if ens_mig_fail)

lemmas mig_frames = ens_intros ens_mig_check ens_bind ens_mig_fail ens_mig_advance keeps_set_mig keeps_intros
  engine_frames keeps_run_ubi_all keeps_verify_bl2_candidate ubi_free_mig parts_free_mig
  flash_free_mig ubi_free_ignores [OF ubi_free_mig]

lemmas mig_stage_defs = mig_precheck_def mig_backup_def mig_backup_fip_def mig_format_def mig_attach_def
  mig_create_volumes_def mig_write_def mig_readback_def mig_verify_fit_def mig_commit_bl2_def

lemma ens_mig_complete:
  "ens (\<lambda>w. mig_at URSUS_MIG_VERIFY_BL2 (ursus_mig w)) (\<lambda>r w. mig_outcome URSUS_MIG_VERIFY_BL2 r (ursus_mig w))
     (do {
        set_mig (\<lambda>c. c\<lparr>mc_last_success_stage := URSUS_MIG_VERIFY_BL2, mc_stage := URSUS_MIG_COMPLETE,
                       mc_active := False, mc_error := 0\<rparr>);
        ret 1
      })"
  by (simp add: ens_def mig_outcome_def)

lemma ens_mig_execute:
  "ens (\<lambda>w. mig_at st (ursus_mig w)) (\<lambda>r w. mig_outcome st r (ursus_mig w)) (mig_execute st)"
proof (cases st)
  case URSUS_MIG_VERIFY_BL2
  show ?thesis
    unfolding URSUS_MIG_VERIFY_BL2 mig_execute_def ursus_migration_stage.case mig_verify_bl2_def
    by (intro ens_mig_complete mig_frames)
qed (unfold mig_execute_def mig_stage_defs, simp_all only: ursus_migration_stage.case,
     (intro mig_frames; simp add: mig_at_def)+)

lemma wp_migration_step_due:
  assumes "mc_active (ursus_mig w)" "mc_announced (ursus_mig w)"
    "URSUS_MIG_STAGE_HOLD_MS \<le> clock w - mc_announced_at (ursus_mig w)"
  shows "wp ursus_ubi_migration_step (\<lambda>r w'. mig_outcome (mc_stage (ursus_mig w)) r (ursus_mig w')) w"
proof -
  have "wp (mig_execute (mc_stage (ursus_mig w)))
          (\<lambda>r w'. mig_outcome (mc_stage (ursus_mig w)) r (ursus_mig w'))
          (w\<lparr>ursus_mig := (ursus_mig w)\<lparr>mc_announced := False\<rparr>\<rparr>)"
    by (rule ensD [OF ens_mig_execute]) (use assms in \<open>simp add: mig_at_def\<close>)
  then show ?thesis
    using assms by (simp add: ursus_ubi_migration_step_def)
qed

lemma mig_outcome_active:
  "mig_outcome st r c \<Longrightarrow> mc_active c \<Longrightarrow> \<not> mc_announced c \<and> mig_rank (mc_stage c) < mig_rank st"
  by (cases st) (auto simp: mig_outcome_def)

interpretation mig: staged_machine
  "\<lambda>w. mc_active (ursus_mig w)" "\<lambda>w. mc_stage (ursus_mig w)" "\<lambda>w. mc_announced (ursus_mig w)"
  "\<lambda>w. mc_announced_at (ursus_mig w)" "clock :: 'x ubi_world_scheme \<Rightarrow> nat" ursus_ubi_migration_step "mdelay 10"
  URSUS_MIG_STAGE_HOLD_MS mig_rank
proof unfold_locales
  fix w :: "'x ubi_world_scheme"
  assume "mc_active (ursus_mig w)" "mc_announced (ursus_mig w)"
    "URSUS_MIG_STAGE_HOLD_MS \<le> clock w - mc_announced_at (ursus_mig w)"
  then show "wp ursus_ubi_migration_step (\<lambda>r w'. mc_active (ursus_mig w') \<longrightarrow>
      \<not> mc_announced (ursus_mig w') \<and> mig_rank (mc_stage (ursus_mig w')) < mig_rank (mc_stage (ursus_mig w))) w"
    by (rule wp_mono [OF wp_migration_step_due]) (blast dest: mig_outcome_active)
qed (simp_all add: ursus_ubi_migration_step_def)

text \<open>The turns that the blocking form needs: seventeen stages of at most 37 turns.\<close>

definition mig_fuel :: nat where "mig_fuel = 630"

lemma mig_turns: "mig.turns = 37"
  unfolding mig.turns_def by (simp add: URSUS_MIG_STAGE_HOLD_MS_def)

lemma wp_migration_start:
  "wp (ursus_ubi_migration_start a n p l) (\<lambda>r w'. r = 0 \<longrightarrow> mig_at URSUS_MIG_PRECHECK (ursus_mig w')) w"
  by (simp add: ursus_ubi_migration_start_def mig_at_def zero_mig_def)

section \<open>Properties\<close>


end
