(* ===== verification/Migration_Safety.thy ===== *)
theory Migration_Safety
  imports Migration Ubi_Track
begin

text \<open>
  What the migration leaves alone until it commits, and what it has installed when it completes: the
  first block of the chip, which the boot ROM loads, is not touched before the last two stages, and a
  completed migration leaves there exactly the image with the pinned hash.
\<close>

section \<open>Where the partitions lie\<close>

definition well_placed :: "'x world_scheme \<Rightarrow> bool" where
  "well_placed w = (\<forall>m \<in> set (mtds w).
     (\<not> mtd_is_partition m \<longrightarrow> mtd_offset m = 0)
     \<and> (mtd_name m = ''ursus-ubi-full'' \<longrightarrow> URSUS_UBI_BASE \<le> mtd_offset m)
     \<and> (mtd_name m = ''ursus-ubi-bl2'' \<longrightarrow> mtd_offset m = 0 \<and> mtd_size m = URSUS_UBI_BL2_SIZE
          \<and> erasesize m = 0x20000 \<and> writesize m = 0x800))"

lemma well_placed_same: "mtds w' = mtds w \<Longrightarrow> well_placed w' = well_placed w"
  by (simp add: well_placed_def)

lemma well_placed_statics [simp]:
  "well_placed (w\<lparr>ursus_ubi_master := m\<rparr>) = well_placed w" "well_placed (w\<lparr>ursus_ubi_bl2 := m\<rparr>) = well_placed w"
  "well_placed (w\<lparr>ursus_ubi_full := m\<rparr>) = well_placed w" "well_placed (w\<lparr>ursus_ubi_mtd_ready := b\<rparr>) = well_placed w"
  "well_placed (w\<lparr>ursus_mig := c\<rparr>) = well_placed w"
  by (simp_all add: well_placed_def)

lemma well_placed_named:
  assumes "well_placed w" "mtd_named n w = Some m"
  shows "m \<in> set (mtds w)" "mtd_name m = n"
    and "n = ''ursus-ubi-full'' \<Longrightarrow> URSUS_UBI_BASE \<le> mtd_offset m"
    and "n = ''ursus-ubi-bl2'' \<Longrightarrow> mtd_offset m = 0 \<and> mtd_size m = URSUS_UBI_BL2_SIZE \<and> erasesize m = 0x20000 \<and> writesize m = 0x800"
proof -
  show m: "m \<in> set (mtds w)" "mtd_name m = n"
    using assms(2) unfolding mtd_named_def find_Some_iff by (metis length_rev nth_mem set_rev)+
  show "n = ''ursus-ubi-full'' \<Longrightarrow> URSUS_UBI_BASE \<le> mtd_offset m"
    "n = ''ursus-ubi-bl2'' \<Longrightarrow> mtd_offset m = 0 \<and> mtd_size m = URSUS_UBI_BL2_SIZE \<and> erasesize m = 0x20000 \<and> writesize m = 0x800"
    using m assms(1) by (auto simp: well_placed_def)
qed

lemma wp_add_placed:
  assumes "\<forall>p \<in> set ps. let m = allocate_partition chip p in
     (mtd_name m = ''ursus-ubi-full'' \<longrightarrow> URSUS_UBI_BASE \<le> mtd_offset m)
     \<and> (mtd_name m = ''ursus-ubi-bl2'' \<longrightarrow> mtd_offset m = 0 \<and> mtd_size m = URSUS_UBI_BL2_SIZE
          \<and> erasesize m = 0x20000 \<and> writesize m = 0x800)"
  shows "well_placed w \<Longrightarrow> wp (add_mtd_partitions chip ps) (\<lambda>_. well_placed) w"
  using assms
proof (induction ps arbitrary: w)
  case (Cons p ps)
  have "well_placed (v\<lparr>mtds := mtds w @ [allocate_partition chip p]\<rparr>)" for v :: "'a world_scheme"
    using Cons.prems by (auto simp: well_placed_def Let_def allocate_partition_def)
  moreover have "well_placed v" if "mtds v = mtds w" for v :: "'a world_scheme"
    using that Cons.prems(1) by (simp add: well_placed_def)
  ultimately show ?case
    using Cons by (simp add: memalign_addr_def)
qed simp

lemma wp_register_placed:
  assumes "well_placed w"
  shows "wp ursus_ubi_register_mtd (\<lambda>_. well_placed) w"
proof -
  have parts: "wp (add_mtd_partitions chip ursus_ubi_parts) (\<lambda>_. well_placed) v"
    if "well_placed v" "mtd_offset chip = 0" "erasesize chip = 0x20000" "writesize chip = 0x800"
    for chip and v :: "'a ubi_world_scheme"
    using that
    by (intro wp_add_placed) (simp_all add: ursus_ubi_parts_def allocate_partition_def URSUS_UBI_BASE_def Let_def)
  have chip: "mtd_offset m = 0" if "find P (mtds w) = Some m" "\<And>m. P m \<Longrightarrow> \<not> mtd_is_partition m" for m P
    using that assms by (auto simp: well_placed_def find_Some_iff)
  show ?thesis
    unfolding ursus_ubi_register_mtd_def ursus_find_master_nand_def
    using assms by (auto split: option.split intro!: wp_mono [OF parts] intro: chip)
qed

section \<open>Frames of the stages\<close>

text \<open>A view that does not look at the state of the migration.\<close>

definition ignores_mig :: "('x ubi_world_scheme \<Rightarrow> 'v) \<Rightarrow> bool" where
  "ignores_mig f = (\<forall>w c. f (w\<lparr>ursus_mig := c\<rparr>) = f w)"

named_theorems mig_keeps

lemma keeps_mig_basic [mig_keeps]:
  "ignores_mig f \<Longrightarrow> keeps f (set_mig g)" "ignores_mig f \<Longrightarrow> keeps f (ursus_mig_fail r)"
  "ignores_mig f \<Longrightarrow> keeps f (mig_advance a b)"
  "ignores_mig f \<Longrightarrow> keeps f m \<Longrightarrow> keeps f (mig_check r m)"
  unfolding ursus_mig_fail_def mig_advance_def mig_check_def set_mig_def
  by (simp_all add: keeps_def ignores_mig_def Let_def)

lemma keeps_mig_flash:
  assumes "ubi_free f" "ignores_mig f"
    and "st \<notin> {URSUS_MIG_PRECHECK, URSUS_MIG_FORMAT_UBI, URSUS_MIG_COMMIT_BL2, URSUS_MIG_VERIFY_BL2}"
  shows "keeps f (mig_execute st)"
  using assms(3)
  by (cases st; simp only: mig_execute_def ursus_migration_stage.case insert_iff simp_thms;
      (unfold mig_stage_defs)?;
      intro keeps_intros mig_keeps engine_frames keeps_run_ubi_all assms ubi_free_ignores)

section \<open>The first block\<close>

abbreviation first_block :: "'x ubi_world_scheme \<Rightarrow> nat \<Rightarrow> byte" where
  "first_block \<equiv> nand_at (\<lambda>a. a < URSUS_UBI_BASE)"

lemma nand_at_mig [simp]: "nand_at P (w\<lparr>ursus_mig := c\<rparr>) = nand_at P w"
  by (simp add: nand_at_def fun_eq_iff)

lemma ubi_free_first_block: "ubi_free (\<lambda>w. (mtds w, first_block w))"
proof -
  have "ubi_free first_block"
    by (rule ubi_free_nand_at) (simp add: ubi_region_def)
  then show ?thesis
    by (simp add: ubi_free_def view_defs)
qed

lemma wp_precheck_placed:
  assumes "well_placed w"
  shows "wp mig_precheck (\<lambda>_ w'. well_placed w' \<and> first_block w' = first_block w) w"
proof -
  let ?f = "\<lambda>w :: 'a ubi_world_scheme. (mtds w, first_block w)"
  let ?Q = "\<lambda>_ w'. well_placed w' \<and> first_block w' = first_block w"
  have free: "ignores_mig ?f" "ignores_time ?f" "\<And>w b. ?f (w\<lparr>ursus_bl2_candidate_ok := b\<rparr>) = ?f w"
    by (simp_all add: ignores_mig_def view_defs nand_at_def fun_eq_iff)
  have keep: "wp m ?Q v" if "keeps ?f m" "?Q () v" for m :: "('a, int) engine" and v
    by (rule wp_mono [OF keeps_wp [OF that(1)]]) (use that(2) in \<open>simp add: well_placed_def\<close>)
  have tail: "keeps ?f (do { chip \<leftarrow> gets g;
         r \<leftarrow> ursus_bad_in_range chip 0 0x80000;
         mig_check (if r > 0 then - EIO else r) (do {
           r \<leftarrow> ursus_bad_in_range chip URSUS_STOCK_BOSA_OFF URSUS_BOARD_DATA_SIZE;
           mig_check (if r > 0 then - EIO else r) (do {
             r \<leftarrow> ursus_bad_in_range chip URSUS_STOCK_RI_OFF URSUS_BOARD_DATA_SIZE;
             mig_check (if r > 0 then - EIO else r) (do {
               r \<leftarrow> ursus_verify_bl2_candidate;
               mig_check r (mig_advance URSUS_MIG_PRECHECK URSUS_MIG_BACKUP_BOSA)
             })
           })
         }) })" for g
    by (intro keeps_intros mig_keeps free keeps_verify_bl2_candidate)
  have "parts_free (first_block :: 'a ubi_world_scheme \<Rightarrow> _)"
    by (simp add: parts_free_def view_defs nand_at_def fun_eq_iff)
  note reg = wp_conj [OF wp_register_placed [OF assms] keeps_wp [OF keeps_register_mtd [OF this]]]
  have "wp (do { r \<leftarrow> ursus_ubi_register_mtd; mig_check r m }) ?Q w" if "keeps ?f m" for m
    by (rule wp_bindI [OF reg]) (rule keep, intro mig_keeps free that, simp)
  note reg' = this [OF tail]
  show ?thesis
    unfolding mig_precheck_def wp_bind [of "gets _"] wp_gets
  proof (rule wp_bind_keeps [OF keeps_validate_preloader [of "\<lambda>w. w"]], goal_cases)
    case (1 r v)
    then show ?case
      using reg' assms keep [of "ursus_mig_fail r" w] mig_keeps(2) [OF free(1)]
      by (simp add: mig_check_def del: wp_bind)
  qed
qed

lemma wp_format_placed:
  assumes "well_placed w"
  shows "wp mig_format (\<lambda>_ w'. well_placed w' \<and> first_block w' = first_block w) w"
proof -
  let ?f = "\<lambda>w :: 'a ubi_world_scheme. (mtds w, first_block w)"
  have free: "ignores_mig ?f"
    by (simp add: ignores_mig_def nand_at_def fun_eq_iff)
  have "mtd_avoids m (\<lambda>a. a < URSUS_UBI_BASE)"
    if "mtd_named ''ursus-ubi-full'' v = Some m" "mtds v = mtds w" for m and v :: "'a ubi_world_scheme"
    using well_placed_named [of v] that assms well_placed_same [of v w] by (fastforce simp: mtd_avoids_def)
  then have "wp (run_mtd (Mtd_erase ''ursus-ubi-full'' 0 n)) (\<lambda>_ v'. ?f v' = ?f w) v" if "?f v = ?f w" for n v
    using that
    by (intro wp_mono [OF wp_conj [OF keeps_wp [OF keeps_run_mtd [of mtds]]
            run_mtd_keeps_nand_at [of "Mtd_erase ''ursus-ubi-full'' 0 n" v "\<lambda>a. a < URSUS_UBI_BASE"]]])
       (auto simp: view_defs)
  note erase = this
  have adv: "wp (mig_check r (mig_advance a b)) (\<lambda>_ v'. ?f v' = ?f w) v" if "?f v = ?f w" for r a b v
    by (rule wp_mono [OF keeps_wp [OF mig_keeps(4) [OF free mig_keeps(3) [OF free]]]]) (use that in simp)
  have "wp mig_format (\<lambda>_ v'. ?f v' = ?f w) w"
    unfolding mig_format_def
    by (rule wp_bind_keeps [OF mig_keeps(1) [OF free]],
        rule wp_bind_keeps [OF keeps_run_ubi [OF ubi_free_first_block]],
        rule wp_bindI [OF erase], simp, rule adv)
  then show ?thesis
    by (rule wp_mono) (use assms in \<open>auto simp: well_placed_def\<close>)
qed

lemma wp_execute_placed:
  assumes "well_placed w" "st \<noteq> URSUS_MIG_COMMIT_BL2" "st \<noteq> URSUS_MIG_VERIFY_BL2"
  shows "wp (mig_execute st) (\<lambda>_ w'. well_placed w' \<and> first_block w' = first_block w) w"
proof -
  let ?f = "\<lambda>w :: 'a ubi_world_scheme. (mtds w, first_block w)"
  have "ignores_mig ?f"
    by (simp add: ignores_mig_def nand_at_def fun_eq_iff)
  note rest = keeps_wp [OF keeps_mig_flash [OF ubi_free_first_block this, of st]]
  consider "st = URSUS_MIG_PRECHECK" | "st = URSUS_MIG_FORMAT_UBI"
    | "st \<notin> {URSUS_MIG_PRECHECK, URSUS_MIG_FORMAT_UBI, URSUS_MIG_COMMIT_BL2, URSUS_MIG_VERIFY_BL2}"
    using assms by blast
  then show ?thesis
  proof cases
    case 3
    show ?thesis
      by (rule wp_mono [OF rest [OF 3]]) (use assms in \<open>auto simp: well_placed_def\<close>)
  qed (use wp_precheck_placed wp_format_placed assms in \<open>simp_all add: mig_execute_def\<close>)
qed

section \<open>The candidate for the first block\<close>

text \<open>
  The RAM that the migration writes: the copies of the board data and the FIP, and the buffer at which
  volumes are read back.
\<close>

definition MIG_LO :: nat where "MIG_LO = 0x94000000"
definition MIG_LEN :: nat where "MIG_LEN = 0x04200000"

definition mig_kept :: "'x ubi_world_scheme \<Rightarrow> _" where
  "mig_kept w = (orc w, ursus_bl2_candidate_buf w, ram_off MIG_LO MIG_LEN w)"

lemma mig_kept_ignores [simp]:
  "calm mig_kept" "ignores_env mig_kept" "ignores_hung mig_kept" "ignores_time mig_kept" "ignores_flash mig_kept"
  "ignores_mig mig_kept" "parts_free mig_kept" "mig_kept (w\<lparr>ursus_bl2_candidate_ok := b\<rparr>) = mig_kept w"
  by (simp_all add: mig_kept_def [abs_def] calm_def parts_free_def ignores_mig_def view_defs ram_off_def fun_eq_iff)

lemma mig_kept_buf: "MIG_LO \<le> a \<Longrightarrow> a + n \<le> MIG_LO + MIG_LEN \<Longrightarrow> ignores_buf a n mig_kept"
  by (auto simp: ignores_buf_def mig_kept_def ram_off_def mem_write_def fun_eq_iff)

lemma keeps_calm_engine [mig_keeps]:
  "calm f \<Longrightarrow> keeps f (volumes_present ns)"
  "calm f \<Longrightarrow> keeps f (ursus_ubi_verify_volume_manifest b)"
  "calm f \<Longrightarrow> ignores_env f \<Longrightarrow> keeps f env_save"
  "calm f \<Longrightarrow> ignores_env f \<Longrightarrow> keeps f (ursus_ubi_store_rootfs_data_max n)"
  "calm f \<Longrightarrow> keeps f ursus_ubi_current_rootfs_data"
  "calm f \<Longrightarrow> ignores_env f \<Longrightarrow> keeps f (ursus_ubi_create_clean_rootfs_data p)"
proof -
  show present: "keeps f (volumes_present ns)" if "calm f" for ns
    by (induction ns; unfold volumes_present.simps;
        intro keeps_intros keeps_open_volume_nm keeps_close_volume that; assumption?)
  show "keeps f (ursus_ubi_verify_volume_manifest b)" if "calm f"
    unfolding ursus_ubi_verify_volume_manifest_def
    by (intro keeps_intros present keeps_open_volume_nm keeps_close_volume that)
  show save: "keeps f env_save" if "calm f" "ignores_env f"
    unfolding env_save_def env_ubi_save_def
    by (intro calm_intros that keeps_ubi_part keeps_ubi_volume_write)
  show store: "keeps f (ursus_ubi_store_rootfs_data_max n)" if "calm f" "ignores_env f" for n
    unfolding ursus_ubi_store_rootfs_data_max_def by (intro keeps_intros save calm_ignores that)
  show "keeps f ursus_ubi_current_rootfs_data" if "calm f"
    unfolding ursus_ubi_current_rootfs_data_def by (intro keeps_intros keeps_open_volume_nm keeps_close_volume that)
  show "keeps f (ursus_ubi_create_clean_rootfs_data p)" if "calm f" "ignores_env f"
    unfolding ursus_ubi_create_clean_rootfs_data_def
    by (intro keeps_intros keeps_run_ubi_calm store that allI ubi_command.distinct)
qed

lemma keeps_run_ubi_all_calm [mig_keeps]:
  "calm f \<Longrightarrow> (\<forall>c \<in> set cs. \<forall>a n sz. c \<noteq> Ubi_read a n sz) \<Longrightarrow> keeps f (run_ubi_all cs)"
  by (induction cs; unfold run_ubi_all.simps; intro keeps_intros keeps_run_ubi_calm) simp_all

lemma read_range_loop_length:
  fixes w :: "'x world_scheme"
  shows "wp (read_range_loop chip page off len) (\<lambda>(r, d) _. length d \<le> len) w"
proof (induction len arbitrary: off w rule: less_induct)
  case (less len)
  let ?Q = "\<lambda>(r :: int, d :: bytes) _. length d \<le> len"
  have exact: "wp (ursus_read_exact chip a n) (\<lambda>(r, d) _. length d \<le> n) v" for a n and v :: "'x world_scheme"
    by (auto simp: ursus_read_exact_def mtd_read_def Let_def)
  have step: "wp (do { (r', d') \<leftarrow> read_range_loop chip page (off + k) (len - k); ret (r', d @ d') }) ?Q v"
    if "0 < k" "k \<le> len" "length d \<le> k" for k d and v :: "'x world_scheme"
    using less [of "len - k" "off + k" v] that by (auto elim!: wp_mono)
  have direct: "wp (do { (r, d) \<leftarrow> ursus_read_exact chip off k;
        if r \<noteq> 0 then ret (r, d)
        else do { (r', d') \<leftarrow> read_range_loop chip page (off + k) (len - k); ret (r', d @ d') } }) ?Q v"
    if "0 < k" "k \<le> len" for k and v :: "'x world_scheme"
    by (rule wp_bindI [OF exact]) (use that in \<open>auto simp del: wp_bind intro: step\<close>)
  have partial: "wp (do { (r, d) \<leftarrow> ursus_read_exact chip (off - i) page;
        if r \<noteq> 0 then ret (r, [])
        else do { (r', d') \<leftarrow> read_range_loop chip page (off + n) (len - n); ret (r', slice i n d @ d') } }) ?Q v"
    if "0 < n" "n \<le> len" for i n and v :: "'x world_scheme"
    by (rule wp_bindI [OF exact]) (use that in \<open>auto simp: slice_def simp del: wp_bind intro!: step\<close>)
  let ?whole = "len - len mod page"
  let ?direct = "if ?whole > URSUS_READ_CHUNK then URSUS_READ_CHUNK - URSUS_READ_CHUNK mod page else ?whole"
  let ?n = "min len (page - off mod page)"
  consider (stuck) "len = 0 \<or> page = 0 \<or> URSUS_READ_CHUNK < page"
    | (pages) "len \<noteq> 0" "0 < page" "page \<le> URSUS_READ_CHUNK" "off mod page = 0" "page \<le> len"
    | (part) "len \<noteq> 0" "0 < page" "page \<le> URSUS_READ_CHUNK" "\<not> (off mod page = 0 \<and> page \<le> len)"
    by linarith
  then show ?case
  proof cases
    case pages
    have "0 < ?direct" "?direct \<le> len"
      using mod_part_pos [OF pages(2,3)] mod_part_pos [OF pages(2,5)] by auto
    from direct [OF this] show ?thesis
      by (subst read_range_loop.simps) (use pages in \<open>simp add: Let_def del: wp_bind\<close>)
  next
    case part
    then have "0 < ?n" "?n \<le> len"
      by (auto simp: mod_less_divisor)
    from partial [OF this] show ?thesis
      by (subst read_range_loop.simps) (use part in \<open>auto simp add: Let_def simp del: wp_bind\<close>)
  qed (auto simp: read_range_loop.simps)
qed

lemma wp_read_range_length: "wp (ursus_read_range chip off len) (\<lambda>(r, d) _. length d \<le> len) w"
  using read_range_loop_length by (auto simp: ursus_read_range_def malloc_buf_def)

lemma keeps_run_mtd_erase [mig_keeps]:
  "ignores_time f \<Longrightarrow> ignores_flash f \<Longrightarrow> keeps f (run_mtd (Mtd_erase n off len))"
  unfolding run_mtd_def do_mtd_erase_def mtd_command.case
  by (intro keeps_intros keeps_erase_on keeps_mtd_erase)

lemma keeps_run_mtd_write [mig_keeps]:
  assumes "ignores_time f" "ignores_hung f" "ignores_flash f"
  shows "keeps f (run_mtd (Mtd_write n a off len))"
proof -
  have "keeps f (mtd_io_loop k False mtd p rem buf)" for k mtd p rem buf
  proof (induction k arbitrary: p rem buf)
    case (Suc k)
    show ?case
      unfolding mtd_io_loop.simps if_False by (intro keeps_intros keeps_mtd_write assms Suc)
  qed (simp add: keeps_intros assms mtd_io_loop.simps)
  then show ?thesis
    unfolding run_mtd_def do_mtd_io_def mtd_io_on_def mtd_command.case
    by (intro keeps_intros keeps_first_good assms)
qed

lemma keeps_iff_wp: "keeps f m = (\<forall>w. wp m (\<lambda>_ w'. f w' = f w) w)"
  by (simp add: keeps_def wp_def case_prod_beta)

lemma keeps_kept_readback [mig_keeps]:
  "0 < len \<Longrightarrow> len \<le> URSUS_FIT_MAX \<Longrightarrow> keeps mig_kept rest \<Longrightarrow> keeps mig_kept (mig_readback addr n len rest)"
  unfolding mig_readback_def
  by (intro keeps_intros mig_keeps wp_run_read_buf mig_kept_buf mig_kept_ignores)
     (simp_all add: MIG_LO_def MIG_LEN_def URSUS_UBI_READBACK_ADDR_def URSUS_FIT_MAX_def)

lemma keeps_kept_backup [mig_keeps]:
  assumes "MIG_LO \<le> addr" "addr + len \<le> MIG_LO + MIG_LEN" "keeps mig_kept rest"
  shows "keeps mig_kept (mig_backup off len addr rest)"
proof -
  have stores: "keeps mig_kept (ram_write addr d)" if "length d \<le> len" for d
    unfolding ram_write_def
    by (rule keeps_modify, rule mig_kept_buf [OF assms(1,2), unfolded ignores_buf_def, rule_format]) (use that in simp_all)
  have body: "keeps mig_kept (do { ram_write addr d; mig_check r rest })" if "length d \<le> len" for d r
    by (intro keeps_bind stores mig_keeps assms(3) that mig_kept_ignores)
  have "wp (do { (r, d) \<leftarrow> ursus_read_range chip off len; ram_write addr d; mig_check r rest })
      (\<lambda>_ w'. mig_kept w' = mig_kept w) w" for chip w
  proof (rule wp_bindI [OF wp_conj [OF wp_read_range_length keeps_wp [OF keeps_read_range [of mig_kept]]]], goal_cases)
    case (3 x v)
    then show ?case
      by (cases x) (auto simp del: wp_bind intro!: wp_mono [OF keeps_wp [OF body]])
  qed simp_all
  then have "keeps mig_kept (do { (r, d) \<leftarrow> ursus_read_range chip off len; ram_write addr d; mig_check r rest })" for chip
    by (simp only: keeps_iff_wp) simp
  then show ?thesis
    unfolding mig_backup_def by (rule keeps_bind [OF keeps_gets])
qed

lemma keeps_kept_backup_fip [mig_keeps]: "keeps mig_kept mig_backup_fip"
  unfolding mig_backup_fip_def
  by (intro keeps_intros mig_keeps mig_kept_ignores)
     (simp_all add: MIG_LO_def MIG_LEN_def URSUS_MIG_FIP_ADDR_def URSUS_UBI_FIP_VOL_SIZE_def)

definition mig_sized :: "ursus_migration_ctx \<Rightarrow> bool" where
  "mig_sized c =
     (0 < mc_fit_len c \<and> mc_fit_len c \<le> URSUS_FIT_MAX
      \<and> (mig_rank (mc_stage c) \<le> 12 \<longrightarrow> 0 < mc_fip_len c \<and> mc_fip_len c \<le> URSUS_UBI_FIP_VOL_SIZE))"

lemma keeps_kept_stages [mig_keeps]:
  "keeps mig_kept mig_precheck" "keeps mig_kept mig_format" "keeps mig_kept mig_attach"
  "keeps mig_kept mig_create_volumes" "keeps mig_kept (mig_write addr n len here nxt)" "keeps mig_kept mig_commit_bl2"
  unfolding mig_precheck_def mig_format_def mig_attach_def mig_create_volumes_def mig_write_def mig_commit_bl2_def
  by (intro keeps_intros mig_keeps keeps_verify_bl2_candidate keeps_register_mtd keeps_run_ubi_calm mig_kept_ignores
      allI ubi_command.distinct; simp add: mig_volumes_def mig_volume_checks_def)+

lemma wp_kept_execute:
  assumes "mig_sized (ursus_mig w)" "mc_stage (ursus_mig w) = st" "st \<noteq> URSUS_MIG_VERIFY_BL2"
  shows "wp (mig_execute st) (\<lambda>_ w'. mig_kept w' = mig_kept w) w"
proof -
  let ?c = "ursus_mig w"
  have verify_fit: "wp mig_verify_fit (\<lambda>_ w'. mig_kept w' = mig_kept w) w"
    unfolding mig_verify_fit_def wp_bind [of "gets _"] wp_gets
    by (rule keeps_wp, intro keeps_intros mig_keeps keeps_run_ubi_calm mig_kept_ignores allI ubi_command.distinct)
       (use assms(1) in \<open>simp_all add: mig_sized_def\<close>)
  show ?thesis
    unfolding mig_execute_def wp_bind [of "gets _"] wp_gets
    by (cases st; simp only: ursus_migration_stage.case; (rule verify_fit | rule keeps_wp)?; (intro mig_keeps mig_kept_ignores)?)
       (use assms in \<open>simp_all add: mig_sized_def MIG_LO_def MIG_LEN_def URSUS_MIG_BOSA_ADDR_def URSUS_MIG_RI_ADDR_def
          URSUS_BOARD_DATA_SIZE_def URSUS_FIT_MAX_def URSUS_UBI_FIP_VOL_SIZE_def\<close>)
qed

lemma mig_frames_ctx:
  assumes "\<And>c a. p (c\<lparr>mc_active := a\<rparr>) = p c" "\<And>c a. p (c\<lparr>mc_announced := a\<rparr>) = p c" "\<And>c a. p (c\<lparr>mc_stage := a\<rparr>) = p c"
    "\<And>c a. p (c\<lparr>mc_error := a\<rparr>) = p c" "\<And>c a. p (c\<lparr>mc_error_code := a\<rparr>) = p c" "\<And>c a. p (c\<lparr>mc_failed_stage := a\<rparr>) = p c"
    "\<And>c a. p (c\<lparr>mc_last_success_stage := a\<rparr>) = p c" "\<And>c a. p (c\<lparr>mc_write_started := a\<rparr>) = p c" "\<And>c a. p (c\<lparr>mc_commit_started := a\<rparr>) = p c"
    and "st \<noteq> URSUS_MIG_BACKUP_FIP \<or> (\<forall>c a. p (c\<lparr>mc_fip_len := a\<rparr>) = p c)"
  shows "keeps (\<lambda>w. p (ursus_mig w)) (mig_execute st)"
proof -
  have basic: "keeps (\<lambda>w. p (ursus_mig w)) (ursus_mig_fail r)" "keeps (\<lambda>w. p (ursus_mig w)) (mig_advance a b)" for r a b
    unfolding ursus_mig_fail_def mig_advance_def Let_def by (intro keeps_intros keeps_set_mig; simp add: assms)+
  have check: "keeps (\<lambda>w. p (ursus_mig w)) (mig_check r m)" if "keeps (\<lambda>w. p (ursus_mig w)) m" for r m
    unfolding mig_check_def by (intro keeps_intros basic that)
  show ?thesis
    using assms(10)
    by (cases st; simp only: mig_execute_def ursus_migration_stage.case;
        (unfold mig_stage_defs mig_verify_bl2_def)?;
        intro basic check keeps_set_mig keeps_intros engine_frames keeps_run_ubi_all keeps_verify_bl2_candidate
          ubi_free_mig parts_free_mig flash_free_mig ubi_free_ignores [OF ubi_free_mig];
        simp add: assms)
qed

lemma keeps_fit_len: "keeps (\<lambda>w. mc_fit_len (ursus_mig w)) (mig_execute st)"
  by (rule mig_frames_ctx) simp_all

lemma keeps_fip_len: "st \<noteq> URSUS_MIG_BACKUP_FIP \<Longrightarrow> keeps (\<lambda>w. mc_fip_len (ursus_mig w)) (mig_execute st)"
  by (rule mig_frames_ctx) simp_all

text \<open>A stage that only fails or ends as the rest of it does.\<close>

lemma wp_mig_check_inactive:
  "(\<And>v. wp m (\<lambda>_ w'. mc_active (ursus_mig w') \<longrightarrow> P w') v) \<Longrightarrow>
   wp (mig_check r m) (\<lambda>_ w'. mc_active (ursus_mig w') \<longrightarrow> P w') v"
  by (simp add: mig_check_def ursus_mig_fail_def Let_def)

lemma toc_end_bounds: "toc_end k p toc = Some n \<Longrightarrow> 0 < n"
  by (induction k p toc rule: toc_end.induct) (auto simp: Let_def split: if_splits)

lemma wp_backup_fip_sized:
  "wp mig_backup_fip (\<lambda>_ w'. mc_active (ursus_mig w') \<longrightarrow>
     0 < mc_fip_len (ursus_mig w') \<and> mc_fip_len (ursus_mig w') \<le> URSUS_UBI_FIP_VOL_SIZE) w"
proof -
  let ?Q = "\<lambda>_ w'. mc_active (ursus_mig w') \<longrightarrow>
     0 < mc_fip_len (ursus_mig w') \<and> mc_fip_len (ursus_mig w') \<le> URSUS_UBI_FIP_VOL_SIZE"
  have keep: "keeps (\<lambda>w. mc_fip_len (ursus_mig w)) (mig_backup off n addr (mig_advance a b))" for off n addr a b
    unfolding mig_backup_def mig_check_def mig_advance_def ursus_mig_fail_def Let_def
    by (intro keeps_intros keeps_set_mig ubi_free_ignores [OF ubi_free_mig]) simp_all
  have len: "wp (ursus_current_fip_length chip) (\<lambda>r _. \<forall>n. r = Inr n \<longrightarrow> 0 < n) v" for chip and v :: "'a ubi_world_scheme"
    unfolding ursus_current_fip_length_def
    by (auto simp: malloc_buf_def split: option.splits if_splits dest: toc_end_bounds intro!: wpI)
  have "wp (do { set_mig (\<lambda>c. c\<lparr>mc_fip_len := n\<rparr>);
         if n > URSUS_UBI_FIP_VOL_SIZE then ursus_mig_fail (- EFBIG)
         else mig_backup off n addr (mig_advance a b) }) ?Q v" if "0 < n" for n off addr a b v
  proof (cases "n > URSUS_UBI_FIP_VOL_SIZE")
    case False
    then show ?thesis
      using that by (simp, intro wp_mono [OF keeps_wp [OF keep]]) simp
  qed (simp add: ursus_mig_fail_def Let_def)
  note set = this
  show ?thesis
    unfolding mig_backup_fip_def wp_bind [of "gets _"] wp_gets
  proof (rule wp_bindI [OF len], goal_cases)
    case (1 r v)
    then show ?case
      by (cases r) (simp_all only: sum.case set HOL.simp_thms sum.inject, simp add: ursus_mig_fail_def Let_def)
  qed
qed

definition pinned :: "'x world_scheme \<Rightarrow> bytes \<Rightarrow> bool" where
  "pinned w img = (sha256 (orc w) img = ursus_bl2_image_sha256)"

abbreviation bl2_candidate :: "'x ubi_world_scheme \<Rightarrow> bytes" where
  "bl2_candidate w \<equiv> mem_read (ursus_bl2_candidate_buf w) URSUS_UBI_BL2_SIZE (ram w)"

lemma wp_precheck_pinned: "wp mig_precheck (\<lambda>_ w'. mc_active (ursus_mig w') \<longrightarrow> pinned w' (bl2_candidate w')) w"
proof -
  have "wp (do { r \<leftarrow> ursus_verify_bl2_candidate; mig_check r (mig_advance a b) })
      (\<lambda>_ w'. mc_active (ursus_mig w') \<longrightarrow> pinned w' (bl2_candidate w')) v" for a b v
    by (auto simp: ursus_verify_bl2_candidate_def mig_check_def mig_advance_def ursus_mig_fail_def Let_def pinned_def)
  note last = this
  show ?thesis
    unfolding mig_precheck_def
    by (intro last wp_bind_any wp_mig_check_inactive)
qed

lemma keeps_io_loop_read:
  fixes f :: "'x world_scheme \<Rightarrow> 'v"
  assumes "ignores_time f" "ignores_hung f" "ignores_buf lo n f"
  shows "lo \<le> buf \<Longrightarrow> buf + rem \<le> lo + n \<Longrightarrow> writesize mtd dvd rem \<Longrightarrow> keeps f (mtd_io_loop k True mtd off rem buf)"
proof (induction k arbitrary: off rem buf)
  case (Suc k)
  let ?ws = "writesize mtd"
  have page: "keeps f (do { (r, d) \<leftarrow> mtd_read mtd off ?ws; ram_write buf d; ret r })" if "?ws \<le> rem"
  proof -
    have "f (v\<lparr>ram := mem_write buf d (ram v)\<rparr>) = f v" if "length d \<le> ?ws" for d v
      using assms(3) Suc.prems that \<open>?ws \<le> rem\<close> by (simp add: ignores_buf_def)
    moreover have "wp (mtd_read mtd off ?ws) (\<lambda>(r, d) w'. length d \<le> ?ws \<and> f w' = f w) w" for w
      using assms(1) by (auto simp: mtd_read_def view_defs Let_def)
    note rd = this
    ultimately show ?thesis
      unfolding keeps_iff_wp by (auto intro!: wp_mono [OF rd] simp: ram_write_def)
  qed
  have le: "?ws \<le> rem" if "rem \<noteq> 0"
    using that Suc.prems(3) by (simp add: dvd_imp_le)
  show ?case
  proof (cases "rem = 0")
    case False
    then show ?thesis
      unfolding mtd_io_loop.simps if_True
      by (intro keeps_if keeps_bind page le keeps_return keeps_intros assms Suc.IH)
         (use Suc.prems le in auto)
  qed (simp add: mtd_io_loop.simps keeps_return)
qed (simp add: keeps_intros assms mtd_io_loop.simps)

lemma wp_read_first_block:
  fixes w :: "'x ubi_world_scheme"
  assumes "well_placed w" "ignores_time f" "ignores_hung f" "ignores_buf URSUS_UBI_READBACK_ADDR URSUS_UBI_BL2_SIZE f"
  shows "wp (run_mtd (Mtd_read ''ursus-ubi-bl2'' URSUS_UBI_READBACK_ADDR 0 0x20000))
     (\<lambda>r w'. f w' = f w \<and> (r = 0 \<longrightarrow>
        mem_read URSUS_UBI_READBACK_ADDR URSUS_UBI_BL2_SIZE (ram w') = mem_read 0 URSUS_UBI_BL2_SIZE (nand w))) w"
proof (cases "mtd_named ''ursus-ubi-bl2'' w")
  case (Some m)
  then have m: "mtd_offset m = 0" "mtd_size m = URSUS_UBI_BL2_SIZE" "erasesize m = 0x20000" "writesize m = 0x800"
    using well_placed_named(4) [OF assms(1) Some] by simp_all
  have "keeps f (mtd_io_loop k True m p 0x20000 URSUS_UBI_READBACK_ADDR)" for k p
    by (rule keeps_io_loop_read [OF assms(2-4)]) (simp_all add: m(4) URSUS_UBI_BL2_SIZE_def)
  moreover have "URSUS_UBI_READBACK_ADDR mod 2 ^ 32 = URSUS_UBI_READBACK_ADDR" "(0x20000 + writesize m - 1) div writesize m * writesize m = 0x20000"
    by (simp_all add: URSUS_UBI_READBACK_ADDR_def m(4))
  ultimately have "keeps f (mtd_io_on True m URSUS_UBI_READBACK_ADDR 0 0x20000)"
    unfolding mtd_io_on_def by (simp only: Let_def) (intro keeps_intros keeps_first_good assms; assumption)
  then have "wp (run_mtd (Mtd_read ''ursus-ubi-bl2'' URSUS_UBI_READBACK_ADDR 0 0x20000)) (\<lambda>_ w'. f w' = f w) w"
    using Some by (simp add: run_mtd_def do_mtd_io_def keeps_iff_wp)
  moreover have "wp (run_mtd (Mtd_read ''ursus-ubi-bl2'' URSUS_UBI_READBACK_ADDR 0 (mtd_size m)))
     (\<lambda>r w'. r = 0 \<longrightarrow> mem_read URSUS_UBI_READBACK_ADDR (mtd_size m) (ram w') = mem_read (mtd_offset m) (mtd_size m) (nand w)) w"
    by (rule run_mtd_read_whole [OF Some]) (simp_all add: m URSUS_UBI_BL2_SIZE_def URSUS_UBI_READBACK_ADDR_def)
  ultimately show ?thesis
    using m by (intro wp_conj) (simp_all add: URSUS_UBI_BL2_SIZE_def)
qed (simp add: run_mtd_def do_mtd_io_def)

definition buf_clear :: "'x ubi_world_scheme \<Rightarrow> bool" where
  "buf_clear w = (ursus_bl2_candidate_buf w + URSUS_UBI_BL2_SIZE \<le> MIG_LO \<or> MIG_LO + MIG_LEN \<le> ursus_bl2_candidate_buf w)"

lemma candidate_kept:
  "buf_clear w \<Longrightarrow> mig_kept w' = mig_kept w \<Longrightarrow>
   bl2_candidate w' = bl2_candidate w \<and> buf_clear w' \<and> (\<forall>img. pinned w' img = pinned w img)"
  using ram_off_read [of MIG_LO MIG_LEN w' w "ursus_bl2_candidate_buf w" URSUS_UBI_BL2_SIZE]
  by (auto simp: mig_kept_def buf_clear_def pinned_def)

lemma wp_verify_bl2:
  assumes "well_placed w" "pinned w (bl2_candidate w)" "buf_clear w"
  shows "wp mig_verify_bl2 (\<lambda>_ w'. mc_stage (ursus_mig w') = URSUS_MIG_COMPLETE \<longrightarrow>
     pinned w' (mem_read 0 URSUS_UBI_BL2_SIZE (nand w'))) w"
proof -
  let ?f = "\<lambda>w :: 'a ubi_world_scheme. (mig_kept w, nand w)"
  have "ignores_buf URSUS_UBI_READBACK_ADDR URSUS_UBI_BL2_SIZE ?f"
    using mig_kept_buf [of URSUS_UBI_READBACK_ADDR URSUS_UBI_BL2_SIZE]
    by (simp add: ignores_buf_def MIG_LO_def MIG_LEN_def URSUS_UBI_READBACK_ADDR_def URSUS_UBI_BL2_SIZE_def)
  moreover have "ignores_time ?f" "ignores_hung ?f"
    using mig_kept_ignores by (simp_all add: view_defs)
  ultimately show ?thesis
    unfolding mig_verify_bl2_def
  proof (intro wp_bindI [OF wp_read_first_block [OF assms(1), of ?f]], goal_cases)
    case (4 r v)
    have ok: "sha256 (orc v) (bl2_candidate v) = ursus_bl2_image_sha256"
      using candidate_kept [OF assms(3), of v] 4(4) assms(2) by (simp add: pinned_def)
    have rb: "r = 0 \<Longrightarrow> mem_read URSUS_UBI_READBACK_ADDR URSUS_UBI_BL2_SIZE (ram v) = mem_read 0 URSUS_UBI_BL2_SIZE (nand v)"
      using 4(4) by simp
    show ?case
      using ok rb
      by (simp add: mig_check_def ursus_mig_fail_def Let_def ursus_mem_equal_def ram_read_def pinned_def cong: if_cong) metis
  qed
qed

text \<open>The invariant of the migration.\<close>

definition mig_inv :: "'x ubi_world_scheme \<Rightarrow> bool" where
  "mig_inv w =
     (well_placed w \<and> buf_clear w
      \<and> (mc_active (ursus_mig w) \<longrightarrow> mig_sized (ursus_mig w) \<and> mc_stage (ursus_mig w) \<noteq> URSUS_MIG_COMPLETE
           \<and> (mc_stage (ursus_mig w) \<noteq> URSUS_MIG_PRECHECK \<longrightarrow> pinned w (bl2_candidate w)))
      \<and> (\<not> mc_active (ursus_mig w) \<and> mc_stage (ursus_mig w) \<noteq> URSUS_MIG_COMPLETE \<longrightarrow> mc_error (ursus_mig w) \<noteq> 0)
      \<and> (mc_stage (ursus_mig w) = URSUS_MIG_COMPLETE \<longrightarrow> pinned w (mem_read 0 URSUS_UBI_BL2_SIZE (nand w))))"

lemma keeps_mtds_last:
  "st = URSUS_MIG_COMMIT_BL2 \<or> st = URSUS_MIG_VERIFY_BL2 \<Longrightarrow> keeps (mtds :: 'x ubi_world_scheme \<Rightarrow> _) (mig_execute st)"
  by (elim disjE; simp only: mig_execute_def ursus_migration_stage.case mig_commit_bl2_def mig_verify_bl2_def;
      intro keeps_intros mig_keeps keeps_run_ubi; simp add: ubi_free_def ignores_mig_def view_defs)

lemma wp_execute_well_placed:
  assumes "well_placed w"
  shows "wp (mig_execute st) (\<lambda>_. well_placed) w"
proof (cases "st = URSUS_MIG_COMMIT_BL2 \<or> st = URSUS_MIG_VERIFY_BL2")
  case True
  show ?thesis
    by (rule wp_mono [OF keeps_wp [OF keeps_mtds_last [OF True]]]) (use assms in \<open>simp add: well_placed_def\<close>)
next
  case False
  then show ?thesis
    using wp_execute_placed [OF assms, of st] by (auto elim!: wp_mono)
qed

lemma mig_sized_step:
  assumes "mig_sized c" "mc_stage c = st" "mig_outcome st r c'" "mc_active c'" "mc_fit_len c' = mc_fit_len c"
    and "st \<noteq> URSUS_MIG_BACKUP_FIP \<Longrightarrow> mc_fip_len c' = mc_fip_len c"
    and "st = URSUS_MIG_BACKUP_FIP \<Longrightarrow> 0 < mc_fip_len c' \<and> mc_fip_len c' \<le> URSUS_UBI_FIP_VOL_SIZE"
  shows "mig_sized c'"
  using assms by (cases st) (auto simp: mig_sized_def mig_outcome_def)

lemma wp_kept_verify_bl2:
  assumes "well_placed w"
  shows "wp mig_verify_bl2 (\<lambda>_ w'. mig_kept w' = mig_kept w) w"
proof -
  have "ignores_buf URSUS_UBI_READBACK_ADDR URSUS_UBI_BL2_SIZE mig_kept"
    by (rule mig_kept_buf) (simp_all add: MIG_LO_def MIG_LEN_def URSUS_UBI_READBACK_ADDR_def URSUS_UBI_BL2_SIZE_def)
  note rd = wp_read_first_block [OF assms, of mig_kept, OF _ _ this]
  have rest: "keeps mig_kept (do { a \<leftarrow> gets g;
      e \<leftarrow> (if r \<noteq> 0 then ret 0 else ursus_mem_equal a b n);
      mig_check (k e) (do { set_mig h; ret 1 }) })" for g r b n k h
    by (intro keeps_intros mig_keeps mig_kept_ignores)
  show ?thesis
    unfolding mig_verify_bl2_def by (rule wp_bindI [OF rd]) (auto simp del: wp_bind intro!: wp_mono [OF keeps_wp [OF rest]])
qed

lemma wp_execute_inv:
  assumes "mig_inv w" "mig_at st (ursus_mig w)"
  shows "wp (mig_execute st) (\<lambda>_. mig_inv) w"
proof -
  let ?c = "ursus_mig w"
  have at: "mc_active ?c" "mc_stage ?c = st"
    using assms(2) by (simp_all add: mig_at_def)
  then have inv: "well_placed w" "buf_clear w" "mig_sized ?c" "st \<noteq> URSUS_MIG_PRECHECK \<Longrightarrow> pinned w (bl2_candidate w)"
    using assms(1) by (auto simp: mig_inv_def)
  have kept: "wp (mig_execute st) (\<lambda>_ w'. mig_kept w' = mig_kept w) w"
    using wp_kept_execute [OF inv(3) at(2)] wp_kept_verify_bl2 [OF inv(1)]
    by (cases "st = URSUS_MIG_VERIFY_BL2") (simp_all add: mig_execute_def)
  have fip: "wp (mig_execute st) (\<lambda>_ w'. st \<noteq> URSUS_MIG_BACKUP_FIP \<longrightarrow> mc_fip_len (ursus_mig w') = mc_fip_len ?c) w"
    using keeps_wp [OF keeps_fip_len, of st w] by (cases "st = URSUS_MIG_BACKUP_FIP") simp_all
  have bfip: "wp (mig_execute st) (\<lambda>_ w'. st = URSUS_MIG_BACKUP_FIP \<longrightarrow> mc_active (ursus_mig w') \<longrightarrow>
     0 < mc_fip_len (ursus_mig w') \<and> mc_fip_len (ursus_mig w') \<le> URSUS_UBI_FIP_VOL_SIZE) w"
    using wp_backup_fip_sized [of w] by (cases "st = URSUS_MIG_BACKUP_FIP") (simp_all add: mig_execute_def)
  have pre: "wp (mig_execute st) (\<lambda>_ w'. st = URSUS_MIG_PRECHECK \<longrightarrow> mc_active (ursus_mig w') \<longrightarrow> pinned w' (bl2_candidate w')) w"
    using wp_precheck_pinned [of w] by (cases "st = URSUS_MIG_PRECHECK") (simp_all add: mig_execute_def)
  have fin: "wp (mig_execute st) (\<lambda>_ w'. st = URSUS_MIG_VERIFY_BL2 \<longrightarrow> mc_stage (ursus_mig w') = URSUS_MIG_COMPLETE \<longrightarrow>
     pinned w' (mem_read 0 URSUS_UBI_BL2_SIZE (nand w'))) w"
    using wp_verify_bl2 [OF inv(1) _ inv(2)] inv(4) by (cases "st = URSUS_MIG_VERIFY_BL2") (simp_all add: mig_execute_def)
  note all = wp_conj [OF ensD [OF ens_mig_execute [of st] assms(2)] wp_conj [OF wp_execute_well_placed [OF inv(1)]
      wp_conj [OF kept wp_conj [OF keeps_wp [OF keeps_fit_len] wp_conj [OF fip wp_conj [OF bfip wp_conj [OF pre fin]]]]]]]
  show ?thesis
  proof (rule wp_mono [OF all], goal_cases)
    case (1 r w')
    then have cand: "bl2_candidate w' = bl2_candidate w" "buf_clear w'" "\<And>img. pinned w' img = pinned w img"
      using candidate_kept [OF inv(2), of w'] by auto
    have "mig_sized (ursus_mig w')" if "mc_active (ursus_mig w')"
      by (rule mig_sized_step [OF inv(3) at(2), of r]) (use 1 that in auto)
    moreover have "pinned w' (bl2_candidate w')" if "mc_active (ursus_mig w')"
      using 1 that cand inv(4) by (cases "st = URSUS_MIG_PRECHECK") simp_all
    moreover have "mc_stage (ursus_mig w') \<noteq> URSUS_MIG_COMPLETE" if "mc_active (ursus_mig w')"
      using 1 that by (cases st) (auto simp: mig_outcome_def)
    moreover have "mc_stage (ursus_mig w') = URSUS_MIG_COMPLETE \<Longrightarrow> st = URSUS_MIG_VERIFY_BL2"
      "\<not> mc_active (ursus_mig w') \<Longrightarrow> mc_stage (ursus_mig w') \<noteq> URSUS_MIG_COMPLETE \<Longrightarrow> mc_error (ursus_mig w') \<noteq> 0"
      using 1 by (cases st; auto simp: mig_outcome_def split: if_splits)+
    ultimately show ?case
      using 1 cand(2) by (auto simp: mig_inv_def)
  qed
qed

lemma mig_inv_ctx:
  "mig_inv w \<Longrightarrow> mc_active (ursus_mig w) \<Longrightarrow> mig_inv (w\<lparr>ursus_mig := (ursus_mig w)\<lparr>mc_announced := b\<rparr>\<rparr>)"
  "mig_inv w \<Longrightarrow> mc_active (ursus_mig w) \<Longrightarrow> mig_inv (w\<lparr>ursus_mig := (ursus_mig w)\<lparr>mc_announced := b, mc_announced_at := t\<rparr>\<rparr>)"
  by (auto simp: mig_inv_def pinned_def buf_clear_def mig_sized_def)

lemma wp_migration_step_inv:
  assumes "mig_inv w"
  shows "wp ursus_ubi_migration_step (\<lambda>_. mig_inv) w"
proof (cases "mc_active (ursus_mig w)")
  case True
  then have "wp (mig_execute (mc_stage (ursus_mig w))) (\<lambda>_. mig_inv) (w\<lparr>ursus_mig := (ursus_mig w)\<lparr>mc_announced := False\<rparr>\<rparr>)"
    using mig_inv_ctx(1) [OF assms] by (intro wp_execute_inv) (simp_all add: mig_at_def)
  then show ?thesis
    using True assms mig_inv_ctx(2) [OF assms] by (simp add: ursus_ubi_migration_step_def)
qed (use assms in \<open>simp add: ursus_ubi_migration_step_def\<close>)

lemma wp_migration_start_inv:
  assumes "well_placed w" "buf_clear w"
  shows "wp (ursus_ubi_migration_start a n p l) (\<lambda>r w'. r = 0 \<longrightarrow> mig_inv w' \<and> orc w' = orc w) w"
  using assms
  by (auto simp: ursus_ubi_migration_start_def mig_inv_def mig_sized_def buf_clear_def zero_mig_def)

section \<open>Properties\<close>

text \<open>
  C5: until the migration commits, the block from which the boot ROM starts is not touched: whatever
  faults occur, no step before the stage that writes BL2 changes a byte of the first 128 KiB, and the
  partitions stay where they are.
\<close>

theorem migration_spares_bl2_until_commit:
  assumes "well_placed w" "mc_stage (ursus_mig w) \<noteq> URSUS_MIG_COMMIT_BL2" "mc_stage (ursus_mig w) \<noteq> URSUS_MIG_VERIFY_BL2"
  shows "case run_state ursus_ubi_migration_step w of (r, w') \<Rightarrow>
    well_placed w' \<and> (\<forall>a < URSUS_UBI_BASE. nand w' a = nand w a)"
proof -
  let ?Q = "\<lambda>_ w'. well_placed w' \<and> first_block w' = first_block w"
  let ?w = "w\<lparr>ursus_mig := (ursus_mig w)\<lparr>mc_announced := False\<rparr>\<rparr>"
  have "wp (mig_execute (mc_stage (ursus_mig w))) ?Q ?w"
    using wp_execute_placed [of ?w "mc_stage (ursus_mig w)"] assms by simp
  then have "wp ursus_ubi_migration_step ?Q w"
    using assms(1) by (simp add: ursus_ubi_migration_step_def)
  then show ?thesis
    by (auto simp: wp_def nand_at_def fun_eq_iff split: prod.splits if_splits)
qed

text \<open>The chip of the board, with no partition registered yet.\<close>

definition sample_chip :: mtd_info where
  "sample_chip = \<lparr>mtd_name = ''spi-nand0'', mtd_is_partition = False, mtd_type = MTD_NANDFLASH, mtd_offset = 0,
     mtd_size = URSUS_NAND_SIZE, erasesize = 0x20000, writesize = 0x800, mtd_writeable = True\<rparr>"

definition sample_migration :: "ursus_migration_stage \<Rightarrow> ubi_world" where
  "sample_migration st = sample_engine\<lparr>mtds := [sample_chip], ursus_bl2_candidate_buf := 0x9f000000, clock := 350,
     ursus_mig := zero_mig\<lparr>mc_active := (st \<noteq> URSUS_MIG_IDLE), mc_announced := True, mc_stage := st\<rparr>\<rparr>"

lemma sample_migration_ok: "well_placed (sample_migration st)" "buf_clear (sample_migration st)"
  by (simp_all add: sample_migration_def well_placed_def sample_chip_def buf_clear_def MIG_LO_def MIG_LEN_def)

theorem migration_spares_bl2_until_commit_witness:
  "case run_state ursus_ubi_migration_step (sample_migration URSUS_MIG_FORMAT_UBI) of (r, w') \<Rightarrow>
    well_placed w' \<and> (\<forall>a < URSUS_UBI_BASE. nand w' a = nand (sample_migration URSUS_MIG_FORMAT_UBI) a)"
  by (rule migration_spares_bl2_until_commit [OF sample_migration_ok(1)]) (simp_all add: sample_migration_def)




definition sample_bosa :: ubi_world where
  "sample_bosa = sample_engine\<lparr>ram := mem_write 0x98000000 [1, 2, 3] (\<lambda>_. 0), media := sample_media,
     ubi := Some ((sample_device ''ursus-ubi-full'' ''bosa'' ''ri'')\<lparr>
              volumes := [Some ((sample_volume 0 ''bosa'')\<lparr>vol_type := UBI_DYNAMIC_VOLUME\<rparr>), None, None, None]\<rparr>)\<rparr>"

lemma sample_bosa_room: "attached sample_bosa" "room_named ''bosa'' 3 sample_bosa"
proof -
  let ?v = "(sample_volume 0 ''bosa'')\<lparr>vol_type := UBI_DYNAMIC_VOLUME\<rparr>"
  let ?d = "(sample_device ''ursus-ubi-full'' ''bosa'' ''ri'')\<lparr>volumes := [Some ?v, None, None, None]\<rparr>"
  have u: "ubi sample_bosa = Some ?d"
    by (simp add: sample_bosa_def)
  then show "attached sample_bosa"
    by (simp add: attached_def)
  have "vnames sample_bosa = [Some ''bosa'', None, None]"
    using u by (simp add: vnames_def sample_device_def sample_volume_def upt_rec)
  then have "find_name (vnames sample_bosa) ''bosa'' = Some 0"
    by (simp add: find_name_Some)
  then show "room_named ''bosa'' 3 sample_bosa"
    by (rule room_namedI) (simp_all add: vview_def u roomy_def sample_volume_def)
qed


end
