(* ===== verification/Fdt.thy ===== *)
theory Fdt
  imports Fip
begin

text \<open>
  Reading a flattened device tree, the part of \<open>libfdt\<close> that \<open>cmd/ursusstock.c\<close> uses to find the
  kernel and the root file system in a FIT: walking the tags of the structure block, finding a node by
  path and a property by name.  A tree is a region of RAM given by its address.  The library is built
  with \<open>FDT_ASSUME_MASK\<close> 0, so all of its checks are present.

  Offsets are C \<open>int\<close>; no offset of 2^31 or more exists, and the address computations on unsigned
  numbers are written with their wrap-around.
\<close>

section \<open>The header and the structure block\<close>

type_synonym ram = "nat \<Rightarrow> byte"

definition fdt32_at :: "ram \<Rightarrow> nat \<Rightarrow> nat" where
  "fdt32_at m p = be_get 4 0 (mem_read p 4 m)"

text \<open>A field of the header of the tree at an address.\<close>

definition fdt_hdr :: "(bytes \<Rightarrow> nat) \<Rightarrow> ram \<Rightarrow> nat \<Rightarrow> nat" where
  "fdt_hdr field m a = field (mem_read a FDT_V17_SIZE m)"

definition FDT_SW_MAGIC :: nat where "FDT_SW_MAGIC = 0xffffffff - FDT_MAGIC"
definition FDT_ERR_NOTFOUND :: int where "FDT_ERR_NOTFOUND = 1"
definition FDT_ERR_BADOFFSET :: int where "FDT_ERR_BADOFFSET = 4"
definition FDT_ERR_BADSTATE :: int where "FDT_ERR_BADSTATE = 7"
definition FDT_ERR_BADSTRUCTURE :: int where "FDT_ERR_BADSTRUCTURE = 11"
definition FDT_ERR_INTERNAL :: int where "FDT_ERR_INTERNAL = 13"

definition FDT_BEGIN_NODE :: nat where "FDT_BEGIN_NODE = 1"
definition FDT_END_NODE :: nat where "FDT_END_NODE = 2"
definition FDT_PROP :: nat where "FDT_PROP = 3"
definition FDT_NOP :: nat where "FDT_NOP = 4"
definition FDT_END :: nat where "FDT_END = 9"

lemmas fdt_tags = FDT_BEGIN_NODE_def FDT_END_NODE_def FDT_PROP_def FDT_NOP_def FDT_END_def

definition fdt_ro_probe :: "ram \<Rightarrow> nat \<Rightarrow> int" where
  "fdt_ro_probe m a =
     (let total = fdt_hdr fdt_totalsize m a; magic = fdt_hdr fdt_magic m a;
          rest = (if total < 0x7fffffff then int total else - FDT_ERR_TRUNCATED)
      in if a mod 8 \<noteq> 0 then - FDT_ERR_ALIGNMENT
         else if magic = FDT_MAGIC
         then (if fdt_hdr fdt_version m a < FDT_FIRST_SUPPORTED_VERSION then - FDT_ERR_BADVERSION
               else if fdt_hdr fdt_last_comp_version m a > FDT_LAST_SUPPORTED_VERSION then - FDT_ERR_BADVERSION
               else rest)
         else if magic = FDT_SW_MAGIC
         then (if fdt_hdr fdt_size_dt_struct m a = 0 then - FDT_ERR_BADSTATE else rest)
         else - FDT_ERR_BADMAGIC)"

definition fdt_offset_ptr :: "ram \<Rightarrow> nat \<Rightarrow> int \<Rightarrow> nat \<Rightarrow> nat option" where
  "fdt_offset_ptr m a offset len =
     (let uoffset = nat offset;
          absoffset = (uoffset + fdt_hdr fdt_off_dt_struct m a) mod 2 ^ 32
      in if offset < 0 \<or> offset \<ge> 2 ^ 31 then None
         else if absoffset < uoffset \<or> (absoffset + len) mod 2 ^ 32 < absoffset
                 \<or> (absoffset + len) mod 2 ^ 32 > fdt_hdr fdt_totalsize m a then None
         else if fdt_hdr fdt_version m a \<ge> 0x11
                 \<and> ((uoffset + len) mod 2 ^ 32 < uoffset \<or> (uoffset + len) mod 2 ^ 32 > fdt_hdr fdt_size_dt_struct m a)
         then None
         else Some (a + fdt_hdr fdt_off_dt_struct m a + uoffset))"

lemma fdt_offset_ptr_range: "fdt_offset_ptr m a off len = Some p \<Longrightarrow> 0 \<le> off \<and> off < 2 ^ 31"
  by (auto simp: fdt_offset_ptr_def Let_def split: if_splits)

text \<open>The offset behind the string at an offset.\<close>

function fdt_skip_name :: "ram \<Rightarrow> nat \<Rightarrow> int \<Rightarrow> int option" where
  "fdt_skip_name m a offset =
     (case fdt_offset_ptr m a offset 1 of
        None \<Rightarrow> None
      | Some p \<Rightarrow> if m p = 0 then Some (offset + 1) else fdt_skip_name m a (offset + 1))"
  by pat_completeness auto

termination fdt_skip_name
  by (relation "measure (\<lambda>(_, _, off). nat (2 ^ 31 - off))") (auto dest: fdt_offset_ptr_range)

declare fdt_skip_name.simps [simp del]

definition FDT_TAGALIGN :: "int \<Rightarrow> int" where
  "FDT_TAGALIGN x = (x + 3) div 4 * 4"

text \<open>The offset behind the body of a tag, before it is aligned.\<close>

definition fdt_tag_end :: "ram \<Rightarrow> nat \<Rightarrow> nat \<Rightarrow> int \<Rightarrow> int option" where
  "fdt_tag_end m a tag offset =
     (if tag = FDT_BEGIN_NODE then fdt_skip_name m a offset
      else if tag = FDT_PROP
      then case fdt_offset_ptr m a offset 4 of
             None \<Rightarrow> None
           | Some lenp \<Rightarrow>
               let len = fdt32_at m lenp;
                   sum = (len + nat offset) mod 2 ^ 32;
                   end' = offset + 8 + int len
               in if 0x7fffffff \<le> sum \<or> sum < nat offset then None
                  else if fdt_hdr fdt_version m a < 0x10 \<and> len \<ge> 8 \<and> (end' - int len) mod 8 \<noteq> 0
                  then Some (end' + 4)
                  else Some end'
      else if tag = FDT_END \<or> tag = FDT_END_NODE \<or> tag = FDT_NOP then Some offset
      else None)"

definition fdt_next_tag :: "ram \<Rightarrow> nat \<Rightarrow> int \<Rightarrow> nat \<times> int" where
  "fdt_next_tag m a startoffset =
     (case fdt_offset_ptr m a startoffset 4 of
        None \<Rightarrow> (FDT_END, - FDT_ERR_TRUNCATED)
      | Some tagp \<Rightarrow>
          let tag = fdt32_at m tagp
          in case fdt_tag_end m a tag (startoffset + 4) of
               None \<Rightarrow> (FDT_END, - FDT_ERR_BADSTRUCTURE)
             | Some offset \<Rightarrow>
                 if fdt_offset_ptr m a startoffset (nat (offset - startoffset)) = None
                 then (FDT_END, - FDT_ERR_BADSTRUCTURE)
                 else (tag, FDT_TAGALIGN offset))"

lemma fdt_skip_name_greater: "fdt_skip_name m a off = Some e \<Longrightarrow> off < e"
proof (induction m a off rule: fdt_skip_name.induct)
  case (1 m a off)
  then show ?case
    by (subst (asm) (2) fdt_skip_name.simps) (force split: option.splits if_splits)
qed

lemma fdt_tag_end_ge: "fdt_tag_end m a tag off = Some e \<Longrightarrow> off \<le> e"
  by (auto simp: fdt_tag_end_def Let_def split: if_splits option.splits dest: fdt_skip_name_greater)

lemma fdt_next_tag_progress:
  assumes "fdt_next_tag m a off = (tag, next)" "0 \<le> next"
  shows "0 \<le> off \<and> off < 2 ^ 31 \<and> off + 4 \<le> next"
proof -
  obtain p where p: "fdt_offset_ptr m a off 4 = Some p"
    using assms by (auto simp: fdt_next_tag_def FDT_ERR_TRUNCATED_def split: option.splits)
  then obtain e where e: "fdt_tag_end m a (fdt32_at m p) (off + 4) = Some e" "next = FDT_TAGALIGN e"
    using assms by (auto simp: fdt_next_tag_def FDT_ERR_BADSTRUCTURE_def Let_def split: option.splits if_splits)
  then show ?thesis
    using fdt_offset_ptr_range [OF p] fdt_tag_end_ge [OF e(1)] by (simp add: FDT_TAGALIGN_def)
qed


lemma fdt_next_tag_end: "fst (fdt_next_tag m a off) \<noteq> FDT_END \<Longrightarrow> 0 \<le> snd (fdt_next_tag m a off)"
proof (cases "fdt_offset_ptr m a off 4")
  case (Some p)
  then show "fst (fdt_next_tag m a off) \<noteq> FDT_END \<Longrightarrow> 0 \<le> snd (fdt_next_tag m a off)"
    using fdt_offset_ptr_range [OF Some]
    by (cases "fdt_tag_end m a (fdt32_at m p) (off + 4)")
      (auto simp: fdt_next_tag_def FDT_TAGALIGN_def split: if_splits dest!: fdt_tag_end_ge)
qed (simp add: fdt_next_tag_def)

lemma fdt_next_tag_moves:
  assumes "fdt_next_tag m a off = (tag, next)" "tag \<noteq> FDT_END"
  shows "0 \<le> off \<and> off < 2 ^ 31 \<and> off < next"
  using fdt_next_tag_progress [OF assms(1)] fdt_next_tag_end [of m a off] assms by auto

section \<open>Nodes\<close>

definition fdt_check_tag_offset :: "nat \<Rightarrow> ram \<Rightarrow> nat \<Rightarrow> int \<Rightarrow> int" where
  "fdt_check_tag_offset tag m a offset =
     (if offset < 0 \<or> offset mod 4 \<noteq> 0 then - FDT_ERR_BADOFFSET
      else if fst (fdt_next_tag m a offset) \<noteq> tag then - FDT_ERR_BADOFFSET
      else snd (fdt_next_tag m a offset))"

definition fdt_check_node_offset :: "ram \<Rightarrow> nat \<Rightarrow> int \<Rightarrow> int" where
  "fdt_check_node_offset = fdt_check_tag_offset FDT_BEGIN_NODE"

definition fdt_check_prop_offset :: "ram \<Rightarrow> nat \<Rightarrow> int \<Rightarrow> int" where
  "fdt_check_prop_offset = fdt_check_tag_offset FDT_PROP"

lemma fdt_check_tag_offset_moves:
  assumes "0 \<le> fdt_check_tag_offset tag m a off" "tag \<noteq> FDT_END"
  shows "fst (fdt_next_tag m a off) = tag \<and> 0 \<le> off \<and> off < 2 ^ 31 \<and> off < fdt_check_tag_offset tag m a off"
  using assms fdt_next_tag_moves [of m a off "fst (fdt_next_tag m a off)" "snd (fdt_next_tag m a off)"]
  by (auto simp: fdt_check_tag_offset_def FDT_ERR_BADOFFSET_def split: if_splits)

text \<open>The loop of \<open>fdt_next_node\<close>; the depth is the variable its callers pass by reference.\<close>

function fdt_node_loop :: "ram \<Rightarrow> nat \<Rightarrow> int \<Rightarrow> int \<Rightarrow> int \<times> int" where
  "fdt_node_loop m a offset depth =
     (case fdt_next_tag m a offset of (tag, next) \<Rightarrow>
        if tag = FDT_END then (if next \<ge> 0 then - FDT_ERR_NOTFOUND else next, depth)
        else if tag = FDT_BEGIN_NODE then (offset, depth + 1)
        else if tag = FDT_END_NODE
        then (if depth - 1 < 0 then (next, depth - 1) else fdt_node_loop m a next (depth - 1))
        else fdt_node_loop m a next depth)"
  by pat_completeness auto

termination fdt_node_loop
  by (relation "measure (\<lambda>(_, _, off, _). nat (2 ^ 31 - off))")
    (auto dest!: sym [where t = "fdt_next_tag _ _ _"] fdt_next_tag_moves)

declare fdt_node_loop.simps [simp del]

lemma fdt_node_loop_ge: "fdt_node_loop m a off d = (r, d') \<Longrightarrow> 0 \<le> r \<Longrightarrow> off \<le> r"
proof (induction m a off d rule: fdt_node_loop.induct)
  case (1 m a off d)
  obtain tag nxt where t: "fdt_next_tag m a off = (tag, nxt)" by fastforce
  show ?case
    using "1.prems" "1.IH" [OF t [symmetric]] fdt_next_tag_moves [OF t]
    by (subst (asm) fdt_node_loop.simps) (fastforce simp: t FDT_ERR_NOTFOUND_def split: if_splits)
qed

definition fdt_next_node :: "ram \<Rightarrow> nat \<Rightarrow> int \<Rightarrow> int \<Rightarrow> int \<times> int" where
  "fdt_next_node m a offset depth =
     (let next = (if offset \<ge> 0 then fdt_check_node_offset m a offset else 0)
      in if offset \<ge> 0 \<and> next < 0 then (next, depth) else fdt_node_loop m a next depth)"

lemma fdt_next_node_moves:
  assumes "fdt_next_node m a off d = (r, d')" "0 \<le> off" "0 \<le> r"
  shows "off < 2 ^ 31 \<and> off < r"
proof -
  have ok: "0 \<le> fdt_check_node_offset m a off"
    using assms by (auto simp: fdt_next_node_def Let_def split: if_splits)
  then have "fdt_node_loop m a (fdt_check_node_offset m a off) d = (r, d')"
    using assms by (simp add: fdt_next_node_def)
  with ok show ?thesis
    using fdt_node_loop_ge [OF _ assms(3)] fdt_check_tag_offset_moves [of FDT_BEGIN_NODE m a off]
    by (fastforce simp: fdt_check_node_offset_def fdt_tags)
qed

definition mem_str_at :: "ram \<Rightarrow> nat \<Rightarrow> bytes \<Rightarrow> bool" where
  "mem_str_at m p s \<longleftrightarrow> mem_read p (length s) m = s"

text \<open>
  The name of a node: its address and its length, or an error.  The name ends inside the structure
  block, which \<open>fdt_check_node_offset_\<close> has checked; before version 16 it is a path, of which the
  last part is taken.
\<close>

definition fdt_get_name :: "ram \<Rightarrow> nat \<Rightarrow> int \<Rightarrow> int + (nat \<times> nat)" where
  "fdt_get_name m a node =
     (let nameptr = a + fdt_hdr fdt_off_dt_struct m a + nat node + 4;
          probe = fdt_ro_probe m a; chk = fdt_check_node_offset m a node
      in if probe < 0 then Inl probe
         else if chk < 0 then Inl chk
         else case fdt_skip_name m a (node + 4) of
                None \<Rightarrow> Inl (- FDT_ERR_BADSTRUCTURE)
              | Some e \<Rightarrow>
                  let len = nat (e - (node + 4)) - 1; nm = mem_read nameptr len m;
                      leaf = length (takeWhile (\<lambda>c. c \<noteq> 0x2f) (rev nm))
                  in if fdt_hdr fdt_version m a < 0x10
                     then (if leaf = len then Inl (- FDT_ERR_BADSTRUCTURE) else Inr (nameptr + (len - leaf), leaf))
                     else Inr (nameptr, len))"

definition fdt_nodename_eq :: "ram \<Rightarrow> nat \<Rightarrow> int \<Rightarrow> bytes \<Rightarrow> bool" where
  "fdt_nodename_eq m a offset s =
     (case fdt_get_name m a offset of
        Inl _ \<Rightarrow> False
      | Inr (p, olen) \<Rightarrow>
          if olen < length s then False
          else if \<not> mem_str_at m p s then False
          else if m (p + length s) = 0 then True
          else 0x40 \<notin> set s \<and> m (p + length s) = 0x40)"

function fdt_subnode_loop :: "ram \<Rightarrow> nat \<Rightarrow> bytes \<Rightarrow> int \<Rightarrow> int \<Rightarrow> int" where
  "fdt_subnode_loop m a name offset depth =
     (if offset \<ge> 0 \<and> depth \<ge> 0
      then if depth = 1 \<and> fdt_nodename_eq m a offset name then offset
           else case fdt_next_node m a offset depth of (offset', depth') \<Rightarrow>
                  fdt_subnode_loop m a name offset' depth'
      else if depth < 0 then - FDT_ERR_NOTFOUND else offset)"
  by pat_completeness auto

termination fdt_subnode_loop
proof (relation "measure (\<lambda>(_, _, _, off, _). if off < 0 then 0 else Suc (nat (2 ^ 31 - off)))", goal_cases)
  case (2 m a name off depth off' depth')
  then have "0 \<le> off' \<Longrightarrow> off < 2 ^ 31 \<and> off < off'"
    using fdt_next_node_moves [of m a off depth off' depth'] by simp
  then show ?case using 2(1) by simp
qed simp

declare fdt_subnode_loop.simps [simp del]

definition fdt_subnode_offset :: "ram \<Rightarrow> nat \<Rightarrow> int \<Rightarrow> bytes \<Rightarrow> int" where
  "fdt_subnode_offset m a offset name =
     (if fdt_ro_probe m a < 0 then fdt_ro_probe m a else fdt_subnode_loop m a name offset 0)"


text \<open>An absolute path, given as the names between its slashes.\<close>

fun fdt_path_walk :: "ram \<Rightarrow> nat \<Rightarrow> int \<Rightarrow> bytes list \<Rightarrow> int" where
  "fdt_path_walk m a offset [] = offset"
| "fdt_path_walk m a offset (nm # rest) =
     (let sub = fdt_subnode_offset m a offset nm in if sub < 0 then sub else fdt_path_walk m a sub rest)"

definition fdt_path_offset :: "ram \<Rightarrow> nat \<Rightarrow> bytes list \<Rightarrow> int" where
  "fdt_path_offset m a path =
     (if fdt_ro_probe m a < 0 then fdt_ro_probe m a else fdt_path_walk m a 0 path)"

section \<open>Properties\<close>

definition as_int32 :: "nat \<Rightarrow> int" where
  "as_int32 x = (if x < 2 ^ 31 then int x else int x - 2 ^ 32)"

fun memchr0 :: "ram \<Rightarrow> nat \<Rightarrow> nat \<Rightarrow> nat option" where
  "memchr0 m s 0 = None"
| "memchr0 m s (Suc n) = (if m s = 0 then Some s else memchr0 m (Suc s) n)"

text \<open>The bytes of the strings block behind an offset, before and after version 17.\<close>

definition fdt_get_string :: "ram \<Rightarrow> nat \<Rightarrow> int \<Rightarrow> int + (nat \<times> nat)" where
  "fdt_get_string m a stroffset =
     (let totalsize = fdt_ro_probe m a;
          absoffset = nat ((stroffset + int (fdt_hdr fdt_off_dt_strings m a)) mod 2 ^ 32);
          size = fdt_hdr fdt_size_dt_strings m a;
          len = nat totalsize - absoffset;
          magic = fdt_hdr fdt_magic m a;
          look = (\<lambda>n. case memchr0 m (a + absoffset) n of
                        None \<Rightarrow> Inl (- FDT_ERR_TRUNCATED)
                      | Some e \<Rightarrow> Inr (a + absoffset, e - (a + absoffset)))
      in if totalsize < 0 then Inl totalsize
         else if absoffset \<ge> nat totalsize then Inl (- FDT_ERR_BADOFFSET)
         else if magic = FDT_MAGIC
         then (if stroffset < 0 then Inl (- FDT_ERR_BADOFFSET)
               else if fdt_hdr fdt_version m a \<ge> 17
               then (if nat stroffset \<ge> size then Inl (- FDT_ERR_BADOFFSET)
                     else look (min len (size - nat stroffset)))
               else look len)
         else if magic = FDT_SW_MAGIC
         then (if stroffset \<ge> 0 \<or> nat (- stroffset) > size then Inl (- FDT_ERR_BADOFFSET)
               else look (min len (nat (- stroffset))))
         else Inl (- FDT_ERR_INTERNAL))"

definition fdt_string_eq :: "ram \<Rightarrow> nat \<Rightarrow> int \<Rightarrow> bytes \<Rightarrow> bool" where
  "fdt_string_eq m a stroffset s =
     (case fdt_get_string m a stroffset of
        Inl _ \<Rightarrow> False
      | Inr (p, slen) \<Rightarrow> slen = length s \<and> mem_str_at m p s)"

function nextprop :: "ram \<Rightarrow> nat \<Rightarrow> int \<Rightarrow> int" where
  "nextprop m a offset =
     (case fdt_next_tag m a offset of (tag, next) \<Rightarrow>
        if tag = FDT_END then (if next \<ge> 0 then - FDT_ERR_BADSTRUCTURE else next)
        else if tag = FDT_PROP then offset
        else if tag = FDT_NOP then nextprop m a next
        else - FDT_ERR_NOTFOUND)"
  by pat_completeness auto

termination nextprop
  by (relation "measure (\<lambda>(_, _, off). nat (2 ^ 31 - off))")
    (auto dest!: sym [where t = "fdt_next_tag _ _ _"] fdt_next_tag_moves)

declare nextprop.simps [simp del]

lemma nextprop_ge:
  "0 \<le> nextprop m a off \<Longrightarrow> off \<le> nextprop m a off \<and> fst (fdt_next_tag m a (nextprop m a off)) = FDT_PROP"
proof (induction m a off rule: nextprop.induct)
  case (1 m a off)
  obtain tag nxt where t: "fdt_next_tag m a off = (tag, nxt)" by fastforce
  note unf = nextprop.simps [of m a off, unfolded t prod.case]
  show ?case
    using "1.prems" "1.IH" [OF t [symmetric]] fdt_next_tag_moves [OF t] t
    unfolding unf by (auto simp: FDT_ERR_BADSTRUCTURE_def FDT_ERR_NOTFOUND_def split: if_splits)
qed

definition fdt_first_property_offset :: "ram \<Rightarrow> nat \<Rightarrow> int \<Rightarrow> int" where
  "fdt_first_property_offset m a node =
     (let off = fdt_check_node_offset m a node in if off < 0 then off else nextprop m a off)"

definition fdt_next_property_offset :: "ram \<Rightarrow> nat \<Rightarrow> int \<Rightarrow> int" where
  "fdt_next_property_offset m a offset =
     (let off = fdt_check_prop_offset m a offset in if off < 0 then off else nextprop m a off)"

lemma fdt_next_property_moves:
  assumes "0 \<le> fdt_next_property_offset m a off"
  shows "0 \<le> off \<and> off < 2 ^ 31 \<and> off < fdt_next_property_offset m a off"
proof -
  have ok: "0 \<le> fdt_check_tag_offset FDT_PROP m a off"
    using assms by (auto simp: fdt_next_property_offset_def fdt_check_prop_offset_def Let_def split: if_splits)
  then show ?thesis
    using fdt_check_tag_offset_moves [OF ok] assms nextprop_ge [of m a "fdt_check_tag_offset FDT_PROP m a off"]
    by (auto simp: fdt_next_property_offset_def fdt_check_prop_offset_def fdt_tags)
qed


text \<open>A property at an offset: its address and the length of its value.\<close>

definition fdt_get_property_by_offset :: "ram \<Rightarrow> nat \<Rightarrow> int \<Rightarrow> int + (nat \<times> int)" where
  "fdt_get_property_by_offset m a offset =
     (let err = fdt_check_prop_offset m a offset; prop = a + fdt_hdr fdt_off_dt_struct m a + nat offset
      in if err < 0 then Inl err else Inr (prop, as_int32 (fdt32_at m (prop + 4))))"

function fdt_get_property_loop :: "ram \<Rightarrow> nat \<Rightarrow> bytes \<Rightarrow> int \<Rightarrow> int + (nat \<times> int \<times> int)" where
  "fdt_get_property_loop m a name offset =
     (if offset < 0 then Inl offset
      else case fdt_get_property_by_offset m a offset of
             Inl _ \<Rightarrow> Inl (- FDT_ERR_INTERNAL)
           | Inr (prop, len) \<Rightarrow>
               if fdt_string_eq m a (as_int32 (fdt32_at m (prop + 8))) name then Inr (prop, len, offset)
               else fdt_get_property_loop m a name (fdt_next_property_offset m a offset))"
  by pat_completeness auto

termination fdt_get_property_loop
proof (relation "measure (\<lambda>(_, _, _, off). if off < 0 then 0 else Suc (nat (2 ^ 31 - off)))", goal_cases)
  case (2 m a name off)
  then show ?case
    using fdt_next_property_moves [of m a off] by simp
qed simp

declare fdt_get_property_loop.simps [simp del]

definition fdt_getprop :: "ram \<Rightarrow> nat \<Rightarrow> int \<Rightarrow> bytes \<Rightarrow> int + (nat \<times> int)" where
  "fdt_getprop m a node name =
     (case fdt_get_property_loop m a name (fdt_first_property_offset m a node) of
        Inl e \<Rightarrow> Inl e
      | Inr (prop, len, poffset) \<Rightarrow>
          if fdt_hdr fdt_version m a < 0x10 \<and> (poffset + 12) mod 8 \<noteq> 0 \<and> fdt32_at m (prop + 4) \<ge> 8
          then Inr (prop + 16, len) else Inr (prop + 12, len))"

section \<open>Values lie inside the tree\<close>

lemma fdt_get_property_loop_found:
  assumes "fdt_get_property_loop m a name off = Inr (prop, len, poff)"
  shows "0 \<le> poff \<and> prop = a + fdt_hdr fdt_off_dt_struct m a + nat poff \<and> len = as_int32 (fdt32_at m (prop + 4))
         \<and> fst (fdt_next_tag m a poff) = FDT_PROP \<and> fdt_string_eq m a (as_int32 (fdt32_at m (prop + 8))) name"
  using assms
proof (induction m a name off rule: fdt_get_property_loop.induct)
  case (1 m a name off)
  note unf = fdt_get_property_loop.simps [of m a name off]
  have nn: "\<not> off < 0" using "1.prems" by (auto simp: unf split: if_splits)
  obtain prop' len' where p: "fdt_get_property_by_offset m a off = Inr (prop', len')"
    using "1.prems" nn by (auto simp: unf split: sum.splits)
  have ok: "0 \<le> fdt_check_tag_offset FDT_PROP m a off"
    using p by (auto simp: fdt_get_property_by_offset_def fdt_check_prop_offset_def Let_def split: if_splits)
  show ?case
  proof (cases "fdt_string_eq m a (as_int32 (fdt32_at m (prop' + 8))) name")
    case True
    then have "prop = prop'" "len = len'" "poff = off" using "1.prems" nn p by (simp_all add: unf)
    then show ?thesis
      using True p fdt_check_tag_offset_moves [OF ok]
      by (auto simp: fdt_get_property_by_offset_def Let_def fdt_tags split: if_splits)
  next
    case False
    then have "fdt_get_property_loop m a name (fdt_next_property_offset m a off) = Inr (prop, len, poff)"
      using "1.prems" nn p by (simp add: unf)
    then show ?thesis using "1.IH" [OF nn p refl False] by blast
  qed
qed

lemma fdt_ro_probe_big: "0x7fffffff \<le> fdt_hdr fdt_totalsize m a \<Longrightarrow> fdt_ro_probe m a < 0"
  by (simp add: fdt_ro_probe_def Let_def FDT_ERR_TRUNCATED_def FDT_ERR_ALIGNMENT_def FDT_ERR_BADVERSION_def
      FDT_ERR_BADSTATE_def FDT_ERR_BADMAGIC_def)

lemma fdt_string_eq_probe:
  assumes "fdt_string_eq m a off s" shows "fdt_hdr fdt_totalsize m a < 0x7fffffff"
proof (rule ccontr)
  assume "\<not> ?thesis"
  then have "fdt_get_string m a off = Inl (fdt_ro_probe m a)"
    using fdt_ro_probe_big [of m a] by (simp add: fdt_get_string_def)
  then show False using assms by (simp add: fdt_string_eq_def)
qed

lemma be_get_4_less: "be_get 4 off f < 2 ^ 32"
proof -
  have "le_nat (rev (slice off 4 f)) < 256 ^ length (slice off 4 f)"
    using le_nat_bound [of "rev (slice off 4 f)"] by simp
  also have "\<dots> \<le> 256 ^ 4" by (rule power_increasing) (simp_all add: slice_def)
  finally show ?thesis by (simp add: be_get_def)
qed

lemma fdt32_at_less: "fdt32_at m p < 2 ^ 32"
  by (simp add: fdt32_at_def be_get_4_less [simplified])

lemma add_mod_nowrap:
  fixes x y M :: nat
  assumes "x \<le> (x + y) mod M" "x < M" "y < M" shows "(x + y) mod M = x + y"
proof (rule ccontr)
  assume "\<not> ?thesis"
  then have "M \<le> x + y" by (metis mod_less not_le)
  then have "(x + y) mod M = x + y - M" using assms(2,3) by (simp add: mod_if)
  then show False using assms \<open>M \<le> x + y\<close> by linarith
qed

text \<open>What the range check of \<open>fdt_offset_ptr\<close> says when no sum wraps.\<close>

lemma fdt_offset_ptr_inside:
  assumes "fdt_offset_ptr m a off n = Some p" "n < 2 ^ 32"
  shows "p = a + fdt_hdr fdt_off_dt_struct m a + nat off
         \<and> fdt_hdr fdt_off_dt_struct m a + nat off + n \<le> fdt_hdr fdt_totalsize m a"
proof -
  let ?s = "fdt_hdr fdt_off_dt_struct m a" and ?u = "nat off"
  let ?abs = "(?u + ?s) mod 2 ^ 32"
  have s: "?s < 2 ^ 32"
    by (simp add: fdt_hdr_def fdt_off_dt_struct_def be_get_4_less [simplified])
  have chk: "\<not> ?abs < ?u" "\<not> (?abs + n) mod 2 ^ 32 < ?abs" "(?abs + n) mod 2 ^ 32 \<le> fdt_hdr fdt_totalsize m a"
    and u: "?u < 2 ^ 31" and p: "p = a + ?s + ?u"
    using assms(1) by (auto simp: fdt_offset_ptr_def Let_def split: if_splits)
  have "?abs = ?u + ?s"
    using chk(1) s u by (intro add_mod_nowrap) simp_all
  moreover have "(?abs + n) mod 2 ^ 32 = ?abs + n"
    using chk(2) assms(2) by (intro add_mod_nowrap) simp_all
  ultimately show ?thesis using chk(3) p by simp
qed

text \<open>The body of a property, as the tag walk has accepted it.\<close>

lemma fdt_prop_tag_inside:
  assumes tag: "fst (fdt_next_tag m a off) = FDT_PROP" and small: "fdt_hdr fdt_totalsize m a < 0x7fffffff"
  shows "let s = fdt_hdr fdt_off_dt_struct m a; len = fdt32_at m (a + s + nat off + 4);
             pad = (if fdt_hdr fdt_version m a < 0x10 \<and> len \<ge> 8 \<and> (off + 12) mod 8 \<noteq> 0 then 4 else 0)
         in s + nat off + 12 + pad + len \<le> fdt_hdr fdt_totalsize m a"
proof -
  let ?s = "fdt_hdr fdt_off_dt_struct m a"
  let ?len = "fdt32_at m (a + ?s + nat off + 4)"
  obtain tp where tp: "fdt_offset_ptr m a off 4 = Some tp"
    using tag by (cases "fdt_offset_ptr m a off 4") (auto simp: fdt_next_tag_def fdt_tags)
  obtain e where e: "fdt_tag_end m a FDT_PROP (off + 4) = Some e"
    and body: "fdt_offset_ptr m a off (nat (e - off)) \<noteq> None"
    using tag tp by (auto simp: fdt_next_tag_def fdt_tags Let_def split: option.splits if_splits)
  obtain lp where lp: "fdt_offset_ptr m a (off + 4) 4 = Some lp"
    using e by (auto simp: fdt_tag_end_def fdt_tags split: option.splits)
  have r: "0 \<le> off" "off < 2 ^ 31" using fdt_offset_ptr_range [OF tp] by simp_all
  have lpv: "lp = a + ?s + nat off + 4"
    using fdt_offset_ptr_inside [OF lp] r by (simp add: nat_add_distrib)
  have sum: "(?len + nat (off + 4)) mod 2 ^ 32 < 0x7fffffff" "nat (off + 4) \<le> (?len + nat (off + 4)) mod 2 ^ 32"
    and ev: "e = off + 12 + int ?len + (if fdt_hdr fdt_version m a < 0x10 \<and> ?len \<ge> 8 \<and> (off + 12) mod 8 \<noteq> 0 then 4 else 0)"
    using e lp by (auto simp: fdt_tag_end_def fdt_tags Let_def lpv algebra_simps split: if_splits)
  have "nat (off + 4) + ?len < 0x7fffffff"
    using sum add_mod_nowrap [of "nat (off + 4)" ?len "2 ^ 32"] fdt32_at_less [of m "a + ?s + nat off + 4"] r
    by (simp add: add.commute)
  then have "int ?len < 2 ^ 31" using r by simp
  moreover have "e - off \<le> 16 + int ?len" using ev by simp
  ultimately have n: "nat (e - off) < 2 ^ 32" by simp
  obtain p where "fdt_offset_ptr m a off (nat (e - off)) = Some p" using body by blast
  note fdt_offset_ptr_inside [OF this n]
  moreover have "nat (e - off) = 12 + ?len + (if fdt_hdr fdt_version m a < 0x10 \<and> ?len \<ge> 8 \<and> (off + 12) mod 8 \<noteq> 0 then 4 else 0)"
    using ev by auto
  ultimately show ?thesis by (simp add: Let_def)
qed


lemma fdt_getprop_inside:
  assumes "fdt_getprop m a node name = Inr (p, len)"
  shows "a \<le> p \<and> 0 \<le> len \<and> p + nat len \<le> a + fdt_hdr fdt_totalsize m a \<and> fdt_hdr fdt_totalsize m a < 0x7fffffff"
proof -
  let ?s = "fdt_hdr fdt_off_dt_struct m a"
  obtain pr poff where l:
    "fdt_get_property_loop m a name (fdt_first_property_offset m a node) = Inr (pr, len, poff)"
    using assms by (auto simp: fdt_getprop_def split: sum.splits if_splits)
  note f = fdt_get_property_loop_found [OF l]
  let ?len = "fdt32_at m (a + ?s + nat poff + 4)"
  have small: "fdt_hdr fdt_totalsize m a < 0x7fffffff" using f fdt_string_eq_probe by blast
  have tag: "fst (fdt_next_tag m a poff) = FDT_PROP" using f by simp
  note inside = fdt_prop_tag_inside [OF tag small, unfolded Let_def]
  then have "int ?len < 2 ^ 31" using small by (simp split: if_splits)
  then have len: "len = int ?len" using f by (simp add: as_int32_def)
  have p: "p = a + ?s + nat poff + 12 + (if fdt_hdr fdt_version m a < 0x10 \<and> ?len \<ge> 8 \<and> (poff + 12) mod 8 \<noteq> 0 then 4 else 0)"
    using assms l f by (auto simp: fdt_getprop_def split: if_splits)
  show ?thesis using inside p len small by simp
qed

text \<open>
  C25: a property that the lookup finds has the name that was asked for, and its value lies inside the
  tree: from its address on, as many bytes as the returned length says, whatever the bytes of the tree
  are.  A caller's own range check of the value can never fail.
\<close>

theorem fdt_getprop_in_tree:
  assumes "fdt_getprop m a node name = Inr (p, len)"
  shows "a \<le> p \<and> 0 \<le> len \<and> p + nat len \<le> a + fdt_hdr fdt_totalsize m a
    \<and> (\<exists>q. (p = q + 12 \<or> p = q + 16) \<and> len = as_int32 (fdt32_at m (q + 4))
           \<and> fdt_string_eq m a (as_int32 (fdt32_at m (q + 8))) name)"
  using fdt_getprop_inside [OF assms] assms
  by (fastforce simp: fdt_getprop_def split: sum.splits if_splits dest: fdt_get_property_loop_found)

section \<open>A small FIT\<close>

definition sample_fit :: bytes where
  "sample_fit =
    [0xd0, 0xd, 0xfe, 0xed, 0, 0, 0, 0xa9, 0, 0, 0, 0x38, 0, 0, 0, 0xa4,
     0, 0, 0, 0x28, 0, 0, 0, 0x11, 0, 0, 0, 0x10, 0, 0, 0, 0,
     0, 0, 0, 5, 0, 0, 0, 0x6c, 0, 0, 0, 0, 0, 0, 0, 0,
     0, 0, 0, 0, 0, 0, 0, 0, 0, 0, 0, 1, 0, 0, 0, 0,
     0, 0, 0, 1, 0x69, 0x6d, 0x61, 0x67, 0x65, 0x73, 0, 0, 0, 0, 0, 1,
     0x6b, 0x65, 0x72, 0x6e, 0x65, 0x6c, 0x40, 0x31, 0, 0, 0, 0, 0, 0, 0, 3,
     0, 0, 0, 4, 0, 0, 0, 0, 0x4b, 0x45, 0x52, 0x4e, 0, 0, 0, 2,
     0, 0, 0, 1, 0x66, 0x69, 0x6c, 0x65, 0x73, 0x79, 0x73, 0x74, 0x65, 0x6d, 0x40, 0x31,
     0, 0, 0, 0, 0, 0, 0, 3, 0, 0, 0, 4, 0, 0, 0, 0,
     0x52, 0x4f, 0x4f, 0x54, 0, 0, 0, 2, 0, 0, 0, 2, 0, 0, 0, 2,
     0, 0, 0, 9, 0x64, 0x61, 0x74, 0x61, 0]"

definition sample_fit_ram :: ram where
  "sample_fit_ram = mem_write 0 sample_fit (\<lambda>_. 0)"

lemma mem_read_fill: "mem_read a n (mem_write a xs (\<lambda>_. 0)) = take n xs @ replicate (n - length xs) 0"
  by (rule nth_equalityI) (auto simp: mem_read_def mem_write_def nth_append)

lemma fdt32_at_bytes:
  "fdt32_at m p = unat (m (p + 3)) + 256 * (unat (m (p + 2)) + 256 * (unat (m (p + 1)) + 256 * unat (m p)))"
  by (simp add: fdt32_at_def be_get_def mem_read_def slice_def upt_conv_Cons numeral_3_eq_3)

lemma memchr0_numeral:
  "memchr0 m s (numeral n) = (if m s = 0 then Some s else memchr0 m (Suc s) (pred_numeral n))"
  by (simp add: numeral_eq_Suc)

lemma sample_fit_at: "sample_fit_ram k = (if k < 169 then sample_fit ! k else 0)"
  by (simp add: sample_fit_ram_def mem_write_def) (simp add: sample_fit_def)

lemma sample_fit_fields:
  "fdt_hdr fdt_totalsize sample_fit_ram 0 = 169" "fdt_hdr fdt_off_dt_struct sample_fit_ram 0 = 56"
  "fdt_hdr fdt_version sample_fit_ram 0 = 17" "fdt_hdr fdt_size_dt_struct sample_fit_ram 0 = 108"
  "fdt_hdr fdt_off_dt_strings sample_fit_ram 0 = 164" "fdt_hdr fdt_size_dt_strings sample_fit_ram 0 = 5"
  "fdt_hdr fdt_magic sample_fit_ram 0 = FDT_MAGIC" "fdt_hdr fdt_last_comp_version sample_fit_ram 0 = 16"
  by (simp_all add: fdt_hdr_def sample_fit_ram_def mem_read_fill FDT_V17_SIZE_def sample_fit_def fdt_totalsize_def
      fdt_off_dt_struct_def fdt_version_def fdt_size_dt_struct_def fdt_off_dt_strings_def fdt_size_dt_strings_def
      fdt_magic_def fdt_last_comp_version_def be_get_def slice_def FDT_MAGIC_def)

lemma sample_fit_header: "fdt_check_header 0 (mem_read 0 FDT_V17_SIZE sample_fit_ram) = 0"
  by (simp add: sample_fit_ram_def mem_read_fill FDT_V17_SIZE_def sample_fit_def fdt_check_header_def Let_def
      fdt_magic_def fdt_totalsize_def fdt_off_dt_struct_def fdt_off_dt_strings_def fdt_off_mem_rsvmap_def
      fdt_version_def fdt_last_comp_version_def fdt_size_dt_strings_def fdt_size_dt_struct_def be_get_def slice_def
      fdt_header_size_def check_off_def check_block_def FDT_MAGIC_def FDT_FIRST_SUPPORTED_VERSION_def
      FDT_LAST_SUPPORTED_VERSION_def)

lemma sample_fit_probe: "fdt_ro_probe sample_fit_ram 0 = 169"
  by (simp add: fdt_ro_probe_def sample_fit_fields FDT_FIRST_SUPPORTED_VERSION_def FDT_LAST_SUPPORTED_VERSION_def)

lemma sample_fit_tags:
  "fdt_next_tag sample_fit_ram 0 0 = (1, 8)" "fdt_next_tag sample_fit_ram 0 8 = (1, 20)"
  "fdt_next_tag sample_fit_ram 0 20 = (1, 36)" "fdt_next_tag sample_fit_ram 0 36 = (3, 52)"
  "fdt_next_tag sample_fit_ram 0 52 = (2, 56)" "fdt_next_tag sample_fit_ram 0 56 = (1, 76)"
  "fdt_next_tag sample_fit_ram 0 76 = (3, 92)"
  by (simp_all add: fdt_next_tag_def fdt_offset_ptr_def sample_fit_fields Let_def fdt32_at_bytes sample_fit_at
      fdt_tag_end_def fdt_tags FDT_TAGALIGN_def fdt_skip_name.simps sample_fit_def)

lemma sample_fit_names:
  "fdt_skip_name sample_fit_ram 0 12 = Some 19" "fdt_skip_name sample_fit_ram 0 24 = Some 33"
  "fdt_skip_name sample_fit_ram 0 60 = Some 73"
  by (simp_all add: fdt_offset_ptr_def sample_fit_fields Let_def sample_fit_at fdt_skip_name.simps sample_fit_def)

lemma sample_fit_eqs:
  "fdt_nodename_eq sample_fit_ram 0 8 (str_bytes ''images'')"
  "fdt_nodename_eq sample_fit_ram 0 20 (str_bytes ''kernel@1'')"
  "\<not> fdt_nodename_eq sample_fit_ram 0 20 (str_bytes ''filesystem@1'')"
  "fdt_nodename_eq sample_fit_ram 0 56 (str_bytes ''filesystem@1'')"
  by (simp_all add: fdt_nodename_eq_def fdt_get_name_def sample_fit_probe fdt_check_node_offset_def
      fdt_check_tag_offset_def sample_fit_tags fdt_tags sample_fit_names sample_fit_fields mem_str_at_def
      mem_read_def upt_conv_Cons sample_fit_at sample_fit_def str_bytes_def Let_def)

lemma sample_fit_nodes:
  "fdt_path_offset sample_fit_ram 0 [str_bytes ''images''] = 8"
  "fdt_subnode_offset sample_fit_ram 0 8 (str_bytes ''kernel@1'') = 20"
  "fdt_subnode_offset sample_fit_ram 0 8 (str_bytes ''filesystem@1'') = 56"
  by (simp_all add: fdt_path_offset_def fdt_subnode_offset_def sample_fit_probe fdt_subnode_loop.simps
      fdt_next_node_def fdt_check_node_offset_def fdt_check_tag_offset_def fdt_node_loop.simps sample_fit_tags
      fdt_tags sample_fit_eqs)

lemma sample_fit_string: "fdt_string_eq sample_fit_ram 0 0 (str_bytes ''data'')"
  by (simp add: fdt_string_eq_def fdt_get_string_def sample_fit_probe sample_fit_fields Let_def memchr0_numeral
      sample_fit_at sample_fit_def mem_str_at_def str_bytes_def mem_read_def upt_conv_Cons)

lemma sample_fit_data:
  "fdt_getprop sample_fit_ram 0 20 (str_bytes ''data'') = Inr (104, 4)"
  "fdt_getprop sample_fit_ram 0 56 (str_bytes ''data'') = Inr (144, 4)"
  by (simp_all add: fdt_getprop_def fdt_first_property_offset_def nextprop.simps fdt_get_property_loop.simps
      fdt_get_property_by_offset_def fdt_check_prop_offset_def fdt_check_node_offset_def fdt_check_tag_offset_def
      as_int32_def fdt_tags sample_fit_tags sample_fit_fields fdt32_at_bytes sample_fit_at sample_fit_def
      sample_fit_string)

theorem fdt_getprop_in_tree_witness:
  "0 \<le> (104 :: nat) \<and> 0 \<le> (4 :: int) \<and> 104 + nat 4 \<le> 0 + fdt_hdr fdt_totalsize sample_fit_ram 0
    \<and> (\<exists>q. (104 = q + 12 \<or> 104 = q + 16) \<and> 4 = as_int32 (fdt32_at sample_fit_ram (q + 4))
           \<and> fdt_string_eq sample_fit_ram 0 (as_int32 (fdt32_at sample_fit_ram (q + 8))) (str_bytes ''data''))"
  by (rule fdt_getprop_in_tree [OF sample_fit_data(1)])

end
