(* ===== verification/Fit_Image.thy ===== *)
theory Fit_Image
  imports Fdt Env_Text
begin

text \<open>
  FIT images (\<open>boot/image-fit.c\<close>): the format check, the data of an image, the verification of the hashes
  of all images, and the default configuration; with the walks over children, string lists and the full
  check of \<open>libfdt\<close> that it uses.  Signatures and ciphers are not configured.

  The hash functions are a parameter, a function from the name of the algorithm and the data to the
  digest.  A name that is read from the tree is a C string in RAM, which may run on behind its property.
\<close>

section \<open>C strings in RAM\<close>

function ram_str :: "ram \<Rightarrow> nat \<Rightarrow> bytes" where
  "ram_str m p = (if m p = 0 \<or> 2 ^ 64 \<le> p then [] else m p # ram_str m (Suc p))"
  by pat_completeness auto

termination ram_str
  by (relation "measure (\<lambda>(_, p). 2 ^ 64 - p)") auto

declare ram_str.simps [simp del]

text \<open>\<open>strcmp\<close> and \<open>strcasecmp\<close> of a constant with the string at an address.\<close>

definition ram_strcmp :: "ram \<Rightarrow> nat \<Rightarrow> string \<Rightarrow> bool" where
  "ram_strcmp m p s \<longleftrightarrow> mem_read p (length s + 1) m = str_bytes s @ [0]"

definition ram_strcasecmp :: "ram \<Rightarrow> nat \<Rightarrow> string \<Rightarrow> bool" where
  "ram_strcasecmp m p s \<longleftrightarrow>
     map (\<lambda>b. tolower (unat b)) (mem_read p (length s + 1) m) = map (\<lambda>c. tolower (of_char c)) s @ [0]"

section \<open>Children of a node\<close>

definition fdt_first_subnode :: "ram \<Rightarrow> nat \<Rightarrow> int \<Rightarrow> int" where
  "fdt_first_subnode m a offset =
     (case fdt_next_node m a offset 0 of (off, depth) \<Rightarrow>
        if off < 0 \<or> depth \<noteq> 1 then - FDT_ERR_NOTFOUND else off)"

function next_subnode_loop :: "ram \<Rightarrow> nat \<Rightarrow> int \<Rightarrow> int \<Rightarrow> int" where
  "next_subnode_loop m a offset depth =
     (if offset < 0 then - FDT_ERR_NOTFOUND
      else case fdt_next_node m a offset depth of (off, depth') \<Rightarrow>
        if off < 0 \<or> depth' < 1 then - FDT_ERR_NOTFOUND
        else if depth' > 1 then next_subnode_loop m a off depth'
        else off)"
  by pat_completeness auto

termination next_subnode_loop
proof (relation "measure (\<lambda>(_, _, off, _). nat (2 ^ 31 - off))", goal_cases)
  case (2 m a off d off' d')
  then have "off < 2 ^ 31 \<and> off < off'" using fdt_next_node_moves [of m a off d off' d'] by simp
  then show ?case by simp
qed simp

declare next_subnode_loop.simps [simp del]

text \<open>The caller of \<open>fdt_next_subnode\<close> has a node, so the offset is not negative.\<close>

definition fdt_next_subnode :: "ram \<Rightarrow> nat \<Rightarrow> int \<Rightarrow> int" where
  "fdt_next_subnode m a offset = next_subnode_loop m a offset 1"

lemma next_subnode_loop_moves:
  "0 \<le> next_subnode_loop m a off d \<Longrightarrow> 0 \<le> off \<and> off < 2 ^ 31 \<and> off < next_subnode_loop m a off d"
proof (induction m a off d rule: next_subnode_loop.induct)
  case (1 m a off d)
  obtain off' d' where n: "fdt_next_node m a off d = (off', d')" by fastforce
  note unf = next_subnode_loop.simps [of m a off d, unfolded n prod.case]
  show ?case
    using "1.prems" "1.IH" [OF _ n [symmetric]] fdt_next_node_moves [OF n]
    unfolding unf by (fastforce simp: FDT_ERR_NOTFOUND_def split: if_splits)
qed

text \<open>The nodes that \<open>fdt_for_each_subnode\<close> visits, from the first one on.\<close>

function subnodes_from :: "ram \<Rightarrow> nat \<Rightarrow> int \<Rightarrow> int list" where
  "subnodes_from m a node = (if node < 0 then [] else node # subnodes_from m a (fdt_next_subnode m a node))"
  by pat_completeness auto

termination subnodes_from
proof (relation "measure (\<lambda>(_, _, off). if off < 0 then 0 else Suc (nat (2 ^ 31 - off)))", goal_cases)
  case (2 m a node)
  then show ?case using next_subnode_loop_moves [of m a node 1] by (auto simp: fdt_next_subnode_def)
qed simp

declare subnodes_from.simps [simp del]

definition fdt_subnodes :: "ram \<Rightarrow> nat \<Rightarrow> int \<Rightarrow> int list" where
  "fdt_subnodes m a parent = subnodes_from m a (fdt_first_subnode m a parent)"

section \<open>The full check of a tree\<close>

definition FDT_V1_SIZE :: nat where "FDT_V1_SIZE = 28"
definition FDT_ERR_BADLAYOUT :: int where "FDT_ERR_BADLAYOUT = 12"
definition FDT_ERR_BADVALUE :: int where "FDT_ERR_BADVALUE = 15"

text \<open>
  The reservation map: the number of its entries, or an error.  An entry is read only while it lies
  below the size of the tree, so the 32-bit offsets do not wrap.
\<close>

function num_mem_rsv_loop :: "ram \<Rightarrow> nat \<Rightarrow> nat \<Rightarrow> int" where
  "num_mem_rsv_loop m a i =
     (let abs = fdt_hdr fdt_off_mem_rsvmap m a + 16 * i
      in if abs > fdt_hdr fdt_totalsize m a - 16 then - FDT_ERR_TRUNCATED
         else if list_all (\<lambda>b. b = 0) (mem_read (a + abs + 8) 8 m) then int i
         else num_mem_rsv_loop m a (Suc i))"
  by pat_completeness auto

termination num_mem_rsv_loop
  by (relation "measure (\<lambda>(m, a, i). Suc (fdt_hdr fdt_totalsize m a) - 16 * i)") auto

declare num_mem_rsv_loop.simps [simp del]

definition fdt_num_mem_rsv :: "ram \<Rightarrow> nat \<Rightarrow> int" where
  "fdt_num_mem_rsv m a = num_mem_rsv_loop m a 0"

text \<open>The error of \<open>fdt_getprop_by_offset\<close> with a request for the name; 0 when there is none.\<close>

definition getprop_by_offset_err :: "ram \<Rightarrow> nat \<Rightarrow> int \<Rightarrow> int" where
  "getprop_by_offset_err m a offset =
     (case fdt_get_property_by_offset m a offset of
        Inl e \<Rightarrow> e
      | Inr (pr, _) \<Rightarrow>
          (case fdt_get_string m a (as_int32 (fdt32_at m (pr + 8))) of Inl e \<Rightarrow> e | Inr _ \<Rightarrow> 0))"

text \<open>The test \<open>*name || len\<close> of the root; a tree without a name for it counts as named.\<close>

definition root_named :: "ram \<Rightarrow> nat \<Rightarrow> int \<Rightarrow> bool" where
  "root_named m a offset = (case fdt_get_name m a offset of Inr (_, len) \<Rightarrow> len \<noteq> 0 | Inl _ \<Rightarrow> True)"

function check_full_loop :: "ram \<Rightarrow> nat \<Rightarrow> int \<Rightarrow> nat \<Rightarrow> bool \<Rightarrow> int" where
  "check_full_loop m a offset depth expect_end =
     (case fdt_next_tag m a offset of (tag, nextoffset) \<Rightarrow>
        if nextoffset < 0 then nextoffset
        else if expect_end \<and> tag \<noteq> FDT_END then - FDT_ERR_BADLAYOUT
        else if tag = FDT_NOP then check_full_loop m a nextoffset depth expect_end
        else if tag = FDT_END then (if depth \<noteq> 0 then - FDT_ERR_BADSTRUCTURE else 0)
        else if tag = FDT_BEGIN_NODE
        then (if depth + 1 > 0x7fffffff then - FDT_ERR_BADSTRUCTURE
              else if depth = 0 \<and> root_named m a offset then - FDT_ERR_BADLAYOUT
              else check_full_loop m a nextoffset (depth + 1) expect_end)
        else if tag = FDT_END_NODE
        then (if depth = 0 then - FDT_ERR_BADSTRUCTURE
              else check_full_loop m a nextoffset (depth - 1) (depth = 1 \<or> expect_end))
        else if tag = FDT_PROP
        then (if getprop_by_offset_err m a offset \<noteq> 0 then getprop_by_offset_err m a offset
              else check_full_loop m a nextoffset depth expect_end)
        else - FDT_ERR_INTERNAL)"
  by pat_completeness auto

termination check_full_loop
  by (relation "measure (\<lambda>(_, _, off, _, _). nat (2 ^ 31 - off))")
    (auto dest!: sym [where t = "fdt_next_tag _ _ _"] fdt_next_tag_progress)

declare check_full_loop.simps [simp del]

definition fdt_check_full :: "ram \<Rightarrow> nat \<Rightarrow> nat \<Rightarrow> int" where
  "fdt_check_full m a bufsize =
     (let err = fdt_check_header a (mem_read a FDT_V17_SIZE m)
      in if bufsize < FDT_V1_SIZE then - FDT_ERR_TRUNCATED
         else if err \<noteq> 0 then err
         else if bufsize < fdt_hdr fdt_totalsize m a then - FDT_ERR_TRUNCATED
         else if fdt_num_mem_rsv m a < 0 then fdt_num_mem_rsv m a
         else check_full_loop m a 0 0 False)"

section \<open>String lists\<close>

function stringlist_contains :: "ram \<Rightarrow> nat \<Rightarrow> nat \<Rightarrow> string \<Rightarrow> bool" where
  "stringlist_contains m strlist listlen str =
     (if listlen < length str then False
      else if ram_strcmp m strlist str then True
      else case memchr0 m strlist listlen of
             None \<Rightarrow> False
           | Some p \<Rightarrow> stringlist_contains m (p + 1) (listlen - (p - strlist + 1)) str)"
  by pat_completeness auto

termination stringlist_contains
proof (relation "measure (\<lambda>(_, _, listlen, _). listlen)", goal_cases)
  case (2 m strlist listlen str p)
  then show ?case by (cases listlen) auto
qed simp

declare stringlist_contains.simps [simp del]

definition fdt_stringlist_contains :: "ram \<Rightarrow> nat \<Rightarrow> int \<Rightarrow> string \<Rightarrow> bool" where
  "fdt_stringlist_contains m strlist listlen str =
     (0 \<le> listlen \<and> stringlist_contains m strlist (nat listlen) str)"

text \<open>The first string of a list (\<open>fdt_stringlist_get\<close> with index 0): its address, or an error.\<close>

definition fdt_stringlist_first :: "ram \<Rightarrow> nat \<Rightarrow> int \<Rightarrow> string \<Rightarrow> int + nat" where
  "fdt_stringlist_first m a node property =
     (case fdt_getprop m a node (str_bytes property) of
        Inl e \<Rightarrow> Inl e
      | Inr (p, len) \<Rightarrow>
          if len \<le> 0 then Inl (- FDT_ERR_NOTFOUND)
          else if memchr0 m p (nat len) = None then Inl (- FDT_ERR_BADVALUE)
          else Inr p)"

section \<open>Images of a FIT\<close>

abbreviation (input) ENOMSG :: int where "ENOMSG \<equiv> 42"
abbreviation (input) EPROTONOSUPPORT :: int where "EPROTONOSUPPORT \<equiv> 93"

definition FIT_IMAGES_PATH :: "bytes list" where "FIT_IMAGES_PATH = [str_bytes ''images'']"
definition FIT_CONFS_PATH :: "bytes list" where "FIT_CONFS_PATH = [str_bytes ''configurations'']"

definition fit_image_get_node :: "ram \<Rightarrow> nat \<Rightarrow> nat \<Rightarrow> int" where
  "fit_image_get_node m fit image_uname =
     (let images_noffset = fdt_path_offset m fit FIT_IMAGES_PATH
      in if images_noffset < 0 then images_noffset
         else fdt_subnode_offset m fit images_noffset (ram_str m image_uname))"

text \<open>A 32-bit property as a C \<open>int\<close>.\<close>

definition fit_get_int :: "ram \<Rightarrow> nat \<Rightarrow> int \<Rightarrow> string \<Rightarrow> int option" where
  "fit_get_int m fit noffset name =
     (case fdt_getprop m fit noffset (str_bytes name) of
        Inl _ \<Rightarrow> None
      | Inr (val, _) \<Rightarrow> Some (as_int32 (fdt32_at m val)))"

definition fit_image_get_data_position :: "ram \<Rightarrow> nat \<Rightarrow> int \<Rightarrow> int option" where
  "fit_image_get_data_position m fit noffset = fit_get_int m fit noffset ''data-position''"

definition fit_image_get_data_offset :: "ram \<Rightarrow> nat \<Rightarrow> int \<Rightarrow> int option" where
  "fit_image_get_data_offset m fit noffset = fit_get_int m fit noffset ''data-offset''"

definition fit_image_get_data_size :: "ram \<Rightarrow> nat \<Rightarrow> int \<Rightarrow> int option" where
  "fit_image_get_data_size m fit noffset = fit_get_int m fit noffset ''data-size''"

definition fit_image_get_emb_data :: "ram \<Rightarrow> nat \<Rightarrow> int \<Rightarrow> (nat \<times> int) option" where
  "fit_image_get_emb_data m fit noffset =
     (case fdt_getprop m fit noffset (str_bytes ''data'') of Inl _ \<Rightarrow> None | Inr d \<Rightarrow> Some d)"

text \<open>Where the external data of an image starts, relative to the FIT.\<close>

definition external_offset :: "ram \<Rightarrow> nat \<Rightarrow> int \<Rightarrow> int option" where
  "external_offset m fit noffset =
     (case fit_image_get_data_position m fit noffset of
        Some offset \<Rightarrow> Some offset
      | None \<Rightarrow>
          (case fit_image_get_data_offset m fit noffset of
             Some offset \<Rightarrow>
               let base = (fdt_hdr fdt_totalsize m fit + 3) mod 2 ^ 32 div 4 * 4
               in Some (as_int32 (nat ((offset + int base) mod 2 ^ 32)))
           | None \<Rightarrow> None))"

text \<open>Address and size of the data; the size is the C \<open>int\<close> before it becomes a \<open>size_t\<close>.\<close>

definition fit_image_get_data :: "ram \<Rightarrow> nat \<Rightarrow> int \<Rightarrow> (nat \<times> int) option" where
  "fit_image_get_data m fit noffset =
     (case external_offset m fit noffset of
        Some offset \<Rightarrow>
          (case fit_image_get_data_size m fit noffset of
             Some len \<Rightarrow> Some (nat ((int fit + offset) mod 2 ^ 64), len)
           | None \<Rightarrow> None)
      | None \<Rightarrow> fit_image_get_emb_data m fit noffset)"

section \<open>Hashes\<close>

text \<open>The algorithms that are configured, with the sizes of their digests.\<close>

definition hash_algo :: "(string \<times> nat) list" where
  "hash_algo = [(''md5'', 16), (''sha1'', 20), (''sha256'', 32), (''sha512'', 64), (''crc16-ccitt'', 2), (''crc32'', 4)]"

definition hash_lookup_algo :: "ram \<Rightarrow> nat \<Rightarrow> (string \<times> nat) option" where
  "hash_lookup_algo m algo_name = find (\<lambda>(name, _). ram_strcmp m algo_name name) hash_algo"

type_synonym hash_functions = "string \<Rightarrow> bytes \<Rightarrow> bytes"

definition calculate_hash :: "hash_functions \<Rightarrow> ram \<Rightarrow> nat \<Rightarrow> int \<Rightarrow> nat \<Rightarrow> (bytes \<times> nat) option" where
  "calculate_hash H m data len name =
     (case hash_lookup_algo m name of
        None \<Rightarrow> None
      | Some (algo, digest_size) \<Rightarrow> Some (H algo (mem_read data (nat (len mod 2 ^ 32)) m), digest_size))"

definition fit_image_hash_get_ignore :: "ram \<Rightarrow> nat \<Rightarrow> int \<Rightarrow> bool" where
  "fit_image_hash_get_ignore m fit noffset =
     (case fdt_getprop m fit noffset (str_bytes ''uboot-ignore'') of
        Inl _ \<Rightarrow> False
      | Inr (val, len) \<Rightarrow> len = 4 \<and> mem_read val 4 m \<noteq> [0, 0, 0, 0])"

text \<open>True for the result 0.\<close>

definition fit_image_check_hash :: "hash_functions \<Rightarrow> ram \<Rightarrow> nat \<Rightarrow> int \<Rightarrow> nat \<times> int \<Rightarrow> bool" where
  "fit_image_check_hash H m fit noffset d =
     (case fdt_getprop m fit noffset (str_bytes ''algo'') of
        Inl _ \<Rightarrow> False
      | Inr (algo, _) \<Rightarrow>
          if fit_image_hash_get_ignore m fit noffset then True
          else case fdt_getprop m fit noffset (str_bytes ''value'') of
                 Inl _ \<Rightarrow> False
               | Inr (fit_value, fit_value_len) \<Rightarrow>
                   (case calculate_hash H m (fst d) (snd d) algo of
                      None \<Rightarrow> False
                    | Some (val, value_len) \<Rightarrow>
                        int value_len = fit_value_len \<and> val = mem_read fit_value value_len m))"

definition is_hash_node :: "ram \<Rightarrow> nat \<Rightarrow> int \<Rightarrow> bool" where
  "is_hash_node m fit noffset =
     (case fdt_get_name m fit noffset of Inl _ \<Rightarrow> False | Inr (p, _) \<Rightarrow> mem_read p 4 m = str_bytes ''hash'')"

definition fit_image_verify_with_data :: "hash_functions \<Rightarrow> ram \<Rightarrow> nat \<Rightarrow> int \<Rightarrow> nat \<times> int \<Rightarrow> bool" where
  "fit_image_verify_with_data H m fit image_noffset d =
     list_all (\<lambda>noffset. is_hash_node m fit noffset \<longrightarrow> fit_image_check_hash H m fit noffset d)
       (fdt_subnodes m fit image_noffset)"

definition fit_image_verify :: "hash_functions \<Rightarrow> ram \<Rightarrow> nat \<Rightarrow> int \<Rightarrow> bool" where
  "fit_image_verify H m fit image_noffset =
     (case fit_image_get_data m fit image_noffset of
        None \<Rightarrow> False
      | Some d \<Rightarrow> fit_image_verify_with_data H m fit image_noffset d)"

text \<open>The loop over all nodes below \<open>/images\<close>, of which those at depth 1 are images.\<close>

function verify_images :: "hash_functions \<Rightarrow> ram \<Rightarrow> nat \<Rightarrow> int \<Rightarrow> int \<Rightarrow> bool" where
  "verify_images H m fit noffset ndepth =
     (if noffset \<ge> 0 \<and> ndepth > 0
      then if ndepth = 1 \<and> \<not> fit_image_verify H m fit noffset then False
           else case fdt_next_node m fit noffset ndepth of (n, d) \<Rightarrow> verify_images H m fit n d
      else True)"
  by pat_completeness auto

termination verify_images
proof (relation "measure (\<lambda>(_, _, _, off, _). if off < 0 then 0 else Suc (nat (2 ^ 31 - off)))", goal_cases)
  case (2 H m fit off depth off' depth')
  then have "0 \<le> off' \<Longrightarrow> off < 2 ^ 31 \<and> off < off'"
    using fdt_next_node_moves [of m fit off depth off' depth'] by simp
  then show ?case using 2(1) by simp
qed simp

declare verify_images.simps [simp del]

definition fit_all_image_verify :: "hash_functions \<Rightarrow> ram \<Rightarrow> nat \<Rightarrow> bool" where
  "fit_all_image_verify H m fit =
     (let images_noffset = fdt_path_offset m fit FIT_IMAGES_PATH
      in if images_noffset < 0 then False
         else case fdt_next_node m fit images_noffset 0 of (n, d) \<Rightarrow> verify_images H m fit n d)"

section \<open>Format, configurations and properties of images\<close>

definition fit_check_format :: "ram \<Rightarrow> nat \<Rightarrow> nat \<Rightarrow> int" where
  "fit_check_format m fit len =
     (if fdt_check_header fit (mem_read fit FDT_V17_SIZE m) \<noteq> 0 then - ENOEXEC
      else if fdt_check_full m fit len \<noteq> 0 then - EINVAL
      else case fdt_getprop m fit 0 (str_bytes ''description'') of
             Inl _ \<Rightarrow> - ENOMSG
           | Inr _ \<Rightarrow> if fdt_path_offset m fit FIT_IMAGES_PATH < 0 then - ENOENT else 0)"

text \<open>The node of the default configuration; its name is copied when a \<open>#\<close> is cut off.\<close>

definition fit_conf_get_node :: "nat \<Rightarrow> ('x world_scheme, int) state" where
  "fit_conf_get_node fit = do {
     m \<leftarrow> gets ram;
     let confs_noffset = fdt_path_offset m fit FIT_CONFS_PATH;
     if confs_noffset < 0 then ret confs_noffset
     else case fdt_getprop m fit confs_noffset (str_bytes ''default'') of
            Inl e \<Rightarrow> ret e
          | Inr (p, _) \<Rightarrow>
              let uname = ram_str m p; uname' = takeWhile (\<lambda>b. b \<noteq> 0x23) uname
              in if uname' \<noteq> uname
                 then do {
                   copy \<leftarrow> malloc_buf (length uname' + 1);
                   ret (if copy = None then - ENOMEM else fdt_subnode_offset m fit confs_noffset uname')
                 }
                 else ret (fdt_subnode_offset m fit confs_noffset uname)
   }"

definition fit_conf_get_prop_node :: "ram \<Rightarrow> nat \<Rightarrow> int \<Rightarrow> string \<Rightarrow> int" where
  "fit_conf_get_prop_node m fit noffset prop_name =
     (case fdt_stringlist_first m fit noffset prop_name of
        Inl e \<Rightarrow> e
      | Inr uname \<Rightarrow> fit_image_get_node m fit uname)"

definition IH_ARCH_ARM64 :: nat where "IH_ARCH_ARM64 = 22"
definition IH_TYPE_FLATDT :: nat where "IH_TYPE_FLATDT = 8"

definition uimage_arch :: "(nat \<times> string) list" where
  "uimage_arch =
     [(0, ''invalid''), (1, ''alpha''), (2, ''arm''), (3, ''x86''), (4, ''ia64''), (12, ''m68k''),
      (14, ''microblaze''), (5, ''mips''), (6, ''mips64''), (15, ''nios2''), (7, ''powerpc''), (7, ''ppc''),
      (8, ''s390''), (9, ''sh''), (10, ''sparc''), (11, ''sparc64''), (16, ''blackfin''), (17, ''avr32''),
      (20, ''nds32''), (21, ''or1k''), (19, ''sandbox''), (22, ''arm64''), (23, ''arc''), (24, ''x86_64''),
      (25, ''xtensa''), (26, ''riscv'')]"

definition uimage_type :: "(nat \<times> string) list" where
  "uimage_type =
     [(13, ''aisimage''), (7, ''filesystem''), (5, ''firmware''), (8, ''flat_dt''), (17, ''gpimage''),
      (2, ''kernel''), (14, ''kernel_noload''), (9, ''kwbimage''), (10, ''imximage''), (38, ''imx8image''),
      (37, ''imx8mimage''), (0, ''invalid''), (4, ''multi''), (12, ''omapimage''), (15, ''pblimage''),
      (3, ''ramdisk''), (6, ''script''), (19, ''socfpgaimage''), (35, ''socfpgaimage_v1''),
      (1, ''standalone''), (11, ''ublimage''), (16, ''mxsimage''), (18, ''atmelimage''), (20, ''x86_setup''),
      (21, ''lpc32xximage''), (23, ''rkimage''), (24, ''rksd''), (25, ''rkspi''), (30, ''vybridimage''),
      (26, ''zynqimage''), (27, ''zynqmpimage''), (28, ''zynqmpbif''), (29, ''fpga''), (31, ''tee''),
      (32, ''firmware_ivt''), (33, ''pmmc''), (34, ''stm32image''), (36, ''mtk_image''), (39, ''copro''),
      (40, ''sunxi_egon''), (41, ''sunxi_toc0''), (42, ''fdt_legacy''), (43, ''spkgimage''), (44, ''sfspl''),
      (45, ''tfa-bl31''), (46, ''stm32imagev2''), (47, ''amlimage'')]"

definition get_table_entry_id :: "(nat \<times> string) list \<Rightarrow> ram \<Rightarrow> nat \<Rightarrow> nat option" where
  "get_table_entry_id table m name = map_option fst (find (\<lambda>(_, sname). ram_strcasecmp m name sname) table)"

definition fit_image_get_arch :: "ram \<Rightarrow> nat \<Rightarrow> int \<Rightarrow> nat option" where
  "fit_image_get_arch m fit noffset =
     (case fdt_getprop m fit noffset (str_bytes ''arch'') of
        Inl _ \<Rightarrow> None
      | Inr (p, _) \<Rightarrow> Some (case get_table_entry_id uimage_arch m p of Some i \<Rightarrow> i | None \<Rightarrow> 255))"

definition fit_image_get_type :: "ram \<Rightarrow> nat \<Rightarrow> int \<Rightarrow> nat option" where
  "fit_image_get_type m fit noffset =
     (case fdt_getprop m fit noffset (str_bytes ''type'') of
        Inl _ \<Rightarrow> None
      | Inr (p, _) \<Rightarrow> Some (case get_table_entry_id uimage_type m p of Some i \<Rightarrow> i | None \<Rightarrow> 255))"

section \<open>The walk visits the children\<close>

lemma fdt_node_loop_depth: "fdt_node_loop m a off 0 = (r, d) \<Longrightarrow> d = 1 \<or> d = - 1 \<or> r < 0"
proof (induction m a off "0 :: int" rule: fdt_node_loop.induct)
  case (1 m a off)
  obtain tag nxt where t: "fdt_next_tag m a off = (tag, nxt)" by fastforce
  show ?case
    using "1.prems" "1.hyps"(2) [OF t [symmetric]]
    by (subst (asm) fdt_node_loop.simps) (auto simp: t FDT_ERR_NOTFOUND_def split: if_splits)
qed

lemma fdt_next_node_depth: "fdt_next_node m a off 0 = (r, d) \<Longrightarrow> d = 1 \<or> d = - 1 \<or> r < 0"
  by (auto simp: fdt_next_node_def Let_def split: if_splits dest: fdt_node_loop_depth)

text \<open>From a node at some depth, the walk goes on with the next child of the common parent.\<close>

lemma verify_images_siblings:
  assumes "0 \<le> off" "1 \<le> d"
  shows "(case fdt_next_node m fit off d of (n, d') \<Rightarrow> verify_images H m fit n d')
         = list_all (fit_image_verify H m fit) (subnodes_from m fit (next_subnode_loop m fit off d))"
  using assms
proof (induction "nat (2 ^ 31 - off)" arbitrary: off d rule: less_induct)
  case less
  obtain n d' where n: "fdt_next_node m fit off d = (n, d')" by fastforce
  note unf = next_subnode_loop.simps [of m fit off d, unfolded n prod.case]
  show ?case
  proof (cases "n < 0 \<or> d' < 1")
    case True
    then have "next_subnode_loop m fit off d < 0" using less.prems by (simp add: unf FDT_ERR_NOTFOUND_def)
    moreover have "verify_images H m fit n d'" using True by (subst verify_images.simps) auto
    ultimately show ?thesis by (subst subnodes_from.simps) (simp add: n)
  next
    case False
    then have "off < 2 ^ 31" "off < n" using fdt_next_node_moves [OF n] less.prems by simp_all
    then have IH: "(case fdt_next_node m fit n d' of (n, d') \<Rightarrow> verify_images H m fit n d')
         = list_all (fit_image_verify H m fit) (subnodes_from m fit (next_subnode_loop m fit n d'))"
      using False less.prems by (intro less.hyps) auto
    have v: "verify_images H m fit n d' \<longleftrightarrow>
        (d' = 1 \<longrightarrow> fit_image_verify H m fit n) \<and> (case fdt_next_node m fit n d' of (n, d') \<Rightarrow> verify_images H m fit n d')"
      using False by (subst verify_images.simps) auto
    show ?thesis
    proof (cases "d' = 1")
      case True
      then have "next_subnode_loop m fit off d = n" using False less.prems by (simp add: unf)
      then show ?thesis
        using True False v IH by (subst subnodes_from.simps) (simp add: n fdt_next_subnode_def)
    next
      case False': False
      then have "next_subnode_loop m fit off d = next_subnode_loop m fit n d'"
        using False less.prems by (simp add: unf)
      then show ?thesis using False' v IH by (simp add: n)
    qed
  qed
qed

lemma fit_all_image_verify_children:
  "fit_all_image_verify H m fit \<longleftrightarrow>
     0 \<le> fdt_path_offset m fit FIT_IMAGES_PATH
     \<and> list_all (fit_image_verify H m fit) (fdt_subnodes m fit (fdt_path_offset m fit FIT_IMAGES_PATH))"
proof -
  let ?i = "fdt_path_offset m fit FIT_IMAGES_PATH"
  obtain n d where n: "fdt_next_node m fit ?i 0 = (n, d)" by fastforce
  show ?thesis
  proof (cases "n < 0 \<or> d \<noteq> 1")
    case True
    then have "n < 0 \<or> d \<le> 0" using fdt_next_node_depth [OF n] by auto
    then have "verify_images H m fit n d" by (subst verify_images.simps) auto
    moreover have "fdt_subnodes m fit ?i = []"
      using True by (simp add: fdt_subnodes_def fdt_first_subnode_def n subnodes_from.simps FDT_ERR_NOTFOUND_def)
    ultimately show ?thesis by (simp add: fit_all_image_verify_def Let_def n)
  next
    case False
    then have "verify_images H m fit n d \<longleftrightarrow> list_all (fit_image_verify H m fit) (subnodes_from m fit n)"
      using verify_images_siblings [of n 1 H m fit]
      by (subst verify_images.simps, subst subnodes_from.simps) (simp add: fdt_next_subnode_def)
    then show ?thesis
      using False by (simp add: fit_all_image_verify_def Let_def n fdt_subnodes_def fdt_first_subnode_def)
  qed
qed

text \<open>What it means that the hash of an image is right.\<close>

definition hash_matches :: "hash_functions \<Rightarrow> ram \<Rightarrow> nat \<Rightarrow> int \<Rightarrow> bytes \<Rightarrow> bool" where
  "hash_matches H m fit noffset data \<longleftrightarrow>
     (\<exists>algo name n v. hash_lookup_algo m algo = Some (name, n)
        \<and> (\<exists>l. fdt_getprop m fit noffset (str_bytes ''algo'') = Inr (algo, l))
        \<and> fdt_getprop m fit noffset (str_bytes ''value'') = Inr (v, int n)
        \<and> mem_read v n m = H name data)"

lemma check_hash_matches:
  assumes "fit_image_check_hash H m fit noffset (p, len)" "\<not> fit_image_hash_get_ignore m fit noffset"
  shows "hash_matches H m fit noffset (mem_read p (nat (len mod 2 ^ 32)) m)"
  using assms
  by (fastforce simp: fit_image_check_hash_def calculate_hash_def hash_matches_def
      split: sum.splits option.splits prod.splits)

text \<open>
  C12: when the verification of a FIT succeeds, every image below \<open>/images\<close> has data, and the digest of
  that data is the one stored in each of its hash nodes that is not marked to be ignored.
\<close>

theorem fit_verify_sound:
  assumes "fit_all_image_verify H m fit"
    and "img \<in> set (fdt_subnodes m fit (fdt_path_offset m fit FIT_IMAGES_PATH))"
  shows "\<exists>p len. fit_image_get_data m fit img = Some (p, len)
    \<and> (\<forall>h \<in> set (fdt_subnodes m fit img). is_hash_node m fit h \<longrightarrow> \<not> fit_image_hash_get_ignore m fit h \<longrightarrow>
          hash_matches H m fit h (mem_read p (nat (len mod 2 ^ 32)) m))"
proof -
  have "fit_image_verify H m fit img"
    using assms by (simp add: fit_all_image_verify_children list_all_iff)
  then obtain p len where "fit_image_get_data m fit img = Some (p, len)"
    "fit_image_verify_with_data H m fit img (p, len)"
    by (auto simp: fit_image_verify_def split: option.splits)
  then show ?thesis
    by (auto simp: fit_image_verify_with_data_def list_all_iff intro: check_hash_matches [simplified])
qed

text \<open>
  A FIT whose images have no hash nodes at all passes the verification, whatever the hash
  functions are and whatever its images hold.
\<close>

theorem unhashed_fit_verifies:
  assumes "0 \<le> fdt_path_offset m fit FIT_IMAGES_PATH"
    and "\<forall>img \<in> set (fdt_subnodes m fit (fdt_path_offset m fit FIT_IMAGES_PATH)).
           fit_image_get_data m fit img \<noteq> None \<and> fdt_subnodes m fit img = []"
  shows "fit_all_image_verify H m fit"
  using assms
  by (force simp: fit_all_image_verify_children list_all_iff fit_image_verify_def fit_image_verify_with_data_def)

text \<open>The FIT of the theory \<open>Fdt\<close> is such an image.\<close>

lemma sample_fit_tags':
  "fdt_next_tag sample_fit_ram 0 92 = (2, 96)" "fdt_next_tag sample_fit_ram 0 96 = (2, 100)"
  "fdt_next_tag sample_fit_ram 0 100 = (2, 104)" "fdt_next_tag sample_fit_ram 0 104 = (9, 108)"
  by (simp_all add: fdt_next_tag_def fdt_offset_ptr_def sample_fit_fields Let_def fdt32_at_bytes sample_fit_at
      fdt_tag_end_def fdt_tags FDT_TAGALIGN_def sample_fit_def)

lemmas sample_fit_walk = fdt_next_node_def fdt_check_node_offset_def fdt_check_tag_offset_def fdt_node_loop.simps
  sample_fit_tags sample_fit_tags' fdt_tags

lemma sample_fit_children:
  "fdt_subnodes sample_fit_ram 0 8 = [20, 56]" "fdt_subnodes sample_fit_ram 0 20 = []"
  "fdt_subnodes sample_fit_ram 0 56 = []"
  by (simp_all add: fdt_subnodes_def fdt_first_subnode_def fdt_next_subnode_def subnodes_from.simps
      next_subnode_loop.simps sample_fit_walk FDT_ERR_NOTFOUND_def)

lemma sample_fit_strings:
  "\<not> fdt_string_eq sample_fit_ram 0 0 (str_bytes ''data-position'')"
  "\<not> fdt_string_eq sample_fit_ram 0 0 (str_bytes ''data-offset'')"
proof -
  have "fdt_get_string sample_fit_ram 0 0 = Inr (164, 4)"
    by (simp add: fdt_get_string_def sample_fit_probe sample_fit_fields Let_def memchr0_numeral
      sample_fit_at sample_fit_def)
  then show "\<not> fdt_string_eq sample_fit_ram 0 0 (str_bytes ''data-position'')"
    "\<not> fdt_string_eq sample_fit_ram 0 0 (str_bytes ''data-offset'')"
    by (simp_all add: fdt_string_eq_def str_bytes_def)
qed

lemma sample_fit_get_data:
  "fit_image_get_data sample_fit_ram 0 20 = Some (104, 4)" "fit_image_get_data sample_fit_ram 0 56 = Some (144, 4)"
  by (simp_all add: fit_image_get_data_def external_offset_def fit_image_get_data_position_def
      fit_image_get_data_offset_def fit_get_int_def fit_image_get_emb_data_def sample_fit_data
      fdt_getprop_def fdt_first_property_offset_def nextprop.simps fdt_get_property_loop.simps
      fdt_get_property_by_offset_def fdt_check_prop_offset_def fdt_check_node_offset_def fdt_check_tag_offset_def
      as_int32_def fdt_tags sample_fit_tags sample_fit_tags' sample_fit_fields fdt32_at_bytes sample_fit_at
      sample_fit_def sample_fit_strings fdt_next_property_offset_def FDT_ERR_NOTFOUND_def sample_fit_string)

theorem unhashed_fit_verifies_witness: "fit_all_image_verify (\<lambda>_ _. []) sample_fit_ram 0"
  by (rule unhashed_fit_verifies)
    (simp_all add: FIT_IMAGES_PATH_def sample_fit_nodes sample_fit_children sample_fit_get_data)

section \<open>A FIT with external data\<close>

text \<open>
  A FIT with one image that has a hash and whose data is external: it is said to be 4096 bytes behind
  the start of the FIT, while the FIT has 247 bytes.  In RAM it is the kernel of a tar container that
  starts 512 bytes in front of it and also holds a root file system, with the bytes \<open>t\<close> behind it.
\<close>

definition ext_fit :: bytes where
  "ext_fit =
    [0xd0, 0xd, 0xfe, 0xed, 0, 0, 0, 0xf7, 0, 0, 0, 0x38, 0, 0, 0, 0xc8,
     0, 0, 0, 0x28, 0, 0, 0, 0x11, 0, 0, 0, 0x10, 0, 0, 0, 0,
     0, 0, 0, 0x2f, 0, 0, 0, 0x90, 0, 0, 0, 0, 0, 0, 0, 0,
     0, 0, 0, 0, 0, 0, 0, 0, 0, 0, 0, 1, 0, 0, 0, 0,
     0, 0, 0, 3, 0, 0, 0, 2, 0, 0, 0, 0, 0x75, 0, 0, 0,
     0, 0, 0, 1, 0x69, 0x6d, 0x61, 0x67, 0x65, 0x73, 0, 0, 0, 0, 0, 1,
     0x6b, 0, 0, 0, 0, 0, 0, 3, 0, 0, 0, 4, 0, 0, 0, 0xc,
     0, 0, 0x10, 0, 0, 0, 0, 3, 0, 0, 0, 4, 0, 0, 0, 0x1a,
     0, 0, 0, 4, 0, 0, 0, 1, 0x68, 0x61, 0x73, 0x68, 0, 0, 0, 0,
     0, 0, 0, 3, 0, 0, 0, 6, 0, 0, 0, 0x24, 0x63, 0x72, 0x63, 0x33,
     0x32, 0, 0, 0, 0, 0, 0, 3, 0, 0, 0, 4, 0, 0, 0, 0x29,
     0xde, 0xad, 0xbe, 0xef, 0, 0, 0, 2, 0, 0, 0, 2, 0, 0, 0, 2,
     0, 0, 0, 2, 0, 0, 0, 9, 0x64, 0x65, 0x73, 0x63, 0x72, 0x69, 0x70, 0x74,
     0x69, 0x6f, 0x6e, 0, 0x64, 0x61, 0x74, 0x61, 0x2d, 0x70, 0x6f, 0x73, 0x69, 0x74, 0x69, 0x6f,
     0x6e, 0, 0x64, 0x61, 0x74, 0x61, 0x2d, 0x73, 0x69, 0x7a, 0x65, 0, 0x61, 0x6c, 0x67, 0x6f,
     0, 0x76, 0x61, 0x6c, 0x75, 0x65, 0]"

definition ext_fit_ram :: "bytes \<Rightarrow> ram" where
  "ext_fit_ram t =
     mem_write 0x90000000 ext_fit (mem_write 0x90001000 (replicate 4 0)
       (mem_write 0x8ffffe00 (str_bytes ''a/kernel'') (mem_write 0x8ffffe7c (str_bytes ''367'')
       (mem_write 0x8fffff01 (str_bytes ''ustar'') (mem_write 0x90000200 (str_bytes ''a/root'')
       (mem_write 0x9000027c (str_bytes ''4'') (mem_write 0x90000301 (str_bytes ''ustar'')
       (mem_write 0x90000400 (str_bytes ''hsqs'') (mem_write 0x90000404 t (\<lambda>_. 0))))))))))"

definition ext_hash :: hash_functions where
  "ext_hash name data = (if name = ''crc32'' \<and> data = [0, 0, 0, 0] then [0xde, 0xad, 0xbe, 0xef] else [])"

lemma length_ext_fit: "length ext_fit = 247"
  by (simp add: ext_fit_def)

lemma ext_fit_at:
  "0x90000000 \<le> k \<Longrightarrow> k < 0x900000f7 \<Longrightarrow> (ext_fit_ram t) k = ext_fit ! (k - 0x90000000)"
  "0x90001000 \<le> k \<Longrightarrow> k < 0x90001004 \<Longrightarrow> (ext_fit_ram t) k = 0"
  by (simp_all add: ext_fit_ram_def mem_write_def length_ext_fit str_bytes_def)

lemma ext_fit_read: "mem_read 0x90000000 40 (ext_fit_ram t) = take 40 ext_fit"
proof (rule nth_equalityI)
  fix i assume "i < length (mem_read 0x90000000 40 (ext_fit_ram t))"
  then have "i < 40" by simp
  then have "mem_read 0x90000000 40 (ext_fit_ram t) ! i = (ext_fit_ram t) (0x90000000 + i)"
    unfolding mem_read_def by (subst nth_map) (simp_all del: upt_rec_numeral)
  then show "mem_read 0x90000000 40 (ext_fit_ram t) ! i = take 40 ext_fit ! i"
    using \<open>i < 40\<close> by (simp add: ext_fit_at)
qed (simp add: length_ext_fit)

lemma ext_fit_fields:
  "fdt_hdr fdt_totalsize (ext_fit_ram t) 0x90000000 = 247" "fdt_hdr fdt_off_dt_struct (ext_fit_ram t) 0x90000000 = 56"
  "fdt_hdr fdt_version (ext_fit_ram t) 0x90000000 = 17" "fdt_hdr fdt_size_dt_struct (ext_fit_ram t) 0x90000000 = 144"
  "fdt_hdr fdt_off_dt_strings (ext_fit_ram t) 0x90000000 = 200" "fdt_hdr fdt_size_dt_strings (ext_fit_ram t) 0x90000000 = 47"
  "fdt_hdr fdt_magic (ext_fit_ram t) 0x90000000 = FDT_MAGIC" "fdt_hdr fdt_last_comp_version (ext_fit_ram t) 0x90000000 = 16"
  "fdt_hdr fdt_off_mem_rsvmap (ext_fit_ram t) 0x90000000 = 40"
  by (simp_all add: fdt_hdr_def ext_fit_read FDT_V17_SIZE_def ext_fit_def fdt_totalsize_def
      fdt_off_dt_struct_def fdt_version_def fdt_size_dt_struct_def fdt_off_dt_strings_def fdt_size_dt_strings_def
      fdt_magic_def fdt_last_comp_version_def fdt_off_mem_rsvmap_def be_get_def slice_def FDT_MAGIC_def)

lemma ext_fit_header: "fdt_check_header 0x90000000 (mem_read 0x90000000 FDT_V17_SIZE (ext_fit_ram t)) = 0"
  by (simp add: ext_fit_read FDT_V17_SIZE_def ext_fit_def fdt_check_header_def Let_def
      fdt_magic_def fdt_totalsize_def fdt_off_dt_struct_def fdt_off_dt_strings_def fdt_off_mem_rsvmap_def
      fdt_version_def fdt_last_comp_version_def fdt_size_dt_strings_def fdt_size_dt_struct_def be_get_def slice_def
      fdt_header_size_def check_off_def check_block_def FDT_MAGIC_def FDT_FIRST_SUPPORTED_VERSION_def
      FDT_LAST_SUPPORTED_VERSION_def)

lemma ext_fit_probe: "fdt_ro_probe (ext_fit_ram t) 0x90000000 = 247"
  by (simp add: fdt_ro_probe_def ext_fit_fields FDT_FIRST_SUPPORTED_VERSION_def FDT_LAST_SUPPORTED_VERSION_def)

lemma ext_fit_tags:
  "fdt_next_tag (ext_fit_ram t) 0x90000000 0 = (1, 8)" "fdt_next_tag (ext_fit_ram t) 0x90000000 8 = (3, 24)"
  "fdt_next_tag (ext_fit_ram t) 0x90000000 24 = (1, 36)" "fdt_next_tag (ext_fit_ram t) 0x90000000 36 = (1, 44)"
  "fdt_next_tag (ext_fit_ram t) 0x90000000 44 = (3, 60)" "fdt_next_tag (ext_fit_ram t) 0x90000000 60 = (3, 76)"
  "fdt_next_tag (ext_fit_ram t) 0x90000000 76 = (1, 88)" "fdt_next_tag (ext_fit_ram t) 0x90000000 88 = (3, 108)"
  "fdt_next_tag (ext_fit_ram t) 0x90000000 108 = (3, 124)" "fdt_next_tag (ext_fit_ram t) 0x90000000 124 = (2, 128)"
  "fdt_next_tag (ext_fit_ram t) 0x90000000 128 = (2, 132)" "fdt_next_tag (ext_fit_ram t) 0x90000000 132 = (2, 136)"
  "fdt_next_tag (ext_fit_ram t) 0x90000000 136 = (2, 140)" "fdt_next_tag (ext_fit_ram t) 0x90000000 140 = (9, 144)"
  by (simp_all add: fdt_next_tag_def fdt_offset_ptr_def ext_fit_fields Let_def fdt32_at_bytes ext_fit_at
      fdt_tag_end_def fdt_tags FDT_TAGALIGN_def fdt_skip_name.simps ext_fit_def)

lemma ext_fit_get_string:
  "fdt_get_string (ext_fit_ram t) 0x90000000 0 = Inr (0x90000000 + 200, 11)"
  "fdt_get_string (ext_fit_ram t) 0x90000000 12 = Inr (0x90000000 + 212, 13)"
  "fdt_get_string (ext_fit_ram t) 0x90000000 26 = Inr (0x90000000 + 226, 9)"
  "fdt_get_string (ext_fit_ram t) 0x90000000 36 = Inr (0x90000000 + 236, 4)"
  "fdt_get_string (ext_fit_ram t) 0x90000000 41 = Inr (0x90000000 + 241, 5)"
  by (simp_all add: fdt_get_string_def ext_fit_probe ext_fit_fields Let_def memchr0_numeral ext_fit_at ext_fit_def)

lemma ext_fit_string_eq:
  "fdt_string_eq (ext_fit_ram t) 0x90000000 0 s \<longleftrightarrow> s = str_bytes ''description''"
  "fdt_string_eq (ext_fit_ram t) 0x90000000 12 s \<longleftrightarrow> s = str_bytes ''data-position''"
  "fdt_string_eq (ext_fit_ram t) 0x90000000 26 s \<longleftrightarrow> s = str_bytes ''data-size''"
  "fdt_string_eq (ext_fit_ram t) 0x90000000 36 s \<longleftrightarrow> s = str_bytes ''algo''"
  "fdt_string_eq (ext_fit_ram t) 0x90000000 41 s \<longleftrightarrow> s = str_bytes ''value''"
proof -
  have eq: "(n = length s \<and> mem_str_at m p s) \<longleftrightarrow> s = mem_read p n m" for n p m and s :: bytes
    by (auto simp: mem_str_at_def)
  show "fdt_string_eq (ext_fit_ram t) 0x90000000 0 s \<longleftrightarrow> s = str_bytes ''description''"
    "fdt_string_eq (ext_fit_ram t) 0x90000000 12 s \<longleftrightarrow> s = str_bytes ''data-position''"
    "fdt_string_eq (ext_fit_ram t) 0x90000000 26 s \<longleftrightarrow> s = str_bytes ''data-size''"
    "fdt_string_eq (ext_fit_ram t) 0x90000000 36 s \<longleftrightarrow> s = str_bytes ''algo''"
    "fdt_string_eq (ext_fit_ram t) 0x90000000 41 s \<longleftrightarrow> s = str_bytes ''value''"
    by (simp_all only: fdt_string_eq_def ext_fit_get_string sum.case prod.case eq)
      (simp_all add: mem_read_def upt_conv_Cons ext_fit_at ext_fit_def str_bytes_def)
qed

lemma ext_fit_names:
  "fdt_get_name (ext_fit_ram t) 0x90000000 0 = Inr (0x90000000 + 60, 0)"
  "fdt_get_name (ext_fit_ram t) 0x90000000 24 = Inr (0x90000000 + 84, 6)"
  "fdt_get_name (ext_fit_ram t) 0x90000000 36 = Inr (0x90000000 + 96, 1)"
  "fdt_get_name (ext_fit_ram t) 0x90000000 76 = Inr (0x90000000 + 136, 4)"
  by (simp_all add: fdt_get_name_def ext_fit_probe fdt_check_node_offset_def fdt_check_tag_offset_def ext_fit_tags
      fdt_tags fdt_skip_name.simps fdt_offset_ptr_def ext_fit_fields ext_fit_at ext_fit_def Let_def)

lemma ext_fit_props:
  "fdt_getprop (ext_fit_ram t) 0x90000000 0 (str_bytes ''description'') = Inr (0x90000000 + 76, 2)"
  "fdt_getprop (ext_fit_ram t) 0x90000000 36 (str_bytes ''data-position'') = Inr (0x90000000 + 112, 4)"
  "fdt_getprop (ext_fit_ram t) 0x90000000 36 (str_bytes ''data-size'') = Inr (0x90000000 + 128, 4)"
  "fdt_getprop (ext_fit_ram t) 0x90000000 76 (str_bytes ''algo'') = Inr (0x90000000 + 156, 6)"
  "fdt_getprop (ext_fit_ram t) 0x90000000 76 (str_bytes ''value'') = Inr (0x90000000 + 176, 4)"
  "fdt_getprop (ext_fit_ram t) 0x90000000 76 (str_bytes ''uboot-ignore'') = Inl (- FDT_ERR_NOTFOUND)"
  by (simp_all add: fdt_getprop_def fdt_first_property_offset_def nextprop.simps fdt_get_property_loop.simps
      fdt_get_property_by_offset_def fdt_check_prop_offset_def fdt_check_node_offset_def fdt_check_tag_offset_def
      as_int32_def fdt_tags ext_fit_tags ext_fit_fields fdt32_at_bytes ext_fit_at ext_fit_def
      fdt_next_property_offset_def FDT_ERR_NOTFOUND_def ext_fit_string_eq str_bytes_def)

lemma ext_fit_images: "fdt_path_offset (ext_fit_ram t) 0x90000000 FIT_IMAGES_PATH = 24"
  by (simp add: fdt_path_offset_def FIT_IMAGES_PATH_def fdt_subnode_offset_def ext_fit_probe fdt_subnode_loop.simps
      fdt_next_node_def fdt_check_node_offset_def fdt_check_tag_offset_def fdt_node_loop.simps ext_fit_tags
      fdt_tags fdt_nodename_eq_def ext_fit_names mem_str_at_def mem_read_def upt_conv_Cons ext_fit_at ext_fit_def
      str_bytes_def)

lemma ext_fit_children:
  "fdt_subnodes (ext_fit_ram t) 0x90000000 24 = [36]" "fdt_subnodes (ext_fit_ram t) 0x90000000 36 = [76]"
  by (simp_all add: fdt_subnodes_def fdt_first_subnode_def fdt_next_subnode_def subnodes_from.simps
      next_subnode_loop.simps fdt_next_node_def fdt_check_node_offset_def fdt_check_tag_offset_def
      fdt_node_loop.simps ext_fit_tags fdt_tags FDT_ERR_NOTFOUND_def)

lemma ext_fit_data: "fit_image_get_data (ext_fit_ram t) 0x90000000 36 = Some (0x90001000, 4)"
  by (simp add: fit_image_get_data_def external_offset_def fit_image_get_data_position_def
      fit_image_get_data_size_def fit_get_int_def ext_fit_props as_int32_def fdt32_at_bytes ext_fit_at ext_fit_def)

lemma ext_fit_hash:
  "is_hash_node (ext_fit_ram t) 0x90000000 76" "\<not> fit_image_hash_get_ignore (ext_fit_ram t) 0x90000000 76"
  "fit_image_check_hash ext_hash (ext_fit_ram t) 0x90000000 76 (0x90001000, 4)"
proof -
  show "is_hash_node (ext_fit_ram t) 0x90000000 76"
    by (simp add: is_hash_node_def ext_fit_names mem_read_def upt_conv_Cons ext_fit_at ext_fit_def str_bytes_def)
  show ig: "\<not> fit_image_hash_get_ignore (ext_fit_ram t) 0x90000000 76"
    by (simp add: fit_image_hash_get_ignore_def ext_fit_props)
  have "hash_lookup_algo (ext_fit_ram t) (0x90000000 + 156) = Some (''crc32'', 4)"
    by (simp add: hash_lookup_algo_def hash_algo_def ram_strcmp_def mem_read_def upt_conv_Cons ext_fit_at
        ext_fit_def str_bytes_def)
  moreover have "mem_read 0x90001000 4 (ext_fit_ram t) = [0, 0, 0, 0]"
    "mem_read (0x90000000 + 176) 4 (ext_fit_ram t) = [0xde, 0xad, 0xbe, 0xef]"
    by (simp_all add: mem_read_def upt_conv_Cons ext_fit_at ext_fit_def)
  ultimately show "fit_image_check_hash ext_hash (ext_fit_ram t) 0x90000000 76 (0x90001000, 4)"
    using ig by (simp add: fit_image_check_hash_def ext_fit_props calculate_hash_def ext_hash_def)
qed

lemma ext_fit_rsv: "fdt_num_mem_rsv (ext_fit_ram t) 0x90000000 = 0"
  by (simp add: fdt_num_mem_rsv_def num_mem_rsv_loop.simps ext_fit_fields mem_read_def upt_conv_Cons ext_fit_at
      ext_fit_def)

lemma ext_fit_loop: "check_full_loop (ext_fit_ram t) 0x90000000 0 0 False = 0"
  by (simp add: check_full_loop.simps ext_fit_tags fdt_tags root_named_def ext_fit_names getprop_by_offset_err_def
      fdt_get_property_by_offset_def fdt_check_prop_offset_def fdt_check_tag_offset_def ext_fit_fields
      fdt32_at_bytes as_int32_def ext_fit_get_string ext_fit_at ext_fit_def)

lemma ext_fit_full: "fdt_check_full (ext_fit_ram t) 0x90000000 247 = 0"
  by (simp add: fdt_check_full_def ext_fit_header ext_fit_fields FDT_V1_SIZE_def ext_fit_rsv ext_fit_loop)

lemma ext_fit_format: "fit_check_format (ext_fit_ram t) 0x90000000 247 = 0"
  by (simp add: fit_check_format_def ext_fit_header ext_fit_full ext_fit_props ext_fit_images)

lemma ext_fit_verifies: "fit_all_image_verify ext_hash (ext_fit_ram t) 0x90000000"
  by (simp add: fit_all_image_verify_children ext_fit_images ext_fit_children fit_image_verify_def ext_fit_data
      fit_image_verify_with_data_def ext_fit_hash)

theorem fit_verify_sound_witness:
  "\<exists>p len. fit_image_get_data (ext_fit_ram []) 0x90000000 36 = Some (p, len)
    \<and> (\<forall>h \<in> set (fdt_subnodes (ext_fit_ram []) 0x90000000 36). is_hash_node (ext_fit_ram []) 0x90000000 h \<longrightarrow>
          \<not> fit_image_hash_get_ignore (ext_fit_ram []) 0x90000000 h \<longrightarrow>
          hash_matches ext_hash (ext_fit_ram []) 0x90000000 h (mem_read p (nat (len mod 2 ^ 32)) (ext_fit_ram [])))"
  by (rule fit_verify_sound [OF ext_fit_verifies]) (simp add: ext_fit_images ext_fit_children)

end
