(* ===== verification/Crc32.thy ===== *)
theory Crc32
  imports Ursus_Prelude
begin

text \<open>
  The checksum of the stock environment (\<open>lib/crc32.c\<close>).  The file has three implementations, chosen
  by the configuration: the CPU instruction (the one of this board), a table computed at start, and a
  table written out in the source, the last two with a loop that takes four bytes at a time.  All
  three are modelled, and they are the same function.
\<close>

section \<open>The tables\<close>

definition crc_terms :: "nat list" where
  "crc_terms = [0, 1, 2, 4, 5, 7, 8, 10, 11, 12, 16, 22, 23, 26]"

definition crc_poly :: "32 word" where
  "crc_poly = fold (\<lambda>p poly. poly OR push_bit (31 - p) 1) crc_terms 0"

definition crc_round :: "32 word \<Rightarrow> 32 word" where
  "crc_round c = (if c AND 1 \<noteq> 0 then crc_poly XOR drop_bit 1 c else drop_bit 1 c)"

definition crc_rounds :: "32 word \<Rightarrow> 32 word" where
  "crc_rounds c = (crc_round ^^ 8) c"

definition make_crc_table :: "32 word list" where
  "make_crc_table = map (\<lambda>n. crc_rounds (of_nat n)) [0..<256]"

definition crc_table :: "32 word list" where
  "crc_table =
     [0x00000000, 0x77073096, 0xee0e612c, 0x990951ba, 0x076dc419, 0x706af48f, 0xe963a535, 0x9e6495a3,
      0x0edb8832, 0x79dcb8a4, 0xe0d5e91e, 0x97d2d988, 0x09b64c2b, 0x7eb17cbd, 0xe7b82d07, 0x90bf1d91,
      0x1db71064, 0x6ab020f2, 0xf3b97148, 0x84be41de, 0x1adad47d, 0x6ddde4eb, 0xf4d4b551, 0x83d385c7,
      0x136c9856, 0x646ba8c0, 0xfd62f97a, 0x8a65c9ec, 0x14015c4f, 0x63066cd9, 0xfa0f3d63, 0x8d080df5,
      0x3b6e20c8, 0x4c69105e, 0xd56041e4, 0xa2677172, 0x3c03e4d1, 0x4b04d447, 0xd20d85fd, 0xa50ab56b,
      0x35b5a8fa, 0x42b2986c, 0xdbbbc9d6, 0xacbcf940, 0x32d86ce3, 0x45df5c75, 0xdcd60dcf, 0xabd13d59,
      0x26d930ac, 0x51de003a, 0xc8d75180, 0xbfd06116, 0x21b4f4b5, 0x56b3c423, 0xcfba9599, 0xb8bda50f,
      0x2802b89e, 0x5f058808, 0xc60cd9b2, 0xb10be924, 0x2f6f7c87, 0x58684c11, 0xc1611dab, 0xb6662d3d,
      0x76dc4190, 0x01db7106, 0x98d220bc, 0xefd5102a, 0x71b18589, 0x06b6b51f, 0x9fbfe4a5, 0xe8b8d433,
      0x7807c9a2, 0x0f00f934, 0x9609a88e, 0xe10e9818, 0x7f6a0dbb, 0x086d3d2d, 0x91646c97, 0xe6635c01,
      0x6b6b51f4, 0x1c6c6162, 0x856530d8, 0xf262004e, 0x6c0695ed, 0x1b01a57b, 0x8208f4c1, 0xf50fc457,
      0x65b0d9c6, 0x12b7e950, 0x8bbeb8ea, 0xfcb9887c, 0x62dd1ddf, 0x15da2d49, 0x8cd37cf3, 0xfbd44c65,
      0x4db26158, 0x3ab551ce, 0xa3bc0074, 0xd4bb30e2, 0x4adfa541, 0x3dd895d7, 0xa4d1c46d, 0xd3d6f4fb,
      0x4369e96a, 0x346ed9fc, 0xad678846, 0xda60b8d0, 0x44042d73, 0x33031de5, 0xaa0a4c5f, 0xdd0d7cc9,
      0x5005713c, 0x270241aa, 0xbe0b1010, 0xc90c2086, 0x5768b525, 0x206f85b3, 0xb966d409, 0xce61e49f,
      0x5edef90e, 0x29d9c998, 0xb0d09822, 0xc7d7a8b4, 0x59b33d17, 0x2eb40d81, 0xb7bd5c3b, 0xc0ba6cad,
      0xedb88320, 0x9abfb3b6, 0x03b6e20c, 0x74b1d29a, 0xead54739, 0x9dd277af, 0x04db2615, 0x73dc1683,
      0xe3630b12, 0x94643b84, 0x0d6d6a3e, 0x7a6a5aa8, 0xe40ecf0b, 0x9309ff9d, 0x0a00ae27, 0x7d079eb1,
      0xf00f9344, 0x8708a3d2, 0x1e01f268, 0x6906c2fe, 0xf762575d, 0x806567cb, 0x196c3671, 0x6e6b06e7,
      0xfed41b76, 0x89d32be0, 0x10da7a5a, 0x67dd4acc, 0xf9b9df6f, 0x8ebeeff9, 0x17b7be43, 0x60b08ed5,
      0xd6d6a3e8, 0xa1d1937e, 0x38d8c2c4, 0x4fdff252, 0xd1bb67f1, 0xa6bc5767, 0x3fb506dd, 0x48b2364b,
      0xd80d2bda, 0xaf0a1b4c, 0x36034af6, 0x41047a60, 0xdf60efc3, 0xa867df55, 0x316e8eef, 0x4669be79,
      0xcb61b38c, 0xbc66831a, 0x256fd2a0, 0x5268e236, 0xcc0c7795, 0xbb0b4703, 0x220216b9, 0x5505262f,
      0xc5ba3bbe, 0xb2bd0b28, 0x2bb45a92, 0x5cb36a04, 0xc2d7ffa7, 0xb5d0cf31, 0x2cd99e8b, 0x5bdeae1d,
      0x9b64c2b0, 0xec63f226, 0x756aa39c, 0x026d930a, 0x9c0906a9, 0xeb0e363f, 0x72076785, 0x05005713,
      0x95bf4a82, 0xe2b87a14, 0x7bb12bae, 0x0cb61b38, 0x92d28e9b, 0xe5d5be0d, 0x7cdcefb7, 0x0bdbdf21,
      0x86d3d2d4, 0xf1d4e242, 0x68ddb3f8, 0x1fda836e, 0x81be16cd, 0xf6b9265b, 0x6fb077e1, 0x18b74777,
      0x88085ae6, 0xff0f6a70, 0x66063bca, 0x11010b5c, 0x8f659eff, 0xf862ae69, 0x616bffd3, 0x166ccf45,
      0xa00ae278, 0xd70dd2ee, 0x4e048354, 0x3903b3c2, 0xa7672661, 0xd06016f7, 0x4969474d, 0x3e6e77db,
      0xaed16a4a, 0xd9d65adc, 0x40df0b66, 0x37d83bf0, 0xa9bcae53, 0xdebb9ec5, 0x47b2cf7f, 0x30b5ffe9,
      0xbdbdf21c, 0xcabac28a, 0x53b39330, 0x24b4a3a6, 0xbad03605, 0xcdd70693, 0x54de5729, 0x23d967bf,
      0xb3667a2e, 0xc4614ab8, 0x5d681b02, 0x2a6f2b94, 0xb40bbe37, 0xc30c8ea1, 0x5a05df1b, 0x2d02ef8d]"

section \<open>The loops\<close>

text \<open>One byte through a table.\<close>

definition DO_CRC :: "32 word list \<Rightarrow> 32 word \<Rightarrow> 32 word \<Rightarrow> 32 word" where
  "DO_CRC tab x crc = tab ! unat ((crc XOR x) AND 255) XOR drop_bit 8 crc"

definition crc_bytes :: "32 word list \<Rightarrow> bytes \<Rightarrow> 32 word \<Rightarrow> 32 word" where
  "crc_bytes tab bs crc = fold (\<lambda>b. DO_CRC tab (ucast b)) bs crc"

text \<open>A 32-bit load of four bytes, least significant first.\<close>

definition load32 :: "bytes \<Rightarrow> 32 word" where
  "load32 bs = of_nat (le_nat (take 4 bs))"

fun crc_words :: "32 word list \<Rightarrow> nat \<Rightarrow> bytes \<Rightarrow> 32 word \<Rightarrow> 32 word" where
  "crc_words tab 0 bs crc = crc_bytes tab bs crc"
| "crc_words tab (Suc n) bs crc =
     crc_words tab n (drop 4 bs) ((DO_CRC tab 0 ^^ 4) (crc XOR load32 bs))"

text \<open>
  The table version for a buffer at an address: bytes up to the next aligned address, then words,
  then what is left.
\<close>

definition crc32_no_comp_tab :: "32 word list \<Rightarrow> nat \<Rightarrow> bytes \<Rightarrow> 32 word \<Rightarrow> 32 word" where
  "crc32_no_comp_tab tab addr buf crc =
     (let lead = min (length buf) ((4 - addr mod 4) mod 4);
          rest = drop lead buf
      in crc_words tab (length rest div 4) rest (crc_bytes tab (take lead buf) crc))"

text \<open>The instruction: a byte is added and shifted out bit by bit.\<close>

definition crc32b :: "8 word \<Rightarrow> 32 word \<Rightarrow> 32 word" where
  "crc32b b crc = crc_rounds (crc XOR ucast b)"

definition crc32_no_comp :: "bytes \<Rightarrow> 32 word \<Rightarrow> 32 word" where
  "crc32_no_comp buf crc = fold crc32b buf crc"

definition crc32 :: "32 word \<Rightarrow> bytes \<Rightarrow> 32 word" where
  "crc32 crc buf = crc32_no_comp buf (crc XOR 0xffffffff) XOR 0xffffffff"

section \<open>Equivalence\<close>

lemma crc_poly_value: "crc_poly = 0xedb88320"
  by code_simp

lemma funpow_8: "(f ^^ 8) x = f (f (f (f (f (f (f (f x)))))))"
  by (simp add: eval_nat_numeral)

lemma crc_round_numeral:
  "crc_round (numeral n) =
     (if numeral n AND (1 :: 32 word) \<noteq> 0 then 0xedb88320 XOR drop_bit 1 (numeral n) else drop_bit 1 (numeral n))"
  by (simp add: crc_round_def crc_poly_value)

lemma crc_round_0_1: "crc_round 0 = 0" "crc_round 1 = 0xedb88320"
  by (simp_all add: crc_round_def crc_poly_value)

lemma crc_rounds_numeral:
  "crc_rounds (numeral n) =
     crc_round (crc_round (crc_round (crc_round (crc_round (crc_round (crc_round (crc_round (numeral n))))))))"
  by (simp only: crc_rounds_def funpow_8)

lemma crc_rounds_0_1: "crc_rounds 0 = 0" "crc_rounds 1 = 0x77073096"
  by (simp_all add: crc_rounds_def funpow_8 crc_round_0_1 crc_round_numeral)

lemma crc_table_generated: "make_crc_table = crc_table"
  by (simp add: make_crc_table_def crc_table_def upt_conv_Cons numeral_2_eq_2 [symmetric]
      crc_rounds_numeral crc_rounds_0_1 crc_round_numeral crc_round_0_1)

text \<open>Shifting out \<open>k\<close> bits acts on the lower bits alone; the upper ones move down.\<close>

lemma crc_round_xor_even: "\<not> bit v 0 \<Longrightarrow> crc_round (u XOR v) = crc_round u XOR drop_bit 1 v"
  by (auto simp: crc_round_def and_one_eq mod_2_eq_odd bit_0 even_xor_iff xor.assoc drop_bit_xor)

lemma crc_rounds_xor_high:
  "take_bit k v = 0 \<Longrightarrow> (crc_round ^^ k) (u XOR v) = (crc_round ^^ k) u XOR drop_bit k v"
proof (induction k arbitrary: u v)
  case (Suc k)
  have "\<not> bit v 0"
    using arg_cong [OF Suc.prems, of "\<lambda>x. bit x 0"] by (simp add: bit_take_bit_iff)
  moreover have "take_bit k (drop_bit 1 v) = 0"
    using Suc.prems by (simp add: take_bit_drop_bit)
  ultimately show ?case
    using Suc.IH [of "drop_bit 1 v" "crc_round u"] crc_round_xor_even [of v u]
    by (simp add: funpow_swap1 [symmetric] funpow_Suc_right del: funpow.simps)
qed simp

lemma and_255: "(x AND 255 :: 32 word) = take_bit 8 x"
  by (simp add: take_bit_eq_mask mask_eq_exp_minus_1)

lemma unat_and_255: "unat (x AND 255 :: 32 word) < 256"
  unfolding and_255 using take_bit_nat_less_exp [of 8 "unat x"] by (simp add: unsigned_take_bit_eq)

lemma crc_rounds_split: "crc_rounds x = crc_rounds (x AND 255) XOR drop_bit 8 x"
proof -
  have x: "x = (x AND 255) XOR push_bit 8 (drop_bit 8 x)"
    by (rule bit_word_eqI) (auto simp: and_255 bit_simps)
  have "take_bit 8 (push_bit 8 (drop_bit 8 x)) = 0"
    by (rule bit_word_eqI) (auto simp: bit_simps)
  moreover have "drop_bit 8 (push_bit 8 (drop_bit 8 x)) = drop_bit 8 x"
    by (rule bit_word_eqI) (auto simp: bit_simps dest: bit_imp_le_length)
  ultimately show ?thesis
    unfolding crc_rounds_def using crc_rounds_xor_high [of 8 "push_bit 8 (drop_bit 8 x)" "x AND 255"] x by simp
qed

lemma crc32b_table: "crc32b b crc = DO_CRC crc_table (ucast b) crc"
proof -
  have "drop_bit 8 (ucast b :: 32 word) = 0"
    by (rule bit_word_eqI) (auto simp: bit_simps dest: bit_imp_le_length)
  moreover have "crc_table ! unat (x AND 255) = crc_rounds (x AND 255)" for x :: "32 word"
    using unat_and_255 [of x]
    by (simp add: crc_table_generated [symmetric] make_crc_table_def)
  ultimately show ?thesis
    unfolding crc32b_def DO_CRC_def by (subst crc_rounds_split) (simp add: drop_bit_xor)
qed

lemma DO_CRC_shift: "DO_CRC tab 0 (c XOR w) = DO_CRC tab (w AND 255) c XOR drop_bit 8 w"
proof -
  have "(c XOR w) AND 255 = (c XOR w AND 255) AND 255"
    by (rule bit_word_eqI) (auto simp: bit_simps and_255)
  then show ?thesis
    by (simp add: DO_CRC_def drop_bit_xor xor.assoc)
qed

lemma load_Cons:
  assumes "length bs < 4"
  shows "of_nat (le_nat (b # bs)) AND (255 :: 32 word) = ucast b"
    and "drop_bit 8 (of_nat (le_nat (b # bs)) :: 32 word) = of_nat (le_nat bs)"
proof -
  define n where "n = le_nat (b # bs)"
  have b: "unat b < 256" using unsigned_less [of b] by simp
  then have n: "n mod 256 = unat b" "n div 256 = le_nat bs" by (simp_all add: n_def)
  have "n < 256 ^ Suc (length bs)" using le_nat_bound [of "b # bs"] by (simp add: n_def)
  also have "\<dots> \<le> 256 ^ 4" by (rule power_increasing) (use assms in simp_all)
  finally have small: "n < 2 ^ 32" by simp
  then have u: "unat (of_nat n :: 32 word) = n" by (simp add: unat_of_nat)
  have "unat (take_bit 8 (of_nat n :: 32 word)) = n mod 256"
    by (simp only: unsigned_take_bit_eq u) (simp add: take_bit_eq_mod)
  then have "unat (of_nat n AND (255 :: 32 word)) = unat (ucast b :: 32 word)"
    using n(1) b by (simp add: and_255 unsigned_ucast_eq take_bit_nat_eq_self)
  then show "of_nat (le_nat (b # bs)) AND (255 :: 32 word) = ucast b"
    unfolding n_def by (simp only: word_unat_eq_iff)
  have "unat (drop_bit 8 (of_nat n) :: 32 word) = unat (of_nat (le_nat bs) :: 32 word)"
    using small by (simp only: unat_drop_bit_eq u) (simp add: drop_bit_eq_div unat_of_nat flip: n(2))
  then show "drop_bit 8 (of_nat (le_nat (b # bs)) :: 32 word) = of_nat (le_nat bs)"
    unfolding n_def by (simp only: word_unat_eq_iff)
qed

lemma crc_load:
  "length bs \<le> 4 \<Longrightarrow> (DO_CRC tab 0 ^^ length bs) (c XOR of_nat (le_nat bs)) = crc_bytes tab bs c"
proof (induction bs arbitrary: c)
  case (Cons b bs)
  have "length bs < 4" using Cons.prems by simp
  then have "DO_CRC tab 0 (c XOR of_nat (le_nat (b # bs))) = DO_CRC tab (ucast b) c XOR of_nat (le_nat bs)"
    by (simp only: DO_CRC_shift load_Cons)
  then show ?case
    using Cons by (simp add: crc_bytes_def funpow_Suc_right del: funpow.simps le_nat.simps)
qed (simp add: crc_bytes_def)

lemma crc_bytes_split: "crc_bytes tab (drop k bs) (crc_bytes tab (take k bs) c) = crc_bytes tab bs c"
  unfolding crc_bytes_def by (metis append_take_drop_id comp_apply fold_append)

lemma crc_words_bytes: "4 * n \<le> length bs \<Longrightarrow> crc_words tab n bs c = crc_bytes tab bs c"
proof (induction n arbitrary: bs c)
  case (Suc n)
  have "(DO_CRC tab 0 ^^ 4) (c XOR load32 bs) = crc_bytes tab (take 4 bs) c"
    using crc_load [of "take 4 bs" tab c] Suc.prems by (simp add: load32_def)
  then show ?case
    using Suc by (simp add: crc_bytes_split)
qed simp

text \<open>
  C24: the three implementations of CRC-32 agree: the table written out in the source is the one the
  generator computes, and for every address, buffer and start value the loop over aligned words with
  that table gives what the CPU instruction gives byte by byte.
\<close>

theorem crc32_implementations_agree:
  "make_crc_table = crc_table \<and> crc32_no_comp_tab crc_table addr buf crc = crc32_no_comp buf crc"
proof -
  have "crc_bytes crc_table buf crc = crc32_no_comp buf crc"
    unfolding crc_bytes_def crc32_no_comp_def crc32b_table [abs_def] ..
  moreover have "crc32_no_comp_tab crc_table addr buf crc = crc_bytes crc_table buf crc"
    by (simp add: crc32_no_comp_tab_def crc_words_bytes crc_bytes_split)
  ultimately show ?thesis by (simp add: crc_table_generated)
qed

end
