(* ===== verification/Web_Http.thy ===== *)
theory Web_Http
  imports Env_Text
begin

text \<open>
  The text handling of the recovery server (\<open>cmd/ursusweb.c\<close>): looking up request headers, decoding
  file names, the log buffer and the transcript of console commands.  A C string is the list of its
  characters before the terminating NUL; a buffer that may hold NULs is read through \<open>cstr\<close>.
\<close>

section \<open>Constants\<close>

definition URSUS_HTTP_HDR_MAX :: nat where "URSUS_HTTP_HDR_MAX = 2048"
definition URSUS_GENERATION_MAX :: nat where "URSUS_GENERATION_MAX = 48"
definition URSUS_FILENAME_MAX :: nat where "URSUS_FILENAME_MAX = 192"
definition URSUS_WEB_LOG_MAX :: nat where "URSUS_WEB_LOG_MAX = 16384"
definition URSUS_CONSOLE_MAX :: nat where "URSUS_CONSOLE_MAX = 0x10000"

lemmas http_consts = URSUS_HTTP_HDR_MAX_def URSUS_GENERATION_MAX_def URSUS_FILENAME_MAX_def
  URSUS_WEB_LOG_MAX_def URSUS_CONSOLE_MAX_def

abbreviation NUL :: char where "NUL \<equiv> CHR 0x00"
abbreviation TAB :: char where "TAB \<equiv> CHR 0x09"
abbreviation LF :: char where "LF \<equiv> CHR 0x0A"
abbreviation CR :: char where "CR \<equiv> CHR 0x0D"
abbreviation QUOTE :: char where "QUOTE \<equiv> CHR 0x22"
abbreviation BACKSLASH :: char where "BACKSLASH \<equiv> CHR 0x5C"

definition cstr :: "string \<Rightarrow> string" where
  "cstr s = takeWhile (\<lambda>c. c \<noteq> NUL) s"

section \<open>Request headers\<close>

definition lower :: "string \<Rightarrow> nat list" where
  "lower s = map (\<lambda>c. tolower (of_char c)) s"

text \<open>\<open>strncasecmp(p, name, strlen(name)) == 0\<close>.\<close>

definition strncasecmp_eq :: "string \<Rightarrow> string \<Rightarrow> bool" where
  "strncasecmp_eq p name = (lower (take (length name) p) = lower name)"

definition is_ows :: "char \<Rightarrow> bool" where
  "is_ows c = (c = CHR '' '' \<or> c = TAB)"

definition ursus_skip_ows :: "string \<Rightarrow> string" where
  "ursus_skip_ows p = dropWhile is_ows p"

definition header_here :: "string \<Rightarrow> string \<Rightarrow> bool" where
  "header_here name p =
     (strncasecmp_eq p name \<and> (case drop (length name) p of [] \<Rightarrow> False | c # _ \<Rightarrow> c = CHR '':''))"

text \<open>The text behind the colon of the first line that starts with the name and a colon.\<close>

function header_scan :: "string \<Rightarrow> string \<Rightarrow> string option" where
  "header_scan name p =
     (if p = [] then None
      else if header_here name p
      then Some (tl (drop (length name) p))
      else case dropWhile (\<lambda>c. c \<noteq> LF) p of
             [] \<Rightarrow> None
           | _ # q \<Rightarrow> header_scan name q)"
  by pat_completeness auto

termination header_scan
proof (relation "measure (\<lambda>(_, p). length p)", goal_cases)
  case (2 name p c q)
  then show ?case
    using length_dropWhile_le [of "\<lambda>c. c \<noteq> LF" p] by simp
qed simp

declare header_scan.simps [simp del]

definition trim_end :: "string \<Rightarrow> string" where
  "trim_end s = rev (dropWhile is_ows (rev s))"

definition header_text :: "string \<Rightarrow> string" where
  "header_text v = trim_end (takeWhile (\<lambda>c. c \<noteq> CR \<and> c \<noteq> LF) (ursus_skip_ows v))"

definition ursus_parse_header_value :: "string \<Rightarrow> string \<Rightarrow> nat \<Rightarrow> string option" where
  "ursus_parse_header_value h name out_len =
     (if out_len < 2 then None
      else case header_scan name (cstr h) of
             None \<Rightarrow> None
           | Some v \<Rightarrow>
               let val = header_text v
               in if length val = 0 \<or> length val \<ge> out_len then None else Some val)"

definition ursus_parse_header_ulong :: "string \<Rightarrow> string \<Rightarrow> nat option" where
  "ursus_parse_header_ulong h name =
     (case ursus_parse_header_value h name 32 of
        None \<Rightarrow> None
      | Some tmp \<Rightarrow>
          let (v, end') = simple_strtoul tmp 10
          in if end' = tmp \<or> end' \<noteq> [] then None else Some v)"

definition ursus_parse_content_length :: "string \<Rightarrow> nat" where
  "ursus_parse_content_length h =
     (case ursus_parse_header_ulong h ''Content-Length'' of Some v \<Rightarrow> v | None \<Rightarrow> 0)"

definition selftest_request :: string where
  "selftest_request =
     ''POST /api/firmware-chunk HTTP/1.1'' @ [CR, LF] @ ''Content-Length: 65536'' @ [CR, LF]
     @ ''X-Ursus-Offset: 0'' @ [CR, LF] @ ''X-Ursus-Total:'' @ [TAB] @ ''10518808'' @ [CR, LF, CR, LF]"

definition ursus_header_parser_selftest :: int where
  "ursus_header_parser_selftest =
     (if ursus_parse_header_ulong selftest_request ''Content-Length'' \<noteq> Some 65536
         \<or> ursus_parse_header_ulong selftest_request ''X-Ursus-Offset'' \<noteq> Some 0
         \<or> ursus_parse_header_ulong selftest_request ''X-Ursus-Total'' \<noteq> Some 10518808
      then - EINVAL else 0)"

definition URSUS_REQ_MATCH :: "string \<Rightarrow> string \<Rightarrow> bool" where
  "URSUS_REQ_MATCH req lit = (take (length lit) (cstr req) = lit)"

section \<open>File names and generations\<close>

definition ursus_hex_digit :: "char \<Rightarrow> nat option" where
  "ursus_hex_digit c =
     (let n = of_char c
      in if 48 \<le> n \<and> n \<le> 57 then Some (n - 48)
         else if 97 \<le> n \<and> n \<le> 102 then Some (n - 97 + 10)
         else if 65 \<le> n \<and> n \<le> 70 then Some (n - 65 + 10)
         else None)"

definition unclean :: "char \<Rightarrow> bool" where
  "unclean c = ((of_char c :: nat) < 0x20 \<or> c = CHR 0x7F \<or> c = QUOTE \<or> c = BACKSLASH)"

definition cleaned :: "char \<Rightarrow> char" where
  "cleaned c = (if unclean c then CHR ''_'' else c)"

text \<open>The loop of \<open>ursus_decode_filename\<close>; the number is the room left in the output.\<close>

fun decode_loop :: "nat \<Rightarrow> string \<Rightarrow> string option" where
  "decode_loop room [] = Some []"
| "decode_loop 0 (c # cs) = None"
| "decode_loop (Suc room) (c # cs) =
     (if c = CHR ''%'' \<and> 2 \<le> length cs
      then case (ursus_hex_digit (cs ! 0), ursus_hex_digit (cs ! 1)) of
             (Some hi, Some lo) \<Rightarrow>
               map_option (Cons (cleaned (char_of (16 * hi + lo)))) (decode_loop room (drop 2 cs))
           | _ \<Rightarrow> None
      else map_option (Cons (cleaned c)) (decode_loop room cs))"

definition ursus_decode_filename :: "string \<Rightarrow> nat \<Rightarrow> string option" where
  "ursus_decode_filename encoded out_len =
     (if encoded = [] \<or> out_len < 2 then None
      else case decode_loop (out_len - 1) encoded of
             None \<Rightarrow> None
           | Some out \<Rightarrow> if out \<noteq> [] then Some out else None)"

definition generation_char :: "char \<Rightarrow> bool" where
  "generation_char c =
     (let n = of_char c :: nat
      in 97 \<le> n \<and> n \<le> 122 \<or> 65 \<le> n \<and> n \<le> 90 \<or> 48 \<le> n \<and> n \<le> 57
         \<or> c = CHR ''-'' \<or> c = CHR ''_'' \<or> c = CHR ''.'')"

definition ursus_generation_valid :: "string \<Rightarrow> bool" where
  "ursus_generation_valid g =
     (8 \<le> length g \<and> length g < URSUS_GENERATION_MAX \<and> list_all generation_char g)"

section \<open>The log and the console transcript\<close>

definition log_mark :: string where
  "log_mark = ''[... earlier log truncated ...]'' @ [LF]"

text \<open>One call of \<open>ursus_logf\<close> with the text that the format yields.\<close>

definition log_append :: "string \<Rightarrow> string \<Rightarrow> string" where
  "log_append log text =
     (let line = take 383 (cstr text);
          log = (if length line + length log + 1 \<ge> URSUS_WEB_LOG_MAX then log_mark else log)
      in log @ line)"

text \<open>
  Collecting the recorded console output: NULs are dropped, every recorded line ends with a newline,
  and the result fits its buffer.
\<close>

definition console_line :: "string \<Rightarrow> string \<Rightarrow> string" where
  "console_line body line =
     (let body = body @ take (URSUS_CONSOLE_MAX - 1 - length body) (filter (\<lambda>c. c \<noteq> NUL) line)
      in if body \<noteq> [] \<and> last body \<noteq> LF \<and> length body + 1 < URSUS_CONSOLE_MAX then body @ [LF] else body)"

definition console_collect :: "string list \<Rightarrow> int \<Rightarrow> string" where
  "console_collect recorded r =
     (let body = foldl console_line [] recorded;
          body = (if body = [] then ''[no captured output]'' @ [LF] else body)
      in if length body + 48 < URSUS_CONSOLE_MAX then body @ ''[return='' @ dec_int r @ '']'' @ [LF] else body)"

section \<open>Responses\<close>

definition http_reason :: "int \<Rightarrow> string" where
  "http_reason status =
     (if status = 200 then ''OK'' else if status = 400 then ''Bad Request''
      else if status = 413 then ''Payload Too Large'' else ''Conflict'')"

definition http_header :: "int \<Rightarrow> string \<Rightarrow> nat \<Rightarrow> string" where
  "http_header status ctype body_len =
     ''HTTP/1.1 '' @ dec_int status @ '' '' @ http_reason status @ [CR, LF]
     @ ''Content-Type: '' @ ctype @ [CR, LF] @ ''Cache-Control: no-store'' @ [CR, LF]
     @ ''Connection: close'' @ [CR, LF] @ ''Content-Length: '' @ dec_digits body_len @ [CR, LF, CR, LF]"

section \<open>Looking up headers\<close>

lemma length_lower [simp]: "length (lower s) = length s"
  by (simp add: lower_def)

lemma lower_eq_length: "lower a = lower b \<Longrightarrow> length a = length b"
  by (metis length_lower)

lemma strncasecmp_eq_short: "strncasecmp_eq p name \<Longrightarrow> length name \<le> length p"
  by (auto simp: strncasecmp_eq_def dest: lower_eq_length)

lemma of_char_eq_iff: "of_char c = (of_char d :: nat) \<longleftrightarrow> c = d"
  by (metis char_of_char)

lemma tolower_eq: "\<not> (97 \<le> n \<and> n \<le> 122) \<Longrightarrow> tolower m = n \<Longrightarrow> m = n"
  by (auto simp: tolower_def split: if_splits)

text \<open>A character that is no letter stays what it is.\<close>

lemma lower_in_set:
  assumes "lower a = lower b" "c \<in> set a" "(of_char c :: nat) < 65"
  shows "c \<in> set b"
proof -
  have "tolower (of_char c) = of_char c" using assms(3) by (simp add: tolower_def)
  then have "of_char c \<in> set (lower b)"
    using assms(1,2) by (metis (mono_tags, lifting) lower_def image_eqI list.set_map)
  then obtain d where "d \<in> set b" "tolower (of_char d) = of_char c"
    by (auto simp: lower_def)
  then show ?thesis using tolower_eq [of "of_char c" "of_char d"] assms(3) by (simp add: of_char_eq_iff)
qed

text \<open>A line \<open>n: ...\<close> is found under a name exactly when the names agree up to case.\<close>

lemma header_here_line:
  assumes "CHR '':'' \<notin> set n" "CHR '':'' \<notin> set name"
  shows "header_here name (n @ CHR '':'' # rest) \<longleftrightarrow> lower n = lower name" (is "?L \<longleftrightarrow> ?R")
proof
  assume L: ?L
  consider "length name < length n" | "length n < length name" | "length n = length name" by linarith
  then show ?R
  proof cases
    case 1
    then have "n ! length name = CHR '':''"
      using L by (simp add: header_here_def Cons_nth_drop_Suc [OF 1, symmetric])
    then show ?thesis using nth_mem [OF 1] assms(1) by simp
  next
    case 2
    then have "take (length name) (n @ CHR '':'' # rest) = n @ CHR '':'' # take (length name - length n - 1) rest"
      by (simp add: take_Cons')
    then have "CHR '':'' \<in> set (take (length name) (n @ CHR '':'' # rest))" by simp
    then have "CHR '':'' \<in> set name"
      using L by (elim lower_in_set [rotated]) (auto simp: header_here_def strncasecmp_eq_def)
    then show ?thesis using assms(2) by blast
  qed (use L in \<open>simp add: header_here_def strncasecmp_eq_def\<close>)
next
  assume R: ?R
  then show ?L using lower_eq_length [OF R] by (simp add: strncasecmp_eq_def header_here_def)
qed

text \<open>A name without line breaks is not found across the end of a line.\<close>

lemma header_here_append:
  assumes "CR \<notin> set name" "header_here name (s @ CR # rest)"
  shows "header_here name s"
proof -
  have "length name < length s"
  proof (rule ccontr)
    assume "\<not> length name < length s"
    then consider "length name = length s" | "length s < length name" by linarith
    then show False
    proof cases
      case 2
      then have "take (length name) (s @ CR # rest) = s @ CR # take (length name - length s - 1) rest"
        by (simp add: take_Cons')
      then have "CR \<in> set (take (length name) (s @ CR # rest))" by simp
      then have "CR \<in> set name"
        using assms(2) by (elim lower_in_set [rotated]) (auto simp: header_here_def strncasecmp_eq_def)
      then show False using assms(1) by blast
    qed (use assms(2) in \<open>simp add: header_here_def\<close>)
  qed
  then show ?thesis
    using assms(2) by (auto simp: header_here_def strncasecmp_eq_def split: list.splits)
qed

text \<open>The text of a request with its header lines.\<close>

definition header_line :: "string \<times> string \<Rightarrow> string" where
  "header_line h = fst h @ '': '' @ snd h @ [CR, LF]"

definition http_request :: "string \<Rightarrow> (string \<times> string) list \<Rightarrow> string" where
  "http_request req hs = req @ [CR, LF] @ concat (map header_line hs) @ [CR, LF]"

definition plain :: "string \<Rightarrow> bool" where
  "plain s \<longleftrightarrow> NUL \<notin> set s \<and> CR \<notin> set s \<and> LF \<notin> set s"

definition header_ok :: "string \<times> string \<Rightarrow> bool" where
  "header_ok h \<longleftrightarrow> plain (fst h) \<and> plain (snd h) \<and> CHR '':'' \<notin> set (fst h)"

definition header_lookup :: "(string \<times> string) list \<Rightarrow> string \<Rightarrow> string option" where
  "header_lookup hs name = map_of (map (\<lambda>(n, v). (lower n, v)) hs) (lower name)"

lemma cstr_id: "NUL \<notin> set s \<Longrightarrow> cstr s = s"
  by (auto simp: cstr_def takeWhile_eq_all_conv)

lemma header_scan_found:
  "header_here name p \<Longrightarrow> header_scan name p = Some (tl (drop (length name) p))"
  by (subst header_scan.simps) (auto simp: header_here_def)

lemma header_scan_line:
  assumes "LF \<notin> set a" "\<not> header_here name (a @ LF # b)"
  shows "header_scan name (a @ LF # b) = header_scan name b"
proof -
  have "dropWhile (\<lambda>c. c \<noteq> LF) (a @ LF # b) = LF # b"
    using assms(1) by (subst dropWhile_append2) auto
  then show ?thesis by (subst header_scan.simps) (simp add: assms(2))
qed

lemma header_scan_headers:
  assumes "list_all header_ok hs" "CHR '':'' \<notin> set name" "header_lookup hs name = Some v"
  shows "\<exists>rest. header_scan name (concat (map header_line hs) @ tail) = Some (CHR '' '' # v @ CR # LF # rest)"
  using assms
proof (induction hs)
  case (Cons h hs)
  obtain n u where h: "h = (n, u)" by fastforce
  let ?rest = "concat (map header_line hs) @ tail"
  have split: "concat (map header_line (h # hs)) @ tail = n @ CHR '':'' # CHR '' '' # u @ CR # LF # ?rest"
    by (simp add: header_line_def h)
  have plain: "LF \<notin> set (n @ CHR '':'' # CHR '' '' # u @ [CR])" and colon: "CHR '':'' \<notin> set n"
    using Cons.prems(1) by (auto simp: header_ok_def plain_def h)
  note here = header_here_line [OF colon Cons.prems(2), of "CHR '' '' # u @ CR # LF # ?rest"]
  show ?case
  proof (cases "lower n = lower name")
    case True
    then have "v = u" using Cons.prems(3) by (simp add: h header_lookup_def)
    then show ?thesis
      unfolding split using header_scan_found here True lower_eq_length [OF True] by simp
  next
    case False
    then have "header_scan name (concat (map header_line (h # hs)) @ tail) = header_scan name ?rest"
      unfolding split using header_scan_line [OF plain, of name ?rest] here by simp
    then show ?thesis
      using Cons False by (simp add: h header_lookup_def)
  qed
qed (simp add: header_lookup_def)

lemma header_text_plain:
  assumes "plain v" "v \<noteq> []" "\<not> is_ows (hd v)" "\<not> is_ows (last v)"
  shows "header_text (CHR '' '' # v @ CR # LF # rest) = v"
proof -
  obtain a v' where v: "v = a # v'" using assms(2) by (cases v) auto
  have "takeWhile (\<lambda>c. c \<noteq> CR \<and> c \<noteq> LF) (v @ CR # LF # rest) = v"
    using assms(1) by (subst takeWhile_append2) (auto simp: plain_def)
  moreover have "ursus_skip_ows (CHR '' '' # v @ CR # LF # rest) = v @ CR # LF # rest"
    using assms(3) by (simp add: ursus_skip_ows_def is_ows_def v)
  moreover have "trim_end v = v"
  proof -
    have "rev v \<noteq> []" "\<not> is_ows (hd (rev v))" using assms by (simp_all add: hd_rev)
    then have "dropWhile is_ows (rev v) = rev v" by (cases "rev v") simp_all
    then show ?thesis by (simp add: trim_end_def)
  qed
  ultimately show ?thesis by (simp add: header_text_def)
qed

lemma header_lookup_plain: "list_all header_ok hs \<Longrightarrow> header_lookup hs name = Some v \<Longrightarrow> plain v"
  by (fastforce simp: header_lookup_def header_ok_def list_all_iff dest: map_of_SomeD)


definition sample_headers :: "(string \<times> string) list" where
  "sample_headers = [(''Host'', ''192.168.1.1''), (''x-ursus-total'', ''10518808''), (''X-Ursus-Generation'', ''gen-0001'')]"


text \<open>The self test that the server runs when it starts passes.\<close>

lemma selftest_passes: "ursus_header_parser_selftest = 0"
  by (simp add: ursus_header_parser_selftest_def ursus_parse_header_ulong_def ursus_parse_header_value_def
      selftest_request_def cstr_def header_scan.simps header_here_def strncasecmp_eq_def lower_def tolower_def
      header_text_def trim_end_def ursus_skip_ows_def is_ows_def simple_strtoul_def
      parse_integer_fixup_radix_def decode_digit_def isxdigit_def)

section \<open>Decoded names\<close>

lemma cleaned_clean: "\<not> unclean (cleaned c)"
  by (simp add: cleaned_def unclean_def)

lemma decode_loop_clean: "decode_loop room s = Some out \<Longrightarrow> list_all (\<lambda>c. \<not> unclean c) out \<and> length out \<le> room"
  by (induction room s arbitrary: out rule: decode_loop.induct)
    (auto split: if_splits option.splits simp: cleaned_clean)

lemma decode_filename_clean:
  assumes "ursus_decode_filename s n = Some out"
  shows "list_all (\<lambda>c. \<not> unclean c) out" "out \<noteq> []" "length out < n"
  using assms decode_loop_clean
  by (auto simp: ursus_decode_filename_def split: if_splits option.splits dest!: decode_loop_clean)

text \<open>The encoding that browsers apply to the value (\<open>encodeURIComponent\<close>).\<close>

definition unreserved :: "char \<Rightarrow> bool" where
  "unreserved c = (generation_char c \<or> c \<in> set ''!~*()'' \<or> c = CHR 0x27)"

definition hex_upper :: "nat \<Rightarrow> char" where
  "hex_upper n = ''0123456789ABCDEF'' ! n"

definition url_encode :: "string \<Rightarrow> string" where
  "url_encode s = concat (map (\<lambda>c. if unreserved c then [c]
     else [CHR ''%'', hex_upper (of_char c div 16), hex_upper (of_char c mod 16)]) s)"

lemma hex_digit_upper: "n < 16 \<Longrightarrow> ursus_hex_digit (hex_upper n) = Some n"
  by (drule nat_below_16) (auto simp: ursus_hex_digit_def hex_upper_def Let_def)

lemma decode_encode:
  "list_all (\<lambda>c. \<not> unclean c) s \<Longrightarrow> length s \<le> room \<Longrightarrow> decode_loop room (url_encode s) = Some s"
proof (induction s arbitrary: room)
  case (Cons c s)
  obtain room' where room: "room = Suc room'" using Cons.prems(2) by (cases room) auto
  have IH: "decode_loop room' (url_encode s) = Some s" using Cons room by simp
  have c: "cleaned c = c" using Cons.prems(1) by (simp add: cleaned_def)
  show ?case
  proof (cases "unreserved c")
    case True
    then have "c \<noteq> CHR ''%''" by (auto simp: unreserved_def generation_char_def)
    then show ?thesis using True IH c room by (simp add: url_encode_def)
  next
    case False
    have "of_char c div 16 < (16 :: nat)" by (rule less_mult_imp_div_less) simp
    then show ?thesis
      using False IH c room by (simp add: url_encode_def hex_digit_upper)
  qed
qed (simp add: url_encode_def)

text \<open>
  A file name that the browser encodes reaches the server unchanged, if it has no control
  characters, quotes or backslashes and fits the buffer.
\<close>

theorem filename_roundtrip:
  assumes "list_all (\<lambda>c. \<not> unclean c) s" "s \<noteq> []" "length s < n"
  shows "ursus_decode_filename (url_encode s) n = Some s"
proof -
  have "decode_loop (n - 1) (url_encode s) = Some s" using assms by (intro decode_encode) auto
  moreover have "url_encode s \<noteq> []" using assms(2) by (cases s) (auto simp: url_encode_def)
  moreover have "2 \<le> n" using assms(2,3) by (cases s) auto
  ultimately show ?thesis using assms(2) by (simp add: ursus_decode_filename_def)
qed

theorem filename_roundtrip_witness:
  "ursus_decode_filename (url_encode ''nokia fw (1).itb'') URSUS_FILENAME_MAX = Some ''nokia fw (1).itb''"
  by (rule filename_roundtrip) (simp_all add: unclean_def http_consts)

section \<open>Buffers that never overflow\<close>

lemma length_log_append: "length log < URSUS_WEB_LOG_MAX \<Longrightarrow> length (log_append log s) < URSUS_WEB_LOG_MAX"
  by (auto simp: log_append_def Let_def http_consts log_mark_def)

lemma length_console_line:
  "length body < URSUS_CONSOLE_MAX \<Longrightarrow> length (console_line body l) < URSUS_CONSOLE_MAX"
  by (auto simp: console_line_def Let_def http_consts)

lemma length_console_lines:
  "length body < URSUS_CONSOLE_MAX \<Longrightarrow> length (foldl console_line body ls) < URSUS_CONSOLE_MAX"
  by (induction ls arbitrary: body) (simp_all add: length_console_line)

end
