(* ===== verification/Led.thy ===== *)
theory Led
  imports Fip_Update "HOL-Library.Word" "HOL-Library.Sublist"
begin

text \<open>
  The front-panel lights, \<open>cmd/ursusled.c\<close>: the blink patterns of the failsafe mode, which are played
  by polling, and the routing of the LAN lights to the switch PHYs.  The LED devices below are outside
  the model; \<open>led_log\<close> records every state that is requested from them.  The indirect access
  register of the switch is a device whose answers are arbitrary; the two pin routing registers keep
  what is written to them.
\<close>

unbundle bit_operations_syntax

section \<open>State\<close>

datatype ursus_led_pattern = URSUS_LED_PATTERN_NONE | URSUS_LED_PATTERN_RECOVERY | URSUS_LED_PATTERN_SOS

record ursus_led_step =
  ls_on :: bool
  ls_ms :: nat

definition led_steps :: "(bool \<times> nat) list \<Rightarrow> ursus_led_step list" where
  "led_steps = map (\<lambda>(b, n). \<lparr>ls_on = b, ls_ms = n\<rparr>)"

definition recovery_steps :: "ursus_led_step list" where
  "recovery_steps = led_steps
     [(True, 150), (False, 150), (True, 150), (False, 300),
      (True, 450), (False, 150), (True, 450), (False, 150),
      (True, 450), (False, 300)]"

definition sos_steps :: "ursus_led_step list" where
  "sos_steps = led_steps
     [(True, 150), (False, 150), (True, 150), (False, 150),
      (True, 150), (False, 450),
      (True, 450), (False, 150), (True, 450), (False, 150),
      (True, 450), (False, 450),
      (True, 150), (False, 150), (True, 150), (False, 150),
      (True, 150), (False, 1050)]"

definition LED_STATUS_RED :: string where "LED_STATUS_RED = ''status-red''"
definition LED_USB1_GREEN :: string where "LED_USB1_GREEN = ''usb1-green''"
definition LED_USB2_GREEN :: string where "LED_USB2_GREEN = ''usb2-green''"

text \<open>The static variables of the module; a device pointer is modelled by whether it is set.\<close>

record led_world = fip_world +
  active_pattern :: ursus_led_pattern
  active_step :: nat
  next_change_ms :: "64 word"
  status_red :: bool
  usb1_green :: bool
  usb2_green :: bool
  led_lookup_done :: bool
  led_log :: "(string \<times> bool) list"
  scu_regs :: "nat \<Rightarrow> 32 word"
  iac_reads :: "nat \<Rightarrow> 32 word"
  iac_writes :: "32 word list"

type_synonym ('x, 'a) led = "('x led_world_scheme, 'a) state"

section \<open>The lights\<close>

definition led_get_by_label :: "string \<Rightarrow> ('x, int) led" where
  "led_get_by_label label = do { t \<leftarrow> io_tick; gets (\<lambda>w. cmd_result (orc w) t) }"

definition led_set_state :: "string \<Rightarrow> bool \<Rightarrow> ('x, unit) led" where
  "led_set_state dev on = modify (\<lambda>w. w\<lparr>led_log := led_log w @ [(dev, on)]\<rparr>)"

definition ursus_led_lookup :: "('x, unit) led" where
  "ursus_led_lookup = do {
     d \<leftarrow> gets led_lookup_done;
     when_m (\<not> d) (do {
       modify (\<lambda>w. w\<lparr>led_lookup_done := True\<rparr>);
       r0 \<leftarrow> led_get_by_label LED_STATUS_RED;
       modify (\<lambda>w. w\<lparr>status_red := (r0 = 0)\<rparr>);
       r1 \<leftarrow> led_get_by_label LED_USB1_GREEN;
       modify (\<lambda>w. w\<lparr>usb1_green := (r1 = 0)\<rparr>);
       r2 \<leftarrow> led_get_by_label LED_USB2_GREEN;
       modify (\<lambda>w. w\<lparr>usb2_green := (r2 = 0)\<rparr>)
     })
   }"

definition ursus_led_one :: "bool \<Rightarrow> string \<Rightarrow> bool \<Rightarrow> ('x, unit) led" where
  "ursus_led_one found dev on = when_m found (led_set_state dev on)"

definition ursus_led_usb_pair :: "bool \<Rightarrow> ('x, unit) led" where
  "ursus_led_usb_pair on = do {
     u1 \<leftarrow> gets usb1_green;
     ursus_led_one u1 LED_USB1_GREEN on;
     u2 \<leftarrow> gets usb2_green;
     ursus_led_one u2 LED_USB2_GREEN on
   }"

definition ursus_led_start :: "ursus_led_pattern \<Rightarrow> ('x, unit) led" where
  "ursus_led_start pattern = do {
     ursus_led_lookup;
     modify (\<lambda>w. w\<lparr>active_pattern := pattern, active_step := 0, next_change_ms := 0\<rparr>)
   }"

text \<open>Remember when the next change is due and move to the next step.\<close>

definition led_next :: "64 word \<Rightarrow> ursus_led_step list \<Rightarrow> nat \<Rightarrow> ('x, unit) led" where
  "led_next now steps i =
     modify (\<lambda>w. w\<lparr>next_change_ms := now + of_nat (ls_ms (steps ! i)), active_step := Suc i\<rparr>)"

definition ursus_led_poll :: "('x, unit) led" where
  "ursus_led_poll = do {
     p \<leftarrow> gets active_pattern;
     if p = URSUS_LED_PATTERN_NONE then ret ()
     else do {
       ms \<leftarrow> get_timer 0;
       let now = of_nat ms;
       next \<leftarrow> gets next_change_ms;
       if next \<noteq> 0 \<and> sint (now - next) < 0 then ret ()
       else if p = URSUS_LED_PATTERN_RECOVERY
       then do {
         i \<leftarrow> gets active_step;
         red \<leftarrow> gets status_red;
         if i \<ge> length recovery_steps
         then do {
           ursus_led_one red LED_STATUS_RED True;
           modify (\<lambda>w. w\<lparr>active_pattern := URSUS_LED_PATTERN_NONE\<rparr>)
         }
         else do {
           ursus_led_one red LED_STATUS_RED (ls_on (recovery_steps ! i));
           led_next now recovery_steps i
         }
       }
       else do {
         k \<leftarrow> gets active_step;
         let i = (if k \<ge> length sos_steps then 0 else k);
         ursus_led_usb_pair (ls_on (sos_steps ! i));
         led_next now sos_steps i
       }
     }
   }"

text \<open>
  The loops that play a pattern; a turn takes a millisecond.  The first argument bounds the turns.  The
  watchdog service \<open>schedule\<close> does not touch the modelled state.
\<close>

fun led_play :: "nat \<Rightarrow> ('x, unit option) led" where
  "led_play 0 = ret None"
| "led_play (Suc n) = do {
     p \<leftarrow> gets active_pattern;
     if p = URSUS_LED_PATTERN_NONE then ret (Some ())
     else do {
       ursus_led_poll;
       p \<leftarrow> gets active_pattern;
       when_m (p \<noteq> URSUS_LED_PATTERN_NONE) (mdelay 1);
       led_play n
     }
   }"

definition ursus_led_recovery_latched :: "nat \<Rightarrow> ('x, unit option) led" where
  "ursus_led_recovery_latched fuel = do {
     ursus_led_start URSUS_LED_PATTERN_RECOVERY;
     led_play fuel
   }"

definition ctrlc :: "('x, bool) led" where
  "ctrlc = do { t \<leftarrow> io_tick; gets (\<lambda>w. cmd_result (orc w) t \<noteq> 0) }"

fun led_fatal_loop :: "nat \<Rightarrow> ('x, unit option) led" where
  "led_fatal_loop 0 = ret None"
| "led_fatal_loop (Suc n) = do {
     c \<leftarrow> ctrlc;
     if c then ret (Some ())
     else do { ursus_led_poll; mdelay 1; led_fatal_loop n }
   }"

definition ursus_led_fatal_wait :: "nat \<Rightarrow> ('x, unit option) led" where
  "ursus_led_fatal_wait fuel = do {
     ursus_led_start URSUS_LED_PATTERN_SOS;
     led_fatal_loop fuel
   }"

section \<open>The LAN lights\<close>

definition URSUS_AN7581_GPIO_2ND_I2C_MODE :: nat where "URSUS_AN7581_GPIO_2ND_I2C_MODE = 0x0214"
definition URSUS_AN7581_LAN_LED0_MAPPING :: nat where "URSUS_AN7581_LAN_LED0_MAPPING = 0x027c"
definition URSUS_LAN_LED_MODE_MASK :: "32 word" where "URSUS_LAN_LED_MODE_MASK = push_bit 5 1 OR push_bit 7 1 OR push_bit 9 1"
definition URSUS_LAN_LED_MAP_MASK :: "32 word" where
  "URSUS_LAN_LED_MAP_MASK = push_bit 4 (mask 3) OR push_bit 8 (mask 3) OR push_bit 12 (mask 3)"
definition URSUS_LAN_LED_MAP_VALUE :: "32 word" where
  "URSUS_LAN_LED_MAP_VALUE = push_bit 4 1 OR push_bit 8 2 OR push_bit 12 3"
definition URSUS_MT7531_MDIO_BUSY :: "32 word" where "URSUS_MT7531_MDIO_BUSY = push_bit 31 1"
definition URSUS_MT7531_MDIO_PHY :: "nat \<Rightarrow> 32 word" where "URSUS_MT7531_MDIO_PHY p = push_bit 20 (of_nat p)"
definition URSUS_MT7531_MDIO_DEV31 :: "32 word" where "URSUS_MT7531_MDIO_DEV31 = push_bit 25 31"
definition URSUS_MT7531_MDIO_CMD_WRITE :: "32 word" where "URSUS_MT7531_MDIO_CMD_WRITE = push_bit 18 1"
definition URSUS_MT7531_MDIO_CMD_READ_C45 :: "32 word" where "URSUS_MT7531_MDIO_CMD_READ_C45 = push_bit 18 3"
definition URSUS_MT7531_LED0_ON_CTRL :: "32 word" where "URSUS_MT7531_LED0_ON_CTRL = 0x24"
definition URSUS_MT7531_LED0_BLINK_CTRL :: "32 word" where "URSUS_MT7531_LED0_BLINK_CTRL = 0x25"
definition URSUS_MT7531_LED0_ON_VALUE :: "32 word" where "URSUS_MT7531_LED0_ON_VALUE = 0xc007"
definition URSUS_MT7531_LED0_BLINK_VALUE :: "32 word" where "URSUS_MT7531_LED0_BLINK_VALUE = 0x003f"
definition URSUS_MT7531_MDIO_SPINS :: nat where "URSUS_MT7531_MDIO_SPINS = 0x00100000"

definition ursus_scu_read :: "nat \<Rightarrow> ('x, 32 word) led" where
  "ursus_scu_read off = gets (\<lambda>w. scu_regs w off)"

definition ursus_scu_write :: "nat \<Rightarrow> 32 word \<Rightarrow> ('x, unit) led" where
  "ursus_scu_write off v = modify (\<lambda>w. w\<lparr>scu_regs := (scu_regs w)(off := v)\<rparr>)"

definition iac_read :: "('x, 32 word) led" where
  "iac_read = do { t \<leftarrow> io_tick; gets (\<lambda>w. iac_reads w t) }"

definition iac_write :: "32 word \<Rightarrow> ('x, unit) led" where
  "iac_write v = modify (\<lambda>w. w\<lparr>iac_writes := iac_writes w @ [v]\<rparr>)"

fun lanphy_spin :: "nat \<Rightarrow> ('x, int) led" where
  "lanphy_spin 0 = ret (- 1)"
| "lanphy_spin (Suc n) = do {
     v \<leftarrow> iac_read;
     if v AND URSUS_MT7531_MDIO_BUSY = 0 then ret 0 else lanphy_spin n
   }"

definition ursus_lanphy_wait_idle :: "('x, int) led" where
  "ursus_lanphy_wait_idle = lanphy_spin URSUS_MT7531_MDIO_SPINS"

definition mdio_address :: "nat \<Rightarrow> 32 word \<Rightarrow> 32 word" where
  "mdio_address phy reg = URSUS_MT7531_MDIO_BUSY OR URSUS_MT7531_MDIO_DEV31 OR URSUS_MT7531_MDIO_PHY phy OR reg"

definition mdio_write_cmd :: "nat \<Rightarrow> 32 word \<Rightarrow> 32 word" where
  "mdio_write_cmd phy v =
     URSUS_MT7531_MDIO_BUSY OR URSUS_MT7531_MDIO_DEV31 OR URSUS_MT7531_MDIO_PHY phy OR URSUS_MT7531_MDIO_CMD_WRITE OR v"

definition mdio_read_cmd :: "nat \<Rightarrow> 32 word" where
  "mdio_read_cmd phy =
     URSUS_MT7531_MDIO_BUSY OR URSUS_MT7531_MDIO_DEV31 OR URSUS_MT7531_MDIO_PHY phy OR URSUS_MT7531_MDIO_CMD_READ_C45"

definition ursus_lanphy_c45_write :: "nat \<Rightarrow> 32 word \<Rightarrow> 32 word \<Rightarrow> ('x, int) led" where
  "ursus_lanphy_c45_write phy reg v = do {
     r \<leftarrow> ursus_lanphy_wait_idle;
     if r \<noteq> 0 then ret (- 1)
     else do {
       iac_write (mdio_address phy reg);
       r \<leftarrow> ursus_lanphy_wait_idle;
       if r \<noteq> 0 then ret (- 1)
       else do {
         iac_write (mdio_write_cmd phy v);
         ursus_lanphy_wait_idle
       }
     }
   }"

definition ursus_lanphy_c45_read :: "nat \<Rightarrow> 32 word \<Rightarrow> ('x, int) led" where
  "ursus_lanphy_c45_read phy reg = do {
     r \<leftarrow> ursus_lanphy_wait_idle;
     if r \<noteq> 0 then ret (- 1)
     else do {
       iac_write (mdio_address phy reg);
       r \<leftarrow> ursus_lanphy_wait_idle;
       if r \<noteq> 0 then ret (- 1)
       else do {
         iac_write (mdio_read_cmd phy);
         r \<leftarrow> ursus_lanphy_wait_idle;
         if r \<noteq> 0 then ret (- 1)
         else do { v \<leftarrow> iac_read; ret (uint (v AND 0xffff)) }
       }
     }
   }"

text \<open>Program and read back the light of one PHY; false when the routing must not go on.\<close>

definition lan_led_phy :: "nat \<Rightarrow> ('x, bool) led" where
  "lan_led_phy phy = do {
     r \<leftarrow> ursus_lanphy_c45_write phy URSUS_MT7531_LED0_ON_CTRL URSUS_MT7531_LED0_ON_VALUE;
     if r \<noteq> 0 then ret False
     else do {
       r \<leftarrow> ursus_lanphy_c45_write phy URSUS_MT7531_LED0_BLINK_CTRL URSUS_MT7531_LED0_BLINK_VALUE;
       if r \<noteq> 0 then ret False
       else do {
         on \<leftarrow> ursus_lanphy_c45_read phy URSUS_MT7531_LED0_ON_CTRL;
         if on \<noteq> uint URSUS_MT7531_LED0_ON_VALUE then ret False
         else do {
           blink \<leftarrow> ursus_lanphy_c45_read phy URSUS_MT7531_LED0_BLINK_CTRL;
           ret (blink = uint URSUS_MT7531_LED0_BLINK_VALUE)
         }
       }
     }
   }"

fun lan_led_phys :: "nat list \<Rightarrow> ('x, bool) led" where
  "lan_led_phys [] = ret True"
| "lan_led_phys (p # ps) = do { ok \<leftarrow> lan_led_phy p; if ok then lan_led_phys ps else ret False }"

definition ursus_lan_led_enable :: "('x, unit) led" where
  "ursus_lan_led_enable = do {
     ok \<leftarrow> lan_led_phys [0x0a, 0x0b, 0x0c];
     when_m ok (do {
       mode \<leftarrow> ursus_scu_read URSUS_AN7581_GPIO_2ND_I2C_MODE;
       map \<leftarrow> ursus_scu_read URSUS_AN7581_LAN_LED0_MAPPING;
       ursus_scu_write URSUS_AN7581_GPIO_2ND_I2C_MODE (mode OR URSUS_LAN_LED_MODE_MASK);
       ursus_scu_write URSUS_AN7581_LAN_LED0_MAPPING ((map AND NOT URSUS_LAN_LED_MAP_MASK) OR URSUS_LAN_LED_MAP_VALUE)
     })
   }"

definition do_ursuslanled :: "string list \<Rightarrow> ('x, int) led" where
  "do_ursuslanled argv =
     (if length argv \<noteq> 2 then ret CMD_RET_USAGE
      else if argv ! 1 = ''enable'' then do { ursus_lan_led_enable; ret CMD_RET_SUCCESS }
      else if argv ! 1 = ''status'' then ret CMD_RET_SUCCESS
      else ret CMD_RET_USAGE)"

section \<open>What reaches the switch\<close>

text \<open>The commands that program and read back the light of a PHY.\<close>

definition phy_script :: "nat \<Rightarrow> 32 word list" where
  "phy_script phy =
     [mdio_address phy URSUS_MT7531_LED0_ON_CTRL, mdio_write_cmd phy URSUS_MT7531_LED0_ON_VALUE] @
     [mdio_address phy URSUS_MT7531_LED0_BLINK_CTRL, mdio_write_cmd phy URSUS_MT7531_LED0_BLINK_VALUE] @
     [mdio_address phy URSUS_MT7531_LED0_ON_CTRL, mdio_read_cmd phy] @
     [mdio_address phy URSUS_MT7531_LED0_BLINK_CTRL, mdio_read_cmd phy]"

text \<open>
  A program sends a prefix of a script, all of it when its result is accepted, and leaves the pin
  routing alone.
\<close>

definition sends :: "32 word list \<Rightarrow> ('a \<Rightarrow> bool) \<Rightarrow> ('x, 'a) led \<Rightarrow> bool" where
  "sends cs ok m = (\<forall>w. wp m (\<lambda>r w'. scu_regs w' = scu_regs w \<and>
     (\<exists>n. iac_writes w' = iac_writes w @ take n cs \<and> (ok r \<longrightarrow> length cs \<le> n))) w)"

lemma sends_ret: "sends [] ok (ret x)" "\<not> ok x \<Longrightarrow> sends cs ok (ret x)"
  by (auto simp: sends_def intro: exI [of _ 0])

lemma sends_write: "sends [c] ok (iac_write c)"
  by (auto simp: sends_def iac_write_def intro: exI [of _ 1])

lemma sends_bind:
  assumes "sends cs ok m" "\<And>r. ok r \<Longrightarrow> sends ds ok' (f r)" "\<And>r. \<not> ok r \<Longrightarrow> \<exists>x. f r = ret x \<and> \<not> ok' x"
  shows "sends (cs @ ds) ok' (do { r \<leftarrow> m; f r })"
  unfolding sends_def
proof (intro allI wp_bindI, rule assms(1) [unfolded sends_def, rule_format], goal_cases)
  case (1 w r v)
  then obtain n where n: "scu_regs v = scu_regs w" "iac_writes v = iac_writes w @ take n cs" "ok r \<longrightarrow> length cs \<le> n"
    by blast
  show ?case
  proof (cases "ok r")
    case True
    show ?thesis
    proof (rule wp_mono [OF assms(2) [OF True, unfolded sends_def, rule_format]], goal_cases)
      case (1 a u)
      then obtain k where "iac_writes u = iac_writes v @ take k ds" "ok' a \<longrightarrow> length ds \<le> k"
        by blast
      with 1 n True show ?case
        by (auto intro!: exI [of _ "length cs + k"])
    qed
  next
    case False
    then show ?thesis
      using n assms(3) [OF False] by (auto simp: min_def intro!: exI [of _ "min n (length cs)"])
  qed
qed

lemma sends_idle: "sends [] ok (ursus_lanphy_wait_idle :: ('x, int) led)"
proof -
  have "keeps (\<lambda>w :: 'x led_world_scheme. (scu_regs w, iac_writes w)) (lanphy_spin n)" for n
    by (induction n; unfold lanphy_spin.simps iac_read_def; intro keeps_intros; simp add: view_defs)
  from keeps_wp [OF this] show ?thesis
    by (simp add: sends_def ursus_lanphy_wait_idle_def)
qed

lemma sends_iac_read: "sends [] ok iac_read"
  by (simp add: sends_def iac_read_def)

lemma sends_if: "(b \<Longrightarrow> sends cs ok m) \<Longrightarrow> (\<not> b \<Longrightarrow> sends cs ok m') \<Longrightarrow> sends cs ok (if b then m else m')"
  by simp

text \<open>After a command, the switch is waited for; the script goes on when it is idle.\<close>

lemma sends_wait:
  assumes "sends cs ok m" "\<not> ok x"
  shows "sends cs ok (do { r \<leftarrow> ursus_lanphy_wait_idle; if r \<noteq> 0 then ret x else m })"
  using sends_bind [OF sends_idle [of "\<lambda>r. r = 0"], of cs ok "\<lambda>r. if r \<noteq> 0 then ret x else m"] assms by auto

lemma sends_guard:
  assumes "sends cs (\<lambda>r. r = v) m" "sends ds ok k" "\<not> ok x"
  shows "sends (cs @ ds) ok (do { r \<leftarrow> m; if r \<noteq> v then ret x else k })"
  by (rule sends_bind [OF assms(1)]) (use assms(2,3) in auto)

lemma sends_then:
  assumes "sends cs ok m"
  shows "sends (c # cs) ok (do { iac_write c; m })"
  using sends_bind [OF sends_write [of c "\<lambda>_. True"], of cs ok "\<lambda>_. m"] assms by simp

lemma sends_c45_write: "sends [mdio_address phy reg, mdio_write_cmd phy v] (\<lambda>r. r = 0) (ursus_lanphy_c45_write phy reg v)"
  unfolding ursus_lanphy_c45_write_def by (intro sends_wait sends_then sends_idle) simp_all

lemma sends_c45_read: "0 \<le> x \<Longrightarrow> sends [mdio_address phy reg, mdio_read_cmd phy] (\<lambda>r. r = x) (ursus_lanphy_c45_read phy reg)"
  using sends_bind [OF sends_iac_read [of "\<lambda>_. True"], of "[]" "\<lambda>r. r = x" "\<lambda>v. ret (uint (v AND 0xffff))"]
  unfolding ursus_lanphy_c45_read_def by (intro sends_wait sends_then) (auto simp: sends_ret)

lemma sends_phy: "sends (phy_script phy) (\<lambda>ok. ok) (lan_led_phy phy)"
proof -
  let ?done = "\<lambda>blink. ret (blink = uint URSUS_MT7531_LED0_BLINK_VALUE)"
  have read2: "sends ([mdio_address phy URSUS_MT7531_LED0_BLINK_CTRL, mdio_read_cmd phy] @ []) (\<lambda>ok. ok)
      (do { blink \<leftarrow> ursus_lanphy_c45_read phy URSUS_MT7531_LED0_BLINK_CTRL; ?done blink })"
    by (rule sends_bind [OF sends_c45_read [of "uint URSUS_MT7531_LED0_BLINK_VALUE"]]) (auto simp: sends_ret)
  show ?thesis
    unfolding phy_script_def lan_led_phy_def
    by (intro sends_guard sends_c45_write sends_c45_read) (use read2 in simp_all)
qed

lemma sends_phys: "sends (concat (map phy_script ps)) (\<lambda>ok. ok) (lan_led_phys ps)"
  by (induction ps) (auto simp: sends_ret intro!: sends_bind [OF sends_phy])

section \<open>Playing the recovery pattern\<close>

lemma sint_before:
  assumes "c < t" "t < 2 ^ 63"
  shows "sint (of_nat c - of_nat t :: 64 word) < 0"
proof -
  have "(of_nat c - of_nat t :: 64 word) = word_of_int (int c - int t)"
    by simp
  then have "sint (of_nat c - of_nat t :: 64 word) = signed_take_bit 63 (int c - int t)"
    by (simp only: signed_of_int) simp
  also have "\<dots> = int c - int t"
    using assms by (intro signed_take_bit_int_eq_self) simp_all
  finally show ?thesis
    using assms by simp
qed
lemma of_nat_word_pos: "0 < t \<Longrightarrow> t < 2 ^ 63 \<Longrightarrow> (of_nat t :: 64 word) \<noteq> 0"
  by (simp add: word_of_nat_eq_0_iff nat_dvd_not_less)

definition due :: "'x led_world_scheme \<Rightarrow> bool" where
  "due w = (next_change_ms w = 0 \<or> next_change_ms w = of_nat (clock w))"

definition shown :: "'x led_world_scheme \<Rightarrow> bool \<Rightarrow> (string \<times> bool) list" where
  "shown w on = (if status_red w then [(LED_STATUS_RED, on)] else [])"

lemma led_play_wait:
  assumes "active_pattern w = URSUS_LED_PATTERN_RECOVERY" "next_change_ms w = of_nat t" "clock w + d = t" "0 < t" "t < 2 ^ 63"
  shows "run_state (led_play (d + n)) w = run_state (led_play n) (w\<lparr>clock := t\<rparr>)"
  using assms
proof (induction d arbitrary: w)
  case 0
  then have "w\<lparr>clock := t\<rparr> = w"
    by (cases w) simp
  then show ?case by simp
next
  case (Suc d)
  have "run_state ursus_led_poll w = ((), w)"
    using Suc.prems sint_before [of "clock w" t] of_nat_word_pos [of t]
    by (simp add: ursus_led_poll_def get_timer_def Let_def)
  then have "run_state (led_play (Suc d + n)) w = run_state (led_play (d + n)) (w\<lparr>clock := Suc (clock w)\<rparr>)"
    using Suc.prems(1) by (simp add: mdelay_def when_m_def)
  also have "\<dots> = run_state (led_play n) (w\<lparr>clock := t\<rparr>)"
    using Suc.IH [of "w\<lparr>clock := Suc (clock w)\<rparr>"] Suc.prems by simp
  finally show ?case .
qed

lemma led_play_step:
  assumes "active_pattern w = URSUS_LED_PATTERN_RECOVERY" "due w" "active_step w = k" "k < length recovery_steps"
    and "ls_ms (recovery_steps ! k) = Suc m" "clock w + Suc m < 2 ^ 63"
  shows "run_state (led_play (Suc m + n)) w = run_state (led_play n)
     (w\<lparr>led_log := led_log w @ shown w (ls_on (recovery_steps ! k)), next_change_ms := of_nat (clock w + Suc m),
        active_step := Suc k, clock := clock w + Suc m\<rparr>)"
proof -
  let ?v = "w\<lparr>led_log := led_log w @ shown w (ls_on (recovery_steps ! k)), next_change_ms := of_nat (clock w + Suc m),
        active_step := Suc k\<rparr>"
  have "run_state ursus_led_poll w = ((), ?v)"
    using assms
    by (auto simp: ursus_led_poll_def get_timer_def due_def ursus_led_one_def led_set_state_def led_next_def shown_def when_m_def Let_def)
  then have "run_state (led_play (Suc m + n)) w = run_state (led_play (m + n)) (?v\<lparr>clock := Suc (clock w)\<rparr>)"
    using assms(1) by (simp add: mdelay_def when_m_def)
  also have "\<dots> = run_state (led_play n) (?v\<lparr>clock := Suc (clock w), clock := clock w + Suc m\<rparr>)"
    by (rule led_play_wait) (use assms in simp_all)
  finally show ?thesis
    by simp
qed

definition led_time :: "ursus_led_step list \<Rightarrow> nat" where
  "led_time steps = sum_list (map ls_ms steps)"

lemma led_play_rest:
  assumes "active_pattern w = URSUS_LED_PATTERN_RECOVERY" "due w" "active_step w = k" "k \<le> length recovery_steps"
    and "clock w + led_time (drop k recovery_steps) < 2 ^ 63"
  shows "\<exists>v. run_state (led_play (led_time (drop k recovery_steps) + n)) w = run_state (led_play n) v
     \<and> active_pattern v = URSUS_LED_PATTERN_RECOVERY \<and> due v \<and> active_step v = length recovery_steps
     \<and> status_red v = status_red w \<and> clock v = clock w + led_time (drop k recovery_steps)
     \<and> led_log v = led_log w @ concat (map (\<lambda>s. shown w (ls_on s)) (drop k recovery_steps))"
  using assms(4,1-3,5)
proof (induction k arbitrary: w rule: inc_induct)
  case base
  then show ?case
    by (intro exI [of _ w]) (simp add: led_time_def)
next
  case (step k)
  let ?s = "recovery_steps ! k"
  have dk: "drop k recovery_steps = ?s # drop (Suc k) recovery_steps"
    using step.hyps by (simp add: Cons_nth_drop_Suc)
  obtain m where m: "ls_ms ?s = Suc m"
  proof -
    have "\<forall>s \<in> set recovery_steps. 0 < ls_ms s"
      by (simp add: recovery_steps_def led_steps_def)
    then show ?thesis
      using step.hyps that by (metis gr0_implies_Suc nth_mem)
  qed
  let ?v = "w\<lparr>led_log := led_log w @ shown w (ls_on ?s), next_change_ms := of_nat (clock w + Suc m),
        active_step := Suc k, clock := clock w + Suc m\<rparr>"
  have t: "led_time (drop k recovery_steps) = Suc m + led_time (drop (Suc k) recovery_steps)"
    by (simp add: dk led_time_def m)
  have "run_state (led_play (led_time (drop k recovery_steps) + n)) w =
      run_state (led_play (led_time (drop (Suc k) recovery_steps) + n)) ?v"
    unfolding t add.assoc by (rule led_play_step) (use step m t in simp_all)
  moreover have "shown ?v = shown w"
    by (simp add: shown_def fun_eq_iff)
  ultimately show ?case
    using step.IH [of ?v] step.prems t by (simp add: due_def dk add.assoc)
qed

text \<open>The turns that the pattern needs: one per millisecond of its 2.7 seconds, and two to finish.\<close>

definition led_fuel :: nat where "led_fuel = 2702"

lemma led_play_pattern:
  assumes "active_pattern w = URSUS_LED_PATTERN_RECOVERY" "next_change_ms w = 0" "active_step w = 0" "clock w + 2700 < 2 ^ 63"
  shows "case run_state (led_play led_fuel) w of (r, w') \<Rightarrow>
    r = Some () \<and> active_pattern w' = URSUS_LED_PATTERN_NONE \<and> clock w' = clock w + 2700
    \<and> status_red w' = status_red w \<and> led_log w' = led_log w @ concat (map (shown w) (map ls_on recovery_steps @ [True]))"
proof -
  have d: "due w"
    using assms(2) by (simp add: due_def)
  have t: "led_time (drop 0 recovery_steps) = 2700"
    by (simp add: led_time_def recovery_steps_def led_steps_def)
  obtain v where v: "run_state (led_play (2700 + 2)) w = run_state (led_play 2) v"
      "active_pattern v = URSUS_LED_PATTERN_RECOVERY" "due v" "active_step v = length recovery_steps"
      "status_red v = status_red w" "clock v = clock w + 2700"
      "led_log v = led_log w @ concat (map (\<lambda>s. shown w (ls_on s)) recovery_steps)"
    using led_play_rest [OF assms(1) d assms(3) le0, unfolded t, OF assms(4), of 2] unfolding drop_0 by blast
  have "run_state ursus_led_poll v = ((), v\<lparr>led_log := led_log v @ shown v True, active_pattern := URSUS_LED_PATTERN_NONE\<rparr>)"
    using v(2-4) by (auto simp: ursus_led_poll_def get_timer_def due_def ursus_led_one_def led_set_state_def shown_def when_m_def Let_def)
  then have "run_state (led_play 2) v = (Some (), v\<lparr>led_log := led_log v @ shown v True, active_pattern := URSUS_LED_PATTERN_NONE\<rparr>)"
    using v(2) by (simp add: numeral_2_eq_2 when_m_def)
  moreover have "led_fuel = 2700 + 2"
    by (simp add: led_fuel_def)
  ultimately show ?thesis
    using v by (simp add: shown_def comp_def)
qed

lemma led_recovery_plays:
  assumes "\<And>t. elapse (orc w) t \<le> m" "clock w + 3 * m + 2700 < 2 ^ 63"
  shows "wp (ursus_led_recovery_latched led_fuel) (\<lambda>r w'. r = Some () \<and> active_pattern w' = URSUS_LED_PATTERN_NONE
      \<and> led_log w' = led_log w @ (if status_red w' then map (\<lambda>on. (LED_STATUS_RED, on)) (map ls_on recovery_steps @ [True]) else [])) w"
proof -
  let ?start = "\<lambda>w :: 'a led_world_scheme. active_pattern w = URSUS_LED_PATTERN_RECOVERY \<and> next_change_ms w = 0 \<and> active_step w = 0"
  have "wp ursus_led_lookup (\<lambda>_ v. clock v \<le> clock w + 3 * m \<and> led_log v = led_log w) w"
    using assms(1)
    by (auto simp: ursus_led_lookup_def led_get_by_label_def)
       (metis add_mono add.assoc add_le_mono numeral_3_eq_3 mult_Suc mult_0 add_0_right)
  then have "wp (ursus_led_start URSUS_LED_PATTERN_RECOVERY) (\<lambda>_ v. ?start v \<and> clock v \<le> clock w + 3 * m \<and> led_log v = led_log w) w"
    unfolding ursus_led_start_def wp_bind by (rule wp_mono) simp
  then show ?thesis
    unfolding ursus_led_recovery_latched_def
  proof (rule wp_bindI, goal_cases)
    case (1 _ v)
    then show ?case
      using led_play_pattern [of v] assms(2)
      by (auto simp: wp_def shown_def [abs_def] comp_def split: prod.splits)
  qed
qed

section \<open>Properties\<close>

text \<open>The witnesses start from a device that has just been powered on.\<close>

definition sample_led :: led_world where
  "sample_led =
     fip_world.extend (ubi_world.extend sample_engine (fip_world.fields zero_up None None [] False))
       (led_world.fields URSUS_LED_PATTERN_NONE 0 0 False False False False [] (\<lambda>_. 0) (\<lambda>_. 0) [])"

lemma sample_led_simps [simp]:
  "orc sample_led = sample_platform" "clock sample_led = 0" "iac_writes sample_led = []" "led_log sample_led = []"
  "mtds sample_led = []" "booted sample_led = None"
  by (simp_all add: sample_led_def sample_engine_def sample_world_def world.extend_def ubi_world.extend_def fip_world.extend_def
      ubi_world.fields_def fip_world.fields_def led_world.fields_def)



text \<open>
  C35: entering the failsafe mode plays the whole recovery pattern and returns: whatever lights are found, the
  red light, if present, is switched through two short and three long flashes and then stays on, and
  this takes 2.7 seconds.
\<close>

theorem recovery_pattern_played:
  assumes "\<And>t. elapse (orc w) t \<le> m" "clock w + 3 * m + 2700 < 2 ^ 63"
  shows "case run_state (ursus_led_recovery_latched led_fuel) w of (r, w') \<Rightarrow>
    r = Some () \<and> active_pattern w' = URSUS_LED_PATTERN_NONE
    \<and> led_log w' = led_log w @ (if status_red w' then map (\<lambda>on. (LED_STATUS_RED, on)) (map ls_on recovery_steps @ [True]) else [])"
  using led_recovery_plays [OF assms] by (simp add: wp_def case_prod_beta)

theorem recovery_pattern_played_witness:
  "case run_state (ursus_led_recovery_latched led_fuel) sample_led of (r, w') \<Rightarrow>
    r = Some () \<and> active_pattern w' = URSUS_LED_PATTERN_NONE
    \<and> led_log w' = (if status_red w' then map (\<lambda>on. (LED_STATUS_RED, on)) (map ls_on recovery_steps @ [True]) else [])"
  using recovery_pattern_played [of sample_led 0] by (simp add: sample_platform_def)

end
