(* ===== verification/Stock_Boot.thy ===== *)
theory Stock_Boot
  imports Fdt Crc32 Ubi_Engine
begin

text \<open>
  Booting the vendor firmware from one of its two slots (\<open>cmd/ursusstock.c\<close>): find the FIT in the
  slot, load and check it, find kernel and root file system in it, read the vendor environment, build
  the kernel arguments and start the kernel.

  The module has its own copies of the helpers that find the chip and read ranges of it; they behave
  as those of the UBI engine, whose models are used.  64-bit sums of numbers read from the flash are
  written with their wrap-around.  \<open>fit_all_image_verify\<close>, the check of all hashes in a FIT, is a
  parameter, and so is the address of the local buffer whose alignment \<open>fdt_check_header\<close> looks at.
\<close>

section \<open>Constants and state\<close>

definition STOCK_MASTER_BASE :: nat where "STOCK_MASTER_BASE = 0x000c0000"
definition STOCK_SLAVE_BASE :: nat where "STOCK_SLAVE_BASE = 0x02940000"
definition STOCK_SLOT_SIZE :: nat where "STOCK_SLOT_SIZE = 0x02880000"
definition STOCK_ENV_BASE :: nat where "STOCK_ENV_BASE = 0x0007c000"
definition STOCK_ENV_SIZE :: nat where "STOCK_ENV_SIZE = 0x4000"
definition HDR2_SIZE :: nat where "HDR2_SIZE = 0x100"
definition FIP_TOC_HEADER_NAME :: nat where "FIP_TOC_HEADER_NAME = 0xaa640001"
definition FIP_TOC_SERIAL :: nat where "FIP_TOC_SERIAL = 0x12345678"
definition FIT_LOAD_ADDR :: nat where "FIT_LOAD_ADDR = 0x88000000"
definition FIT_MAX_SIZE :: nat where "FIT_MAX_SIZE = 0x02800000"
definition FIP_TOC_READ :: nat where "FIP_TOC_READ = 0x1000"
definition MAX_TOC_ENTRIES :: nat where "MAX_TOC_ENTRIES = 32"
definition BOOTARGS_MAX :: nat where "BOOTARGS_MAX = 1536"

lemmas stock_consts = STOCK_MASTER_BASE_def STOCK_SLAVE_BASE_def STOCK_SLOT_SIZE_def STOCK_ENV_BASE_def
  STOCK_ENV_SIZE_def HDR2_SIZE_def FIP_TOC_HEADER_NAME_def FIP_TOC_SERIAL_def FIT_LOAD_ADDR_def
  FIT_MAX_SIZE_def FIP_TOC_READ_def MAX_TOC_ENTRIES_def BOOTARGS_MAX_def

definition nokia_nt_fw_uuid :: bytes where
  "nokia_nt_fw_uuid =
     [0xd6, 0xd0, 0xee, 0xa7, 0xfc, 0xea, 0xd5, 0x4b, 0x97, 0x82, 0x99, 0x34, 0xf2, 0x34, 0xb6, 0xe4]"

record stock_slot =
  ss_name :: string
  ss_base :: nat
  ss_nt_off :: nat
  ss_nt_size :: nat
  ss_fit_phys :: nat
  ss_fit_size :: nat
  ss_bad_blocks :: int

record stock_layout =
  kernel_off :: nat
  kernel_size :: nat
  rootfs_off :: nat
  rootfs_size :: nat

record stock_env =
  se_buf :: "bytes option"
  se_crc_ok :: bool

definition u64 :: "nat \<Rightarrow> nat" where
  "u64 n = n mod 2 ^ 64"

section \<open>Inspecting a slot\<close>

function count_bad_loop :: "mtd_info \<Rightarrow> nat \<Rightarrow> nat \<Rightarrow> int \<Rightarrow> ('x world_scheme, int) state" where
  "count_bad_loop mtd eb end' bad =
     (if eb < end' \<and> 0 < erasesize mtd
      then do {
        r \<leftarrow> mtd_block_isbad mtd eb;
        if r < 0 then ret r
        else count_bad_loop mtd (eb + erasesize mtd) end' (if r > 0 then bad + 1 else bad)
      }
      else ret bad)"
  by pat_completeness auto

termination count_bad_loop
  by (relation "measure (\<lambda>(_, eb, end', _). end' - eb)") auto

declare count_bad_loop.simps [simp del]

definition count_bad_blocks :: "mtd_info \<Rightarrow> nat \<Rightarrow> nat \<Rightarrow> ('x world_scheme, int) state" where
  "count_bad_blocks mtd start len =
     (if erasesize mtd = 0 then ret (- EINVAL)
      else count_bad_loop mtd (start - start mod erasesize mtd) (u64 (start + len)) 0)"

text \<open>Offset and size of the first NT_FW entry among the entries from a position on.\<close>

fun stock_toc_scan :: "nat \<Rightarrow> nat \<Rightarrow> bytes \<Rightarrow> (nat \<times> nat) option" where
  "stock_toc_scan 0 p buf = None"
| "stock_toc_scan (Suc k) p buf =
     (let ent = fip_entry_at buf p
      in if p + FIP_ENTRY_SIZE > FIP_TOC_READ then None
         else if ursus_uuid_zero (ent_uuid ent) then None
         else if ent_uuid ent = nokia_nt_fw_uuid then Some (ent_offset_address ent, ent_size ent)
         else stock_toc_scan k (p + FIP_ENTRY_SIZE) buf)"

definition stock_toc_fields :: "bytes \<Rightarrow> stock_slot \<Rightarrow> stock_slot" where
  "stock_toc_fields toc slot =
     (case stock_toc_scan MAX_TOC_ENTRIES FIP_HEADER_SIZE toc of
        None \<Rightarrow> slot
      | Some (off, sz) \<Rightarrow> slot\<lparr>ss_nt_off := off, ss_nt_size := sz\<rparr>)"

text \<open>The part of \<open>inspect_slot\<close> behind the table of contents.\<close>

definition inspect_payload :: "nat \<Rightarrow> mtd_info \<Rightarrow> stock_slot \<Rightarrow> ('x world_scheme, int \<times> stock_slot) state" where
  "inspect_payload fithead_addr mtd slot =
     (if u64 (ss_base slot + ss_nt_off slot + ss_nt_size slot) > u64 (ss_base slot + STOCK_SLOT_SIZE)
      then ret (- EINVAL, slot)
      else do {
        (r, hdrpage) \<leftarrow> ursus_read_range mtd (u64 (ss_base slot + ss_nt_off slot)) 2048;
        if r \<noteq> 0 then ret (- EINVAL, slot)
        else if take 4 hdrpage \<noteq> str_bytes ''HDR2'' then ret (- EINVAL, slot)
        else
          let fithead = slice HDR2_SIZE 64 hdrpage;
              slot = slot\<lparr>ss_fit_phys := u64 (ss_base slot + ss_nt_off slot + HDR2_SIZE)\<rparr>
          in if fdt_check_header fithead_addr fithead \<noteq> 0 then ret (- EINVAL, slot)
             else
               let fit_size = fdt_totalsize fithead; slot = slot\<lparr>ss_fit_size := fit_size\<rparr>
               in if fit_size = 0 \<or> fit_size > FIT_MAX_SIZE \<or> fit_size > ss_nt_size slot - HDR2_SIZE
                  then ret (- EINVAL, slot)
                  else do {
                    bad \<leftarrow> count_bad_blocks mtd (ss_fit_phys slot) fit_size;
                    ret (if bad < 0 then - EINVAL else 0, slot\<lparr>ss_bad_blocks := bad\<rparr>)
                  }
      })"

definition inspect_slot :: "nat \<Rightarrow> mtd_info \<Rightarrow> stock_slot \<Rightarrow> ('x world_scheme, int \<times> stock_slot) state" where
  "inspect_slot fithead_addr mtd slot =
     (if u64 (ss_base slot + STOCK_SLOT_SIZE) > mtd_size mtd then ret (- ERANGE, slot)
      else do {
        tocbuf \<leftarrow> malloc_buf FIP_TOC_READ;
        if tocbuf = None then ret (- ENOMEM, slot)
        else do {
          (r, toc) \<leftarrow> ursus_read_range mtd (ss_base slot) FIP_TOC_READ;
          if r \<noteq> 0 then ret (- EINVAL, slot)
          else if hdr_name (fip_header_at toc) \<noteq> FIP_TOC_HEADER_NAME
                  \<or> hdr_serial_number (fip_header_at toc) \<noteq> FIP_TOC_SERIAL
          then ret (- EINVAL, slot)
          else
            let slot = stock_toc_fields toc slot
            in if ss_nt_off slot = 0 \<or> ss_nt_size slot \<le> HDR2_SIZE then ret (- EINVAL, slot)
               else inspect_payload fithead_addr mtd slot
        }
      })"

section \<open>The images of the FIT\<close>

definition fit_data :: "ram \<Rightarrow> nat \<Rightarrow> nat \<Rightarrow> int \<Rightarrow> string \<Rightarrow> int + (nat \<times> nat)" where
  "fit_data m fit nt_off images name =
     (let node = fdt_subnode_offset m fit images (str_bytes name)
      in if node < 0 then Inl node
         else case fdt_getprop m fit node (str_bytes ''data'') of
                Inl _ \<Rightarrow> Inl (- EINVAL)
              | Inr (p, len) \<Rightarrow>
                  if len \<le> 0 then Inl (- EINVAL)
                  else if p < fit \<or> p + nat len > fit + fdt_hdr fdt_totalsize m fit then Inl (- ERANGE)
                  else Inr (u64 (p - fit + nt_off), nat len))"

definition fit_image_info :: "ram \<Rightarrow> nat \<Rightarrow> nat \<Rightarrow> int + stock_layout" where
  "fit_image_info m fit nt_off =
     (let images = fdt_path_offset m fit [str_bytes ''images'']
      in if fdt_check_header fit (mem_read fit FDT_V17_SIZE m) \<noteq> 0 then Inl (- EINVAL)
         else if images < 0 then Inl images
         else case fit_data m fit nt_off images ''kernel@1'' of
                Inl e \<Rightarrow> Inl e
              | Inr (koff, ksize) \<Rightarrow>
                  case fit_data m fit nt_off images ''filesystem@1'' of
                    Inl e \<Rightarrow> Inl e
                  | Inr (roff, rsize) \<Rightarrow>
                      Inr \<lparr>kernel_off = koff, kernel_size = ksize, rootfs_off = roff, rootfs_size = rsize\<rparr>)"

section \<open>The vendor environment\<close>

definition stock_env_load :: "mtd_info \<Rightarrow> ('x world_scheme, int \<times> stock_env) state" where
  "stock_env_load mtd = do {
     b \<leftarrow> malloc_buf STOCK_ENV_SIZE;
     case b of
       None \<Rightarrow> ret (- ENOMEM, \<lparr>se_buf = None, se_crc_ok = False\<rparr>)
     | Some junk \<Rightarrow> do {
         (r, d) \<leftarrow> ursus_read_range mtd STOCK_ENV_BASE STOCK_ENV_SIZE;
         if r \<noteq> 0 then ret (- EIO, \<lparr>se_buf = Some (d @ drop (length d) junk), se_crc_ok = False\<rparr>)
         else
           let ok = (of_nat (le_get 4 0 d) = crc32 0 (drop 4 d))
           in ret (if ok then 0 else - EBADMSG, \<lparr>se_buf = Some d, se_crc_ok = ok\<rparr>)
       }
   }"

definition chars :: "bytes \<Rightarrow> string" where
  "chars bs = map (\<lambda>b. char_of (unat b)) bs"

text \<open>The search among NUL-terminated settings; the empty one ends the list.\<close>

function stock_env_scan :: "string \<Rightarrow> string \<Rightarrow> string option" where
  "stock_env_scan key p =
     (let s = takeWhile (\<lambda>c. c \<noteq> CHR 0x00) p; n = length s
      in if s = [] then None
         else if n = length p then None
         else if n > length key \<and> take (length key) s = key \<and> s ! length key = CHR ''=''
         then Some (drop (length key + 1) s)
         else stock_env_scan key (drop (n + 1) p))"
  by pat_completeness auto

termination stock_env_scan
proof (relation "measure (\<lambda>(_, p). length p)", goal_cases)
  case (2 key p s n)
  then have "p \<noteq> []" by auto
  then show ?case by simp
qed simp

declare stock_env_scan.simps [simp del]

definition stock_env_get :: "stock_env \<Rightarrow> string \<Rightarrow> string option" where
  "stock_env_get se key =
     (case se_buf se of
        None \<Rightarrow> None
      | Some b \<Rightarrow> if se_crc_ok se then stock_env_scan key (chars (drop 4 (take STOCK_ENV_SIZE b))) else None)"

section \<open>Kernel arguments\<close>

definition append_arg :: "string \<Rightarrow> nat \<Rightarrow> string \<Rightarrow> string option \<Rightarrow> int \<times> string" where
  "append_arg dst cap key val =
     (case val of
        None \<Rightarrow> (0, dst)
      | Some v \<Rightarrow>
          let txt = key @ ''='' @ v @ '' ''
          in if v = [] then (0, dst)
             else if length dst \<ge> cap then (- ENOSPC, dst)
             else (if length txt \<ge> cap - length dst then - ENOSPC else 0, dst @ snprintf (cap - length dst) txt))"

fun append_args :: "string \<Rightarrow> nat \<Rightarrow> (string \<times> string option) list \<Rightarrow> int \<times> string" where
  "append_args dst cap [] = (0, dst)"
| "append_args dst cap ((key, val) # rest) =
     (case append_arg dst cap key val of
        (r, dst') \<Rightarrow> if r \<noteq> 0 then (- ENOSPC, dst') else append_args dst' cap rest)"

definition passthrough :: "string list" where
  "passthrough =
     [''sdram_conf'', ''vendor_name'', ''product_name'', ''ethaddr'',
      ''snmp_sysobjid'', ''country_code'', ''ether_gpio'', ''power_gpio'',
      ''dsl_gpio'', ''internet_gpio'', ''multi_upgrade_gpio'',
      ''onu_type'', ''qdma_init'', ''dram_limit'',
      ''serdes_pon'', ''serdes_ethernet'', ''serdes_usb1'', ''board_args'']"

definition hex0x :: "nat \<Rightarrow> string" where
  "hex0x n = ''0x'' @ hex_digits n"

definition tclinux_info :: "stock_slot \<Rightarrow> stock_slot \<Rightarrow> stock_layout \<Rightarrow> bool \<Rightarrow> string" where
  "tclinux_info master slave layout bootflag =
     (let place = ''0x0,0x2000,0x0,0x2000,0x0'';
          bank = (\<lambda>slot. hex0x (ss_fit_size slot) @ '','' @ hex0x (kernel_off layout) @ '','' @
                   hex0x (kernel_size layout) @ '','' @ hex0x (rootfs_off layout) @ '','' @
                   hex0x (rootfs_size layout))
      in snprintf 256 (if \<not> bootflag then bank master @ '','' @ place else place @ '','' @ bank slave))"

definition bootargs_list ::
  "stock_env \<Rightarrow> stock_slot \<Rightarrow> stock_slot \<Rightarrow> stock_layout \<Rightarrow> bool \<Rightarrow> (string \<times> string option) list" where
  "bootargs_list se master slave layout bootflag =
     map (\<lambda>k. (k, stock_env_get se k)) passthrough @
     [(''root'', Some (if bootflag then ''/dev/mtdblock5 ro''
                       else case stock_env_get se ''root'' of None \<Rightarrow> ''/dev/mtdblock3 ro'' | Some r \<Rightarrow> r)),
      (''console'', Some (case stock_env_get se ''console'' of None \<Rightarrow> ''ttyS0,115200n8 earlycon'' | Some c \<Rightarrow> c)),
      (''serdes_wifi1'', Some ''05''), (''serdes_wifi2'', Some ''05''), (''serdes_usb2'', Some ''02''),
      (''bootflag'', Some (if bootflag then ''1'' else ''0'')),
      (''tclinux_info'', Some (tclinux_info master slave layout bootflag))]"

definition build_stock_bootargs ::
  "stock_env \<Rightarrow> stock_slot \<Rightarrow> stock_slot \<Rightarrow> stock_layout \<Rightarrow> bool \<Rightarrow> nat \<Rightarrow> int \<times> string" where
  "build_stock_bootargs se master slave layout bootflag outsz =
     append_args [] outsz (bootargs_list se master slave layout bootflag)"

section \<open>The command\<close>

text \<open>\<open>env_set\<close> may fail for want of memory; the command does not look at its result.\<close>

definition env_try_set :: "string \<Rightarrow> string \<Rightarrow> ('x world_scheme, unit) state" where
  "env_try_set n v = do { t \<leftarrow> io_tick; e \<leftarrow> io_result t; when_m (e = 0) (env_set n v) }"

text \<open>From the loaded FIT to the start of the kernel.\<close>

definition stock_start ::
  "(ram \<Rightarrow> nat \<Rightarrow> bool) \<Rightarrow> mtd_info \<Rightarrow> stock_slot \<Rightarrow> stock_slot \<Rightarrow> bool \<Rightarrow> ('x, int option) engine" where
  "stock_start fit_all_image_verify mtd master slave bootflag = do {
     m \<leftarrow> gets ram;
     if \<not> fit_all_image_verify m FIT_LOAD_ADDR then ret (Some CMD_RET_FAILURE)
     else case fit_image_info m FIT_LOAD_ADDR (ss_nt_off (if bootflag then slave else master)) of
       Inl _ \<Rightarrow> ret (Some CMD_RET_FAILURE)
     | Inr layout \<Rightarrow> do {
         (r, se) \<leftarrow> stock_env_load mtd;
         if r \<noteq> 0 then ret (Some CMD_RET_FAILURE)
         else case build_stock_bootargs se master slave layout bootflag BOOTARGS_MAX of
           (r, bootargs) \<Rightarrow>
             if r \<noteq> 0 then ret (Some CMD_RET_FAILURE)
             else do {
               env_try_set ''bootargs'' bootargs;
               env_try_set ''verify'' ''yes'';
               env_try_set ''loadaddr'' (hex_digits FIT_LOAD_ADDR);
               b \<leftarrow> run_bootm FIT_LOAD_ADDR;
               ret (case b of None \<Rightarrow> None | Some _ \<Rightarrow> Some CMD_RET_FAILURE)
             }
       }
   }"

text \<open>Loading the FIT of the chosen slot and checking it again.\<close>

definition stock_load ::
  "(ram \<Rightarrow> nat \<Rightarrow> bool) \<Rightarrow> mtd_info \<Rightarrow> stock_slot \<Rightarrow> stock_slot \<Rightarrow> bool \<Rightarrow> ('x, int option) engine" where
  "stock_load fit_all_image_verify mtd master slave want_slave = do {
     let chosen = (if want_slave then slave else master);
     (r, d) \<leftarrow> ursus_read_range mtd (ss_fit_phys chosen) (ss_fit_size chosen);
     ram_write FIT_LOAD_ADDR d;
     if r \<noteq> 0 then ret (Some CMD_RET_FAILURE)
     else do {
       h \<leftarrow> fdt_check_header_at FIT_LOAD_ADDR;
       f \<leftarrow> ram_read FIT_LOAD_ADDR FDT_V17_SIZE;
       if h \<noteq> 0 \<or> fdt_totalsize f \<noteq> ss_fit_size chosen then ret (Some CMD_RET_FAILURE)
       else stock_start fit_all_image_verify mtd master slave want_slave
     }
   }"

definition fresh_slot :: "string \<Rightarrow> nat \<Rightarrow> stock_slot" where
  "fresh_slot name base =
     \<lparr>ss_name = name, ss_base = base, ss_nt_off = 0, ss_nt_size = 0, ss_fit_phys = 0, ss_fit_size = 0,
      ss_bad_blocks = 0\<rparr>"

definition do_ursusstockboot ::
  "(ram \<Rightarrow> nat \<Rightarrow> bool) \<Rightarrow> nat \<Rightarrow> string list \<Rightarrow> ('x, int option) engine" where
  "do_ursusstockboot fit_all_image_verify fithead_addr argv = do {
     chip \<leftarrow> ursus_find_master_nand;
     case chip of
       None \<Rightarrow> ret (Some CMD_RET_FAILURE)
     | Some mtd \<Rightarrow> do {
         (mr, master) \<leftarrow> inspect_slot fithead_addr mtd (fresh_slot ''MASTER'' STOCK_MASTER_BASE);
         (sr, slave) \<leftarrow> inspect_slot fithead_addr mtd (fresh_slot ''SLAVE'' STOCK_SLAVE_BASE);
         let want_slave = (length argv > 1 \<and> argv ! 1 = ''slave'');
         let chosen = (if want_slave then slave else master);
         if (if want_slave then sr else mr) \<noteq> 0 then ret (Some CMD_RET_FAILURE)
         else if ss_bad_blocks chosen \<noteq> 0 then ret (Some CMD_RET_FAILURE)
         else stock_load fit_all_image_verify mtd master slave want_slave
       }
   }"

section \<open>Frames\<close>

lemma keeps_count_bad_blocks [keeps_intros]:
  "ignores_time f \<Longrightarrow> keeps f (count_bad_blocks mtd start len)"
proof -
  assume f: "ignores_time f"
  have "keeps f (count_bad_loop mtd eb e bad)" for eb e bad
  proof (induction mtd eb e bad rule: count_bad_loop.induct)
    case (1 mtd eb e bad)
    show ?case
      by (subst count_bad_loop.simps, intro keeps_intros f) (rule "1.IH", assumption+)
  qed
  then show ?thesis by (simp add: count_bad_blocks_def keeps_return)
qed

lemma keeps_inspect_slot [keeps_intros]:
  "ignores_time f \<Longrightarrow> ignores_hung f \<Longrightarrow> keeps f (inspect_slot sp mtd slot)"
  unfolding inspect_slot_def inspect_payload_def Let_def by (intro keeps_intros) simp_all

lemma keeps_stock_env_load [keeps_intros]:
  "ignores_time f \<Longrightarrow> ignores_hung f \<Longrightarrow> keeps f (stock_env_load mtd)"
  unfolding stock_env_load_def Let_def by (intro keeps_intros)

lemma keeps_env_try_set [keeps_intros]:
  "ignores_time f \<Longrightarrow> ignores_env f \<Longrightarrow> keeps f (env_try_set n v)"
  unfolding env_try_set_def by (intro keeps_intros)

section \<open>A slot that is accepted\<close>

text \<open>Counting no bad block means that the search for one finds none.\<close>

lemma count_bad_none:
  "0 \<le> bad \<Longrightarrow>
   wp (count_bad_loop mtd eb e bad)
     (\<lambda>r _. r = 0 \<longrightarrow> bad = 0 \<and> fst (run_state (bad_in_range_loop mtd eb e) w) = 0) w"
proof (induction mtd eb e bad arbitrary: w rule: count_bad_loop.induct)
  case (1 mtd eb e bad)
  show ?case
  proof (cases "eb < e \<and> 0 < erasesize mtd")
    case True
    obtain r w1 where r: "run_state (mtd_block_isbad mtd eb) w = (r, w1)" by fastforce
    have "wp (count_bad_loop mtd (eb + erasesize mtd) e (if 0 < r then bad + 1 else bad))
        (\<lambda>q _. q = 0 \<longrightarrow> (if 0 < r then bad + 1 else bad) = 0
            \<and> fst (run_state (bad_in_range_loop mtd (eb + erasesize mtd) e) w1) = 0) w1" if "\<not> r < 0"
      using "1.IH" [OF True that] "1.prems" by simp
    then show ?thesis
      using True r "1.prems"
      by (subst count_bad_loop.simps, subst bad_in_range_loop.simps)
        (auto simp: wp_def split: prod.splits if_splits)
  next
    case False
    then show ?thesis
      by (subst count_bad_loop.simps, subst bad_in_range_loop.simps) auto
  qed
qed

lemma wp_count_bad_blocks:
  assumes "0 < erasesize mtd" "erasesize mtd dvd mtd_offset mtd" "start + len < 2 ^ 64"
  shows "wp (count_bad_blocks mtd start len)
     (\<lambda>r w'. r = 0 \<longrightarrow> (\<forall>a. start \<le> a \<and> a < start + len \<longrightarrow>
         \<not> bad_blocks w ((mtd_offset mtd + a) div erasesize mtd))) w"
proof -
  have "wp (count_bad_blocks mtd start len)
      (\<lambda>r _. r = 0 \<longrightarrow> fst (run_state (ursus_bad_in_range mtd start len) w) = 0) w"
    unfolding count_bad_blocks_def ursus_bad_in_range_def u64_def
    using assms by (auto intro: wp_mono [OF count_bad_none])
  then show ?thesis
    using wp_bad_in_range [OF assms(1,2), of start len w]
    by (auto simp: wp_def split: prod.splits)
qed

text \<open>What the checks of \<open>inspect_slot\<close> establish.\<close>

definition slot_accepted :: "mtd_info \<Rightarrow> 'x world_scheme \<Rightarrow> nat \<Rightarrow> stock_slot \<Rightarrow> bool" where
  "slot_accepted mtd w base s \<longleftrightarrow>
     ss_base s = base \<and> 0 < ss_nt_off s \<and> ss_fit_phys s = u64 (base + ss_nt_off s + HDR2_SIZE)
     \<and> 0 < ss_fit_size s \<and> ss_fit_size s \<le> FIT_MAX_SIZE \<and> ss_fit_size s + HDR2_SIZE \<le> ss_nt_size s
     \<and> u64 (base + ss_nt_off s + ss_nt_size s) \<le> u64 (base + STOCK_SLOT_SIZE)
     \<and> (ss_bad_blocks s = 0 \<longrightarrow> ss_fit_phys s + ss_fit_size s < 2 ^ 64 \<longrightarrow>
          0 < erasesize mtd \<longrightarrow> erasesize mtd dvd mtd_offset mtd \<longrightarrow>
          (\<forall>a. ss_fit_phys s \<le> a \<and> a < ss_fit_phys s + ss_fit_size s \<longrightarrow>
               \<not> bad_blocks w ((mtd_offset mtd + a) div erasesize mtd)))"

lemma wp_inspect_payload:
  fixes w :: "'x world_scheme"
  assumes "0 < ss_nt_off slot" "HDR2_SIZE < ss_nt_size slot"
  shows "wp (inspect_payload sp mtd slot) (\<lambda>(r, s) _. r = 0 \<longrightarrow> slot_accepted mtd w (ss_base slot) s) w"
proof -
  have bad: "keeps bad_blocks (ursus_read_range mtd off len)" for off len
    by (intro keeps_intros) (simp_all add: view_defs)
  have tail: "wp (do { bad \<leftarrow> count_bad_blocks mtd (ss_fit_phys t) n;
                       ret (if bad < 0 then - EINVAL else 0, t\<lparr>ss_bad_blocks := bad\<rparr>) })
      (\<lambda>(r, s) _. r = 0 \<longrightarrow> slot_accepted mtd w (ss_base slot) s) v"
    if t: "t = slot\<lparr>ss_fit_phys := u64 (ss_base slot + ss_nt_off slot + HDR2_SIZE), ss_fit_size := n\<rparr>"
      and n: "0 < n" "n \<le> FIT_MAX_SIZE" "n \<le> ss_nt_size slot - HDR2_SIZE"
      and range: "u64 (ss_base slot + ss_nt_off slot + ss_nt_size slot) \<le> u64 (ss_base slot + STOCK_SLOT_SIZE)"
      and v: "bad_blocks v = bad_blocks w" for t n and v :: "'x world_scheme"
  proof -
    have "wp (count_bad_blocks mtd (ss_fit_phys t) n)
       (\<lambda>r _. r = 0 \<longrightarrow> ss_fit_phys t + n < 2 ^ 64 \<longrightarrow> 0 < erasesize mtd \<longrightarrow> erasesize mtd dvd mtd_offset mtd \<longrightarrow>
          (\<forall>a. ss_fit_phys t \<le> a \<and> a < ss_fit_phys t + n \<longrightarrow>
               \<not> bad_blocks w ((mtd_offset mtd + a) div erasesize mtd))) v"
      using wp_count_bad_blocks [of mtd "ss_fit_phys t" n v] v
      by (cases "ss_fit_phys t + n < 2 ^ 64 \<and> 0 < erasesize mtd \<and> erasesize mtd dvd mtd_offset mtd")
        (auto elim: wp_mono intro!: wp_mono [OF wp_True [THEN fun_cong, THEN iffD2, OF TrueI]])
    then show ?thesis
      by (rule wp_bindI) (use assms n range t in \<open>auto simp: slot_accepted_def\<close>)
  qed
  show ?thesis
    unfolding inspect_payload_def Let_def
    by (auto simp del: wp_bind intro!: wp_bind_keeps [OF bad] tail [OF refl, simplified])
qed

lemma wp_inspect_slot:
  fixes w :: "'x world_scheme"
  shows "wp (inspect_slot sp mtd slot) (\<lambda>(r, s) _. r = 0 \<longrightarrow> slot_accepted mtd w (ss_base slot) s) w"
proof -
  have bad: "keeps bad_blocks (ursus_read_range mtd off len)" and mal: "keeps bad_blocks (malloc_buf n)" for off len n
    by (intro keeps_intros; simp add: view_defs)+
  have base: "ss_base (stock_toc_fields toc slot) = ss_base slot" for toc
    by (simp add: stock_toc_fields_def split: option.split)
  have payload: "wp (inspect_payload sp mtd s) (\<lambda>(r, s) _. r = 0 \<longrightarrow> slot_accepted mtd w (ss_base slot) s) v"
    if "s = stock_toc_fields toc slot" "0 < ss_nt_off s" "HDR2_SIZE < ss_nt_size s" "bad_blocks v = bad_blocks w"
    for s toc and v :: "'x world_scheme"
    using wp_inspect_payload [OF that(2,3), of sp mtd v] that(1,4) base by (simp add: slot_accepted_def)
  show ?thesis
    unfolding inspect_slot_def Let_def
    by (auto simp del: wp_bind intro!: wp_bind_keeps [OF bad] wp_bind_keeps [OF mal] payload [OF refl])
qed

section \<open>Starting the kernel\<close>

lemma stock_start_sound:
  fixes w :: "'x ubi_world_scheme"
  shows "wp (stock_start V mtd master slave bootflag)
    (\<lambda>r w'. nand w' = nand w \<and> media w' = media w \<and> ram w' = ram w \<and>
       (case r of Some c \<Rightarrow> c = CMD_RET_FAILURE \<and> booted w' = booted w
        | None \<Rightarrow> booted w' = Some FIT_LOAD_ADDR \<and> V (ram w) FIT_LOAD_ADDR)) w"
proof -
  let ?f = "\<lambda>w :: 'x ubi_world_scheme. (nand w, media w, ram w, booted w)"
  have load: "keeps ?f (stock_env_load mtd)" and set: "keeps ?f (env_try_set n v)" for n v
    by (intro keeps_intros; simp add: view_defs)+
  let ?Q = "\<lambda>r (w' :: 'x ubi_world_scheme). nand w' = nand w \<and> media w' = media w \<and> ram w' = ram w \<and>
       (case r of Some c \<Rightarrow> c = CMD_RET_FAILURE \<and> booted w' = booted w
        | None \<Rightarrow> booted w' = Some FIT_LOAD_ADDR \<and> V (ram w) FIT_LOAD_ADDR)"
  have boot: "wp (do { b \<leftarrow> run_bootm FIT_LOAD_ADDR;
                       ret (case b of None \<Rightarrow> None | Some _ \<Rightarrow> Some CMD_RET_FAILURE) }) ?Q v"
    if "?f v = ?f w" "V (ram w) FIT_LOAD_ADDR" for v
    using that by (auto simp: run_bootm_def)
  have args: "wp (do { env_try_set ''bootargs'' b; env_try_set ''verify'' ''yes'';
                       env_try_set ''loadaddr'' (hex_digits FIT_LOAD_ADDR);
                       b \<leftarrow> run_bootm FIT_LOAD_ADDR;
                       ret (case b of None \<Rightarrow> None | Some _ \<Rightarrow> Some CMD_RET_FAILURE) }) ?Q v"
    if "?f v = ?f w" "V (ram w) FIT_LOAD_ADDR" for b v
    by (intro wp_bind_keeps [OF set] boot) (use that in simp_all)
  have fail: "wp (ret (Some CMD_RET_FAILURE)) ?Q v" if "?f v = ?f w" for v
    using that by simp
  show ?thesis
    unfolding stock_start_def
    by (rule wp_bindI [where P = "\<lambda>m v. m = ram w \<and> v = w"], simp)
      (auto simp del: wp_bind split: sum.splits prod.splits intro!: wp_bind_keeps [OF load] args)
qed

text \<open>The chip that the command finds.\<close>

definition stock_chip :: "'x world_scheme \<Rightarrow> mtd_info option" where
  "stock_chip w = find (\<lambda>m. \<not> mtd_is_partition m \<and>
                            (mtd_type m = MTD_NANDFLASH \<or> mtd_type m = MTD_MLCNANDFLASH)) (mtds w)"

text \<open>A FIT that was loaded from a range of the chip without bad blocks.\<close>

definition loaded_fit :: "mtd_info \<Rightarrow> 'x world_scheme \<Rightarrow> ram \<Rightarrow> bool" where
  "loaded_fit mtd w m \<longleftrightarrow> (\<exists>phys n.
     0 < n \<and> n \<le> FIT_MAX_SIZE \<and> phys + n \<le> mtd_size mtd
     \<and> mem_read FIT_LOAD_ADDR n m = mem_read (mtd_offset mtd + phys) n (nand w)
     \<and> fdt_check_header FIT_LOAD_ADDR (mem_read FIT_LOAD_ADDR FDT_V17_SIZE m) = 0
     \<and> fdt_totalsize (mem_read FIT_LOAD_ADDR FDT_V17_SIZE m) = n
     \<and> (\<forall>a. phys \<le> a \<and> a < phys + n \<longrightarrow> \<not> bad_blocks w ((mtd_offset mtd + a) div erasesize mtd)))"

definition stock_outcome ::
  "(ram \<Rightarrow> nat \<Rightarrow> bool) \<Rightarrow> mtd_info \<Rightarrow> 'x ubi_world_scheme \<Rightarrow> int option \<Rightarrow> 'x ubi_world_scheme \<Rightarrow> bool" where
  "stock_outcome V mtd w r w' \<longleftrightarrow> nand w' = nand w \<and> media w' = media w \<and>
     (case r of Some c \<Rightarrow> c = CMD_RET_FAILURE \<and> booted w' = booted w
      | None \<Rightarrow> booted w' = Some FIT_LOAD_ADDR \<and> V (ram w') FIT_LOAD_ADDR \<and> loaded_fit mtd w (ram w'))"

definition stock_view :: "'x ubi_world_scheme \<Rightarrow> _" where
  "stock_view w = (nand w, media w, bad_blocks w, booted w)"

lemma stock_view_ignores [simp]:
  "ignores_time stock_view" "ignores_hung stock_view"
  by (simp_all add: stock_view_def view_defs)

lemma stock_load_sound:
  fixes w u v :: "'x ubi_world_scheme"
  assumes v: "stock_view v = stock_view w" and u: "stock_view u = stock_view w"
    and c: "slot_accepted mtd u base (if bf then sl else ma)" "ss_bad_blocks (if bf then sl else ma) = 0"
    and geo: "mtd_size mtd < 2 ^ 64" "0 < erasesize mtd" "erasesize mtd dvd mtd_offset mtd"
  shows "wp (stock_load V mtd ma sl bf) (stock_outcome V mtd w) v"
  unfolding stock_load_def Let_def
proof (rule wp_bindI [OF wp_conj [OF wp_read_range keeps_wp [OF keeps_read_range [of stock_view]]]], simp, simp, clarify)
  let ?c = "if bf then sl else ma"
  fix r d and v' :: "'x ubi_world_scheme"
  assume v': "stock_view v' = stock_view v"
    and d: "r = 0 \<longrightarrow> d = mem_read (mtd_offset mtd + ss_fit_phys ?c) (ss_fit_size ?c) (nand v)
            \<and> (0 < ss_fit_size ?c \<longrightarrow> ss_fit_phys ?c + ss_fit_size ?c \<le> mtd_size mtd)"
  let ?v = "v'\<lparr>ram := mem_write FIT_LOAD_ADDR d (ram v')\<rparr>"
  note same = v [unfolded stock_view_def] v' [unfolded stock_view_def] u [unfolded stock_view_def]
  have "wp (stock_start V mtd ma sl bf) (stock_outcome V mtd w) ?v"
    if "r = 0" "fdt_check_header FIT_LOAD_ADDR (mem_read FIT_LOAD_ADDR FDT_V17_SIZE (ram ?v)) = 0"
      "fdt_totalsize (mem_read FIT_LOAD_ADDR FDT_V17_SIZE (ram ?v)) = ss_fit_size ?c"
  proof -
    have "loaded_fit mtd w (ram ?v)"
      unfolding loaded_fit_def
      by (rule exI [of _ "ss_fit_phys ?c"], rule exI [of _ "ss_fit_size ?c"])
        (use that d same c geo in \<open>auto simp: slot_accepted_def\<close>)
    then show ?thesis
      using same by (auto intro!: wp_mono [OF stock_start_sound] simp: stock_outcome_def split: option.splits)
  qed
  then show "wp (do {
       ram_write FIT_LOAD_ADDR d;
       if r \<noteq> 0 then ret (Some CMD_RET_FAILURE)
       else do {
         h \<leftarrow> fdt_check_header_at FIT_LOAD_ADDR;
         f \<leftarrow> ram_read FIT_LOAD_ADDR FDT_V17_SIZE;
         if h \<noteq> 0 \<or> fdt_totalsize f \<noteq> ss_fit_size ?c then ret (Some CMD_RET_FAILURE)
         else stock_start V mtd ma sl bf
       }
     }) (stock_outcome V mtd w) v'"
    using same by (auto simp: ram_write_def fdt_check_header_at_def stock_outcome_def)
qed

text \<open>
  C13: \<open>ursusstockboot\<close> never writes the flash, whatever happens.  When it passes control to a kernel,
  the FIT it starts is one that \<open>fit_all_image_verify\<close> has accepted in the RAM that \<open>bootm\<close> sees, its
  header is valid, and it is byte for byte the contents of a range of the chip that holds no bad block
  and fits the load area.  In every other case it returns failure and no kernel has been started.
  The chip is assumed to have the geometry of a device: a size below 2^64 and erase blocks that divide
  its offset.
\<close>

theorem stock_boot_starts_only_verified:
  fixes w :: "'x ubi_world_scheme"
  assumes chip: "stock_chip w = Some mtd"
    and geo: "mtd_size mtd < 2 ^ 64" "0 < erasesize mtd" "erasesize mtd dvd mtd_offset mtd"
  shows "wp (do_ursusstockboot V sp argv)
    (\<lambda>r w'. nand w' = nand w \<and> media w' = media w \<and>
       (case r of Some c \<Rightarrow> c = CMD_RET_FAILURE \<and> booted w' = booted w
        | None \<Rightarrow> booted w' = Some FIT_LOAD_ADDR \<and> V (ram w') FIT_LOAD_ADDR \<and> loaded_fit mtd w (ram w'))) w"
proof -
  have insp: "keeps stock_view (inspect_slot sp mtd s)" for s
    by (intro keeps_intros) simp_all
  have fail: "stock_outcome V mtd w (Some CMD_RET_FAILURE) v" if "stock_view v = stock_view w" for v
    using that by (simp add: stock_outcome_def stock_view_def)
  have "wp (do_ursusstockboot V sp argv) (stock_outcome V mtd w) w"
    unfolding do_ursusstockboot_def ursus_find_master_nand_def
    by (rule wp_bindI [where P = "\<lambda>c v. c = Some mtd \<and> v = w"], use chip in \<open>simp add: stock_chip_def\<close>,
        clarsimp simp del: wp_bind,
        rule wp_bindI [OF wp_conj [OF wp_inspect_slot keeps_wp [OF insp]]], clarsimp simp del: wp_bind,
        rule wp_bindI [OF wp_conj [OF wp_inspect_slot keeps_wp [OF insp]]], clarsimp simp del: wp_bind)
      (auto simp del: wp_bind simp: Let_def fresh_slot_def intro: fail
        stock_load_sound [where bf = True, simplified, OF _ _ _ _ geo [simplified]]
        stock_load_sound [where bf = False, simplified, OF _ _ _ _ geo [simplified]])
  then show ?thesis by (simp add: stock_outcome_def [abs_def])
qed

section \<open>Kernel arguments and environment\<close>

definition arg_text :: "string \<times> string option \<Rightarrow> string" where
  "arg_text kv = (case kv of (k, Some v) \<Rightarrow> if v = [] then [] else k @ ''='' @ v @ '' '' | (k, None) \<Rightarrow> [])"

lemma append_args_ok:
  "append_args dst cap kvs = (0, out) \<Longrightarrow> length dst < cap \<Longrightarrow>
   out = dst @ concat (map arg_text kvs) \<and> length out < cap"
proof (induction kvs arbitrary: dst)
  case (Cons kv kvs)
  obtain k v where kv: "kv = (k, v)" by fastforce
  have a: "append_arg dst cap k v = (0, dst @ arg_text kv) \<and> length (dst @ arg_text kv) < cap"
    if "fst (append_arg dst cap k v) = 0"
    using that Cons.prems(2)
    by (auto simp: append_arg_def arg_text_def snprintf_def kv Let_def split: option.splits if_splits)
  show ?case
    using Cons.prems(1) a Cons.IH [of "dst @ arg_text kv"]
    by (auto simp: kv split: prod.splits if_splits)
qed simp

text \<open>
  C33: the kernel arguments never outgrow their buffer and lose nothing: when the builder reports
  success, the result is the list of all non-empty settings in order, each as \<open>key=value\<close> with a
  space, and it fits with its terminator into the buffer of \<open>BOOTARGS_MAX\<close> bytes.
\<close>

theorem bootargs_complete:
  assumes "build_stock_bootargs se master slave layout bootflag BOOTARGS_MAX = (0, out)"
  shows "out = concat (map arg_text (bootargs_list se master slave layout bootflag)) \<and> length out < BOOTARGS_MAX"
proof -
  have "length ([] :: string) < BOOTARGS_MAX" by (simp add: BOOTARGS_MAX_def)
  from append_args_ok [OF assms [unfolded build_stock_bootargs_def] this] show ?thesis unfolding append_Nil .
qed

definition sample_layout :: stock_layout where
  "sample_layout = \<lparr>kernel_off = 0x4cc4, kernel_size = 0x3aa916, rootfs_off = 0x3af6d8, rootfs_size = 0x1cb6bdd\<rparr>"

definition sample_args :: string where
  "sample_args = ''root=/dev/mtdblock3 ro console=ttyS0,115200n8 earlycon serdes_wifi1=05 serdes_wifi2=05 serdes_usb2=02 '' @
     ''bootflag=0 tclinux_info=0x0,0x4cc4,0x3aa916,0x3af6d8,0x1cb6bdd,0x0,0x2000,0x0,0x2000,0x0 ''"

lemma sample_args_built:
  "build_stock_bootargs \<lparr>se_buf = None, se_crc_ok = False\<rparr> (fresh_slot ''MASTER'' 0) (fresh_slot ''SLAVE'' 0)
     sample_layout False BOOTARGS_MAX = (0, sample_args)"
  by (simp add: build_stock_bootargs_def bootargs_list_def passthrough_def stock_env_get_def append_arg_def
      snprintf_def tclinux_info_def hex0x_def hex_digits.simps fresh_slot_def sample_layout_def sample_args_def
      BOOTARGS_MAX_def Let_def)

theorem bootargs_complete_witness:
  "sample_args = concat (map arg_text (bootargs_list \<lparr>se_buf = None, se_crc_ok = False\<rparr>
     (fresh_slot ''MASTER'' 0) (fresh_slot ''SLAVE'' 0) sample_layout False)) \<and> length sample_args < BOOTARGS_MAX"
  by (rule bootargs_complete [OF sample_args_built])

text \<open>An environment as the vendor tools write it: settings with terminators, an empty one, padding.\<close>

definition env_image :: "(string \<times> string) list \<Rightarrow> string \<Rightarrow> string" where
  "env_image kvs pad = concat (map (\<lambda>(k, v). k @ ''='' @ v @ [CHR 0x00]) kvs) @ CHR 0x00 # pad"

definition env_clean :: "(string \<times> string) list \<Rightarrow> bool" where
  "env_clean kvs = list_all (\<lambda>(k, v). CHR ''='' \<notin> set k \<and> CHR 0x00 \<notin> set k \<and> CHR 0x00 \<notin> set v) kvs"

lemma key_matches:
  assumes "CHR ''='' \<notin> set k" "CHR ''='' \<notin> set key"
  shows "(length (k @ ''='' @ v) > length key \<and> take (length key) (k @ ''='' @ v) = key
          \<and> (k @ ''='' @ v) ! length key = CHR ''='') = (k = key)"
proof
  assume *: "length (k @ ''='' @ v) > length key \<and> take (length key) (k @ ''='' @ v) = key
          \<and> (k @ ''='' @ v) ! length key = CHR ''=''"
  have "length k = length key"
  proof (rule linorder_cases)
    assume "length k < length key"
    then have "key ! length k = CHR ''=''"
      using * by (metis append_Cons nth_append_length nth_take)
    then show ?thesis using assms(2) \<open>length k < length key\<close> by (metis nth_mem)
  next
    assume "length key < length k"
    then have "k ! length key = CHR ''=''" using * by (simp add: nth_append)
    then show ?thesis using assms(1) \<open>length key < length k\<close> by (metis nth_mem)
  qed
  then show "k = key" using * by simp
qed simp

text \<open>
  C32: looking up a name in a vendor environment returns the value that was stored under it, the first
  one if there are several, and nothing for a name that is not there.
\<close>

theorem stock_env_roundtrip:
  assumes "env_clean kvs" "CHR ''='' \<notin> set key"
  shows "stock_env_scan key (env_image kvs pad) = map_of kvs key"
  using assms(1)
proof (induction kvs)
  case Nil
  show ?case by (subst stock_env_scan.simps) (simp add: env_image_def)
next
  case (Cons kv kvs)
  obtain k v where kv: "kv = (k, v)" by fastforce
  let ?s = "k @ ''='' @ v"
  have split: "env_image (kv # kvs) pad = ?s @ CHR 0x00 # env_image kvs pad"
    by (simp add: env_image_def kv)
  have tw: "takeWhile (\<lambda>c. c \<noteq> CHR 0x00) (?s @ CHR 0x00 # env_image kvs pad) = ?s"
    using Cons.prems by (subst takeWhile_append2) (auto simp: env_clean_def kv)
  note unf = stock_env_scan.simps [of key "?s @ CHR 0x00 # env_image kvs pad", unfolded tw Let_def]
  have clean: "CHR ''='' \<notin> set k" "env_clean kvs" using Cons.prems by (simp_all add: env_clean_def kv)
  show ?case
    unfolding split unf key_matches [OF clean(1) assms(2)] using Cons.IH [OF clean(2)] by (simp add: kv)
qed

theorem stock_env_roundtrip_witness:
  "stock_env_scan ''root'' (env_image [(''console'', ''ttyS0''), (''root'', ''/dev/x'')] ''junk'') =
   map_of [(''console'', ''ttyS0''), (''root'', ''/dev/x'')] ''root''"
  by (rule stock_env_roundtrip) (simp_all add: env_clean_def)

section \<open>Where the FIT of a slot lies\<close>


definition le_bytes :: "nat \<Rightarrow> nat \<Rightarrow> bytes" where
  "le_bytes n x = map (\<lambda>i. word_of_nat (x div 256 ^ i)) [0..<n]"

definition wrap_toc :: bytes where
  "wrap_toc = le_bytes 4 FIP_TOC_HEADER_NAME @ le_bytes 4 FIP_TOC_SERIAL @ replicate 8 0 @ nokia_nt_fw_uuid @
     le_bytes 8 0x3000000 @ le_bytes 8 0xfffffffffd000000 @ replicate 8 0"

definition wrap_chip :: mtd_info where
  "wrap_chip = \<lparr>mtd_name = ''spi-nand0'', mtd_is_partition = False, mtd_type = MTD_NANDFLASH, mtd_offset = 0,
     mtd_size = 0x10000000, erasesize = 0x20000, writesize = 0x800, mtd_writeable = True\<rparr>"

definition wrap_nand :: "nat \<Rightarrow> byte" where
  "wrap_nand = mem_write 0xc0000 wrap_toc
     (mem_write 0x30c0000 (str_bytes ''HDR2'') (mem_write 0x30c0100 sample_fdt (\<lambda>_. 0)))"

definition wrap_world :: world where
  "wrap_world = sample_world\<lparr>nand := wrap_nand, mtds := [wrap_chip]\<rparr>"

lemma mem_read_written: "k + n \<le> length xs \<Longrightarrow> mem_read (a + k) n (mem_write a xs f) = slice k n xs"
  by (rule nth_equalityI) (auto simp: mem_read_def mem_write_def slice_def)

lemma length_wrap_toc: "length wrap_toc = 56"
  by (simp add: wrap_toc_def le_bytes_def nokia_nt_fw_uuid_def)

lemma wrap_toc_slice: "k + n \<le> 56 \<Longrightarrow> slice k n (mem_read 0xc0000 4096 wrap_nand) = slice k n wrap_toc"
  unfolding wrap_nand_def by (simp only: slice_mem_read mem_read_written length_wrap_toc)

lemma wrap_header:
  "hdr_name (fip_header_at (mem_read 0xc0000 4096 wrap_nand)) = FIP_TOC_HEADER_NAME"
  "hdr_serial_number (fip_header_at (mem_read 0xc0000 4096 wrap_nand)) = FIP_TOC_SERIAL"
  by (simp_all add: fip_header_at_def le_get_def wrap_toc_slice del: One_nat_def)
    (simp_all add: wrap_toc_def le_bytes_def stock_consts slice_def upt_conv_Cons numeral_2_eq_2 [symmetric])

lemma wrap_scan:
  "stock_toc_scan MAX_TOC_ENTRIES FIP_HEADER_SIZE (mem_read 0xc0000 4096 wrap_nand) = Some (0x3000000, 0xfffffffffd000000)"
proof -
  have ent: "ent_uuid (fip_entry_at (mem_read 0xc0000 4096 wrap_nand) 16) = nokia_nt_fw_uuid"
    "ent_offset_address (fip_entry_at (mem_read 0xc0000 4096 wrap_nand) 16) = 0x3000000"
    "ent_size (fip_entry_at (mem_read 0xc0000 4096 wrap_nand) 16) = 0xfffffffffd000000"
    by (simp_all add: fip_entry_at_def le_get_def wrap_toc_slice)
      (simp_all add: wrap_toc_def le_bytes_def nokia_nt_fw_uuid_def stock_consts slice_def upt_conv_Cons
        numeral_2_eq_2 [symmetric])
  have "\<not> ursus_uuid_zero nokia_nt_fw_uuid"
    by (simp add: ursus_uuid_zero_def nokia_nt_fw_uuid_def)
  then have "stock_toc_scan (Suc 31) 16 (mem_read 0xc0000 4096 wrap_nand) = Some (0x3000000, 0xfffffffffd000000)"
    unfolding stock_toc_scan.simps by (simp add: ent FIP_ENTRY_SIZE_def FIP_TOC_READ_def)
  then show ?thesis by (simp add: MAX_TOC_ENTRIES_def FIP_HEADER_SIZE_def)
qed

lemma wrap_page:
  "take 4 (mem_read 0x30c0000 2048 wrap_nand) = str_bytes ''HDR2''"
  "slice HDR2_SIZE 64 (mem_read 0x30c0000 2048 wrap_nand) = sample_fdt @ replicate 24 0"
proof -
  have "take 4 (mem_read 0x30c0000 2048 wrap_nand) = mem_read 0x30c0000 4 wrap_nand"
    using slice_mem_read [of 0 4 2048 "0x30c0000" wrap_nand] by (simp add: slice_def)
  then show "take 4 (mem_read 0x30c0000 2048 wrap_nand) = str_bytes ''HDR2''"
    using mem_read_write_same [of "str_bytes ''HDR2''" 4 "0x30c0000"]
    by (simp add: wrap_nand_def mem_read_write_disjoint length_wrap_toc) (simp add: str_bytes_def)
  have "mem_read 0x30c0100 64 (mem_write 0x30c0100 sample_fdt (\<lambda>_. 0)) = sample_fdt @ replicate 24 0"
    by (simp add: mem_read_fill) (simp add: sample_fdt_def)
  then show "slice HDR2_SIZE 64 (mem_read 0x30c0000 2048 wrap_nand) = sample_fdt @ replicate 24 0"
    by (simp add: slice_mem_read HDR2_SIZE_def wrap_nand_def mem_read_write_disjoint length_wrap_toc str_bytes_def)
qed

lemma wrap_fit: "fdt_check_header 0 (sample_fdt @ replicate 24 0) = 0" "fdt_totalsize (sample_fdt @ replicate 24 0) = 256"
  by (simp_all add: fdt_check_header_def sample_fdt_def Let_def fdt_magic_def fdt_totalsize_def fdt_off_dt_struct_def
      fdt_off_dt_strings_def fdt_off_mem_rsvmap_def fdt_version_def fdt_last_comp_version_def
      fdt_size_dt_strings_def fdt_size_dt_struct_def be_get_def slice_def fdt_header_size_def check_off_def
      check_block_def FDT_MAGIC_def FDT_FIRST_SUPPORTED_VERSION_def FDT_LAST_SUPPORTED_VERSION_def)

text \<open>
  C26: without that assumption the check fails to keep the FIT in its slot.  An entry of the master slot
  with offset 0x3000000 and size 2^64 - 0x3000000 passes the range check, because the sum wraps to the
  base of the slot, and the FIT is taken from behind the end of the slot, in the middle of the other one.
\<close>

theorem stock_slot_range_wraps:
  "wp (inspect_slot 0 wrap_chip (fresh_slot ''MASTER'' STOCK_MASTER_BASE))
     (\<lambda>(r, s) _. r = 0 \<and> STOCK_MASTER_BASE + STOCK_SLOT_SIZE < ss_fit_phys s) wrap_world"
proof -
  have chip: "mtd_size wrap_chip = 0x10000000" "erasesize wrap_chip = 0x20000" "mtd_offset wrap_chip = 0"
    by (simp_all add: wrap_chip_def)
  have rd: "wp (ursus_read_range wrap_chip off len) Q v = Q (0, mem_read off len (nand v)) (v\<lparr>tick := tick v + 2\<rparr>)"
    if "orc v = sample_platform" "0 < len" "off + len \<le> 0x10000000" "len \<le> 0x100000" "off mod 2048 = 0" "len mod 2048 = 0"
      "2048 \<le> len"
    for off len Q and v :: world
  proof -
    have "\<not> 0x10000000 - off < len" using that by linarith
    with that show ?thesis
    by (simp add: ursus_read_range_def malloc_buf_def read_range_loop.simps ursus_read_exact_def mtd_read_def
        wrap_chip_def sample_platform_def URSUS_READ_CHUNK_def Let_def)
  qed
  show ?thesis
    unfolding inspect_slot_def inspect_payload_def Let_def
    using wrap_scan wrap_page wrap_header
    by (simp add: rd malloc_buf_def wrap_world_def sample_world_def fresh_slot_def u64_def stock_toc_fields_def
        wrap_fit count_bad_blocks_def count_bad_loop.simps mtd_block_isbad_def chip stock_consts)
      (simp add: sample_platform_def)
qed


definition stock_sample :: ubi_world where
  "stock_sample = sample_engine\<lparr>nand := wrap_nand, mtds := [wrap_chip]\<rparr>"

theorem stock_boot_starts_only_verified_witness:
  "wp (do_ursusstockboot (\<lambda>m a. m a = 0) 0 [''ursusstockboot''])
    (\<lambda>r w'. nand w' = nand stock_sample \<and> media w' = media stock_sample \<and>
       (case r of Some c \<Rightarrow> c = CMD_RET_FAILURE \<and> booted w' = booted stock_sample
        | None \<Rightarrow> booted w' = Some FIT_LOAD_ADDR \<and> ram w' FIT_LOAD_ADDR = 0 \<and> loaded_fit wrap_chip stock_sample (ram w')))
    stock_sample"
  by (rule stock_boot_starts_only_verified [where V = "\<lambda>m a. m a = 0"])
    (simp_all add: stock_sample_def stock_chip_def wrap_chip_def)

section \<open>The images inside the FIT\<close>

text \<open>
  The kernel and the root file system that are announced to the vendor kernel lie inside the FIT:
  each is a non-empty range of the loaded tree, shifted by the offset of the payload in its slot.
\<close>

theorem fit_images_inside:
  assumes "fit_image_info m fit nt_off = Inr l"
  shows "\<exists>k r. kernel_off l = u64 (k + nt_off) \<and> 0 < kernel_size l \<and> k + kernel_size l \<le> fdt_hdr fdt_totalsize m fit
    \<and> rootfs_off l = u64 (r + nt_off) \<and> 0 < rootfs_size l \<and> r + rootfs_size l \<le> fdt_hdr fdt_totalsize m fit"
proof -
  have part: "\<exists>k. off = u64 (k + nt_off) \<and> 0 < sz \<and> k + sz \<le> fdt_hdr fdt_totalsize m fit"
    if d: "fit_data m fit nt_off images nm = Inr (off, sz)" for images nm off sz
  proof -
    obtain p len where "fdt_getprop m fit (fdt_subnode_offset m fit images (str_bytes nm)) (str_bytes ''data'') = Inr (p, len)"
      and "0 < len" "off = u64 (p - fit + nt_off)" "sz = nat len"
      using d by (auto simp: fit_data_def Let_def split: sum.splits if_splits)
    then show ?thesis using fdt_getprop_inside by (intro exI [of _ "p - fit"]) fastforce
  qed
  show ?thesis
    using assms part by (fastforce simp: fit_image_info_def Let_def split: sum.splits if_splits)
qed

lemma sample_fit_info:
  "fit_image_info sample_fit_ram 0 0x100 =
     Inr \<lparr>kernel_off = 0x168, kernel_size = 4, rootfs_off = 0x190, rootfs_size = 4\<rparr>"
  by (simp add: fit_image_info_def sample_fit_header sample_fit_nodes fit_data_def sample_fit_data Let_def u64_def
      sample_fit_fields)

theorem fit_images_inside_witness:
  "\<exists>k r. (0x168 :: nat) = u64 (k + 0x100) \<and> 0 < (4 :: nat) \<and> k + 4 \<le> fdt_hdr fdt_totalsize sample_fit_ram 0
    \<and> (0x190 :: nat) = u64 (r + 0x100) \<and> 0 < (4 :: nat) \<and> r + 4 \<le> fdt_hdr fdt_totalsize sample_fit_ram 0"
  using fit_images_inside [OF sample_fit_info] by simp

end
