(* ===== verification/Dispatch.thy ===== *)
theory Dispatch
  imports Led Stock_Boot
begin

text \<open>
  The boot dispatcher (\<open>cmd/ursusdispatch.c\<close>), the command that the boot loader runs when it starts:
  a reset button held down leads to the recovery server, otherwise the installed system is started, and
  whatever returns from that ends in the recovery server too.

  The recovery server is a parameter: a program that returns a result, or does not come back (None)
  when it has passed control on.  The button driver is part of the state: the result of the lookup, and
  what each read of the button delivers.
\<close>

section \<open>State\<close>

definition URSUS_RESET_BOOT_DEBOUNCE_MS :: nat where "URSUS_RESET_BOOT_DEBOUNCE_MS = 750"
definition URSUS_FACTORY_KERNEL_OFF :: nat where "URSUS_FACTORY_KERNEL_OFF = 0x000c0000"
definition URSUS_FACTORY_KERNEL_SIZE :: nat where "URSUS_FACTORY_KERNEL_SIZE = 0x00800000"
definition URSUS_FACTORY_LOAD_ADDR :: nat where "URSUS_FACTORY_LOAD_ADDR = 0x90000000"
definition BUTTON_ON :: int where "BUTTON_ON = 1"

record dispatch_world = led_world +
  ursus_recovery_latched :: bool
  ursus_boot_reason :: string
  ursus_recovery_reason :: string
  button_lookup :: int
  button_reads :: "nat \<Rightarrow> int"

type_synonym ('x, 'a) dispatch = "('x dispatch_world_scheme, 'a) state"

text \<open>How a run ends: the command returns, control has passed on, or a wait is still going on.\<close>

datatype dispatch_end = Command_returned int | Control_passed | Still_waiting

definition set_boot_reason :: "string \<Rightarrow> ('x, unit) dispatch" where
  "set_boot_reason reason = modify (\<lambda>w. w\<lparr>ursus_boot_reason := snprintf 32 reason\<rparr>)"

definition button_get_state :: "('x, int) dispatch" where
  "button_get_state = do { t \<leftarrow> io_tick; gets (\<lambda>w. button_reads w t) }"

section \<open>What is installed\<close>

definition flash_magic :: "mtd_info option \<Rightarrow> nat \<Rightarrow> bytes \<Rightarrow> ('x world_scheme, bool) state" where
  "flash_magic chip off magic =
     (case chip of
        None \<Rightarrow> ret False
      | Some m \<Rightarrow> do {
          (r, d) \<leftarrow> mtd_read m off 4;
          ret ((r = 0 \<or> r = - EUCLEAN) \<and> length d = 4 \<and> d = magic)
        })"

definition ursus_ubi_present :: "mtd_info option \<Rightarrow> ('x world_scheme, bool) state" where
  "ursus_ubi_present chip = flash_magic chip 0x00020000 (str_bytes ''UBI#'')"

definition ursus_factory_kernel_present :: "mtd_info option \<Rightarrow> ('x world_scheme, bool) state" where
  "ursus_factory_kernel_present chip = flash_magic chip URSUS_FACTORY_KERNEL_OFF [0xd0, 0x0d, 0xfe, 0xed]"

section \<open>Recovery\<close>

text \<open>The fuel bounds the wait with the SOS pattern, which a key press ends.\<close>

definition ursus_enter_webfailsafe ::
  "nat \<Rightarrow> ('x, int option) dispatch \<Rightarrow> string \<Rightarrow> ('x, dispatch_end) dispatch" where
  "ursus_enter_webfailsafe fuel ursusweb reason = do {
     modify (\<lambda>w. w\<lparr>ursus_recovery_latched := True, ursus_recovery_reason := snprintf 32 reason\<rparr>);
     l \<leftarrow> ursus_led_recovery_latched led_fuel;
     if l = None then ret Still_waiting
     else do {
       r \<leftarrow> ursusweb;
       case r of
         None \<Rightarrow> ret Control_passed
       | Some c \<Rightarrow>
           if c = 0 then ret (Command_returned CMD_RET_SUCCESS)
           else do {
             f \<leftarrow> ursus_led_fatal_wait fuel;
             ret (if f = None then Still_waiting else Command_returned CMD_RET_FAILURE)
           }
     }
   }"

section \<open>Booting the installed system\<close>

definition factory_boot :: "mtd_info option \<Rightarrow> ('x, int option) engine" where
  "factory_boot chip = do {
     r \<leftarrow> run_mtd (Mtd_read (mtd_name (the chip)) URSUS_FACTORY_LOAD_ADDR URSUS_FACTORY_KERNEL_OFF URSUS_FACTORY_KERNEL_SIZE);
     if r = 0 then run_bootm URSUS_FACTORY_LOAD_ADDR else ret (Some r)
   }"

definition ursus_normal_boot ::
  "nat \<Rightarrow> (ram \<Rightarrow> nat \<Rightarrow> bool) \<Rightarrow> nat \<Rightarrow> ('x, int option) dispatch \<Rightarrow> ('x, dispatch_end) dispatch" where
  "ursus_normal_boot fuel fit_all_image_verify fithead_addr ursusweb = do {
     chip \<leftarrow> ursus_find_master_nand;
     set_boot_reason ''NORMAL_BOOT'';
     present \<leftarrow> ursus_ubi_present chip;
     if present then do {
       r \<leftarrow> ursus_ubi_boot;
       reason \<leftarrow> gets ursus_last_boot_reason;
       if r = None then ret Control_passed else ursus_enter_webfailsafe fuel ursusweb reason
     }
     else do {
       factory \<leftarrow> ursus_factory_kernel_present chip;
       if factory then do {
         r \<leftarrow> factory_boot chip;
         if r = None then ret Control_passed else ursus_enter_webfailsafe fuel ursusweb ''FACTORY_BOOT_RETURN''
       }
       else do {
         r \<leftarrow> do_ursusstockboot fit_all_image_verify fithead_addr [''ursusstockboot''];
         if r = None then ret Control_passed else ursus_enter_webfailsafe fuel ursusweb ''STOCKBOOT_RETURN''
       }
     }
   }"

section \<open>The reset button\<close>

text \<open>
  The debouncing loop: was the button down until the end, and for how long.  It is bounded by fuel; 40
  turns of 20 milliseconds always suffice.
\<close>

fun debounce :: "nat \<Rightarrow> nat \<Rightarrow> ('x, bool option) dispatch" where
  "debounce 0 start = ret None"
| "debounce (Suc n) start = do {
     state \<leftarrow> button_get_state;
     elapsed \<leftarrow> get_timer start;
     if state < 0 then ret (Some False)
     else if state \<noteq> BUTTON_ON then ret (Some False)
     else if elapsed \<ge> URSUS_RESET_BOOT_DEBOUNCE_MS then ret (Some True)
     else do { mdelay 20; debounce n start }
   }"

definition debounce_fuel :: nat where "debounce_fuel = 40"

definition do_ursusdispatch ::
  "nat \<Rightarrow> (ram \<Rightarrow> nat \<Rightarrow> bool) \<Rightarrow> nat \<Rightarrow> ('x, int option) dispatch \<Rightarrow> ('x, dispatch_end) dispatch" where
  "do_ursusdispatch fuel fit_all_image_verify fithead_addr ursusweb = do {
     latched \<leftarrow> gets ursus_recovery_latched;
     if latched then ursus_enter_webfailsafe fuel ursusweb ''STICKY_REENTRY''
     else do {
       r \<leftarrow> gets button_lookup;
       if r \<noteq> 0 then ursus_normal_boot fuel fit_all_image_verify fithead_addr ursusweb
       else do {
         state \<leftarrow> button_get_state;
         if state < 0 then ursus_normal_boot fuel fit_all_image_verify fithead_addr ursusweb
         else if state \<noteq> BUTTON_ON then ursus_normal_boot fuel fit_all_image_verify fithead_addr ursusweb
         else do {
           start \<leftarrow> get_timer 0;
           held \<leftarrow> debounce debounce_fuel start;
           case held of
             None \<Rightarrow> ret Still_waiting
           | Some False \<Rightarrow> ursus_normal_boot fuel fit_all_image_verify fithead_addr ursusweb
           | Some True \<Rightarrow> do {
               set_boot_reason ''RESET_BUTTON'';
               ursus_enter_webfailsafe fuel ursusweb ''RESET_HELD_AT_BOOT''
             }
         }
       }
     }
   }"

section \<open>Frames of the lights\<close>

definition ignores_led :: "('x led_world_scheme \<Rightarrow> 'v) \<Rightarrow> bool" where
  "ignores_led f \<longleftrightarrow>
     (\<forall>w p i t r u v d l. f (w\<lparr>active_pattern := p, active_step := i, next_change_ms := t\<rparr>) = f w
        \<and> f (w\<lparr>active_pattern := p\<rparr>) = f w \<and> f (w\<lparr>active_step := i\<rparr>) = f w \<and> f (w\<lparr>next_change_ms := t\<rparr>) = f w
        \<and> f (w\<lparr>next_change_ms := t, active_step := i\<rparr>) = f w
        \<and> f (w\<lparr>status_red := r\<rparr>) = f w \<and> f (w\<lparr>usb1_green := u\<rparr>) = f w \<and> f (w\<lparr>usb2_green := v\<rparr>) = f w
        \<and> f (w\<lparr>led_lookup_done := d\<rparr>) = f w \<and> f (w\<lparr>led_log := l\<rparr>) = f w)"

lemma keeps_led_start: "ignores_time f \<Longrightarrow> ignores_led f \<Longrightarrow> keeps f (ursus_led_start p)"
  unfolding ursus_led_start_def ursus_led_lookup_def led_get_by_label_def when_m_def
  by (intro keeps_intros) (simp_all add: ignores_led_def)

lemma keeps_led_poll: "ignores_time f \<Longrightarrow> ignores_led f \<Longrightarrow> keeps f ursus_led_poll"
  unfolding ursus_led_poll_def ursus_led_one_def ursus_led_usb_pair_def led_next_def led_set_state_def when_m_def Let_def
  by (intro keeps_intros) (simp_all add: ignores_led_def)

lemma keeps_led_play: "ignores_time f \<Longrightarrow> ignores_led f \<Longrightarrow> keeps f (led_play n)"
proof (induction n)
  case (Suc n)
  then show ?case
    unfolding led_play.simps when_m_def by (intro keeps_intros keeps_led_poll) simp_all
qed (simp add: keeps_return)

lemma keeps_led_recovery [keeps_intros]:
  "ignores_time f \<Longrightarrow> ignores_led f \<Longrightarrow> keeps f (ursus_led_recovery_latched n)"
  unfolding ursus_led_recovery_latched_def by (intro keeps_intros keeps_led_start keeps_led_play)

lemma keeps_led_fatal_wait [keeps_intros]:
  assumes "ignores_time f" "ignores_led f" shows "keeps f (ursus_led_fatal_wait n)"
proof -
  have "keeps f (led_fatal_loop n)"
  proof (induction n)
    case (Suc n)
    then show ?case
      unfolding led_fatal_loop.simps ctrlc_def by (intro keeps_intros keeps_led_poll assms)
  qed (simp add: keeps_return)
  then show ?thesis
    unfolding ursus_led_fatal_wait_def by (intro keeps_intros keeps_led_start assms)
qed

text \<open>The latch and the record of started kernels are untouched by the lights.\<close>

lemma latch_views:
  "ignores_time ursus_recovery_latched" "ignores_led ursus_recovery_latched"
  "ignores_time booted" "ignores_led booted"
  by (simp_all add: view_defs ignores_led_def)

section \<open>Properties\<close>

lemma enter_latches:
  fixes web :: "('x, int option) dispatch"
  assumes "keeps ursus_recovery_latched web"
  shows "wp (ursus_enter_webfailsafe fuel web reason) (\<lambda>_ w'. ursus_recovery_latched w') w"
  unfolding ursus_enter_webfailsafe_def
  by (rule wp_bindI [where P = "\<lambda>_ v. ursus_recovery_latched v"], simp,
      rule wp_mono [OF keeps_wp [of ursus_recovery_latched]]) (intro keeps_intros latch_views assms, simp)

lemma keeps_enter:
  assumes "ignores_time f" "ignores_led f" "keeps f web"
    "\<And>w b r. f (w\<lparr>ursus_recovery_latched := b, ursus_recovery_reason := r\<rparr>) = f w"
  shows "keeps f (ursus_enter_webfailsafe fuel web reason)"
  unfolding ursus_enter_webfailsafe_def by (intro keeps_intros assms)

text \<open>
  C16: the dispatcher never returns to the console without having latched recovery: whatever the button,
  the flash and the kernels do, the run ends with control passed to a kernel or with the latch set.
  The recovery server is assumed not to clear the latch, a variable of the dispatcher's own file.
\<close>

theorem dispatch_returns_latched:
  fixes web :: "('x, int option) dispatch"
  assumes web: "keeps ursus_recovery_latched web"
  shows "wp (do_ursusdispatch fuel V sp web) (\<lambda>r w'. r \<noteq> Control_passed \<and> r \<noteq> Still_waiting \<longrightarrow> ursus_recovery_latched w') w"
proof -
  let ?Q = "\<lambda>r (w' :: 'x dispatch_world_scheme). r \<noteq> Control_passed \<and> r \<noteq> Still_waiting \<longrightarrow> ursus_recovery_latched w'"
  have enter: "wp (ursus_enter_webfailsafe fuel web reason) ?Q v" for reason v
    by (rule wp_mono [OF enter_latches [OF web]]) simp
  have normal: "wp (ursus_normal_boot fuel V sp web) ?Q v" for v
    unfolding ursus_normal_boot_def by (auto simp del: wp_bind intro!: wp_bind_any enter)
  show ?thesis
    unfolding do_ursusdispatch_def
    by (auto simp del: wp_bind intro!: wp_bind_any enter normal split: option.split bool.split)
qed


text \<open>The debouncing loop from a given moment on.\<close>

lemma debounce_ends:
  "start \<le> clock w \<Longrightarrow> 750 \<le> clock w - start + 20 * n \<Longrightarrow> wp (debounce (Suc n) start) (\<lambda>r _. r \<noteq> None) w"
proof (induction n arbitrary: w)
  case 0
  then show ?case
    by (auto simp: button_get_state_def get_timer_def URSUS_RESET_BOOT_DEBOUNCE_MS_def)
next
  case (Suc n)
  show ?case
    unfolding debounce.simps(2) [of "Suc n"]
    using Suc by (auto simp: button_get_state_def get_timer_def mdelay_def simp del: debounce.simps)
qed

text \<open>
  The debouncing loop ends whatever the button does: 40 turns are always enough, because each takes
  at least 20 of the 750 milliseconds.
\<close>

theorem debounce_terminates:
  "wp (do { start \<leftarrow> get_timer 0; debounce debounce_fuel start }) (\<lambda>r _. r \<noteq> None) w"
  using debounce_ends [of "clock w" w 39] by (simp add: get_timer_def debounce_fuel_def)

text \<open>What the button loop leaves alone, and how far the clock can go when a read takes at most \<open>m\<close>.\<close>

definition calm_view :: "'x dispatch_world_scheme \<Rightarrow> _" where
  "calm_view w = (button_lookup w, button_reads w, orc w, booted w, ursus_recovery_latched w, nand w, media w)"

lemma debounce_held:
  assumes "\<And>t. button_reads w t = BUTTON_ON" "\<And>t. elapse (orc w) t \<le> m"
    and "start \<le> clock w" "750 \<le> clock w - start + 20 * n"
  shows "wp (debounce (Suc n) start)
    (\<lambda>r w'. r = Some True \<and> calm_view w' = calm_view w \<and> clock w' \<le> clock w + Suc n * (m + 20)) w"
  using assms
proof (induction n arbitrary: w)
  case 0
  then show ?case
    by (auto simp: button_get_state_def get_timer_def URSUS_RESET_BOOT_DEBOUNCE_MS_def BUTTON_ON_def calm_view_def
        intro: le_SucI trans_le_add1)
next
  case (Suc n)
  let ?e = "elapse (orc w) (tick w)"
  let ?v = "w\<lparr>tick := Suc (tick w), clock := clock w + ?e + 20\<rparr>"
  have "wp (debounce (Suc n) start)
      (\<lambda>r w'. r = Some True \<and> calm_view w' = calm_view ?v \<and> clock w' \<le> clock ?v + Suc n * (m + 20)) ?v"
    using Suc.prems by (intro Suc.IH) auto
  then have "wp (debounce (Suc n) start)
      (\<lambda>r w'. r = Some True \<and> calm_view w' = calm_view w \<and> clock w' \<le> clock w + Suc (Suc n) * (m + 20)) ?v"
    by (rule wp_mono) (use Suc.prems(2) [of "tick w"] in \<open>auto simp: calm_view_def\<close>)
  then show ?case
    unfolding debounce.simps(2) [of "Suc n"]
    using Suc.prems(1,2) [of "tick w"]
    by (auto simp: button_get_state_def get_timer_def mdelay_def BUTTON_ON_def calm_view_def simp del: debounce.simps
        intro: trans_le_add1)
qed

definition reason_view :: "'x dispatch_world_scheme \<Rightarrow> _" where
  "reason_view w = (booted w, ursus_recovery_latched w, ursus_boot_reason w, ursus_recovery_reason w)"

lemma reason_view_ignores: "ignores_time reason_view" "ignores_led reason_view"
  by (simp_all add: reason_view_def view_defs ignores_led_def)

lemma enter_recovery:
  fixes web :: "('x, int option) dispatch"
  assumes "\<And>t. elapse (orc w) t \<le> m" "clock w + 3 * m + 2700 < 2 ^ 63"
    and web: "\<And>v. fst (run_state web v) = Some 0" "keeps reason_view web"
  shows "wp (ursus_enter_webfailsafe fuel web reason) (\<lambda>r w'. r = Command_returned CMD_RET_SUCCESS
      \<and> reason_view w' = (booted w, True, ursus_boot_reason w, snprintf 32 reason)) w"
proof -
  let ?v = "w\<lparr>ursus_recovery_latched := True, ursus_recovery_reason := snprintf 32 reason\<rparr>"
  have led: "wp (ursus_led_recovery_latched led_fuel) (\<lambda>r v. r = Some () \<and> reason_view v = reason_view ?v) ?v"
    by (rule wp_conj [OF wp_mono [OF led_recovery_plays] keeps_wp [OF keeps_led_recovery]])
      (use assms reason_view_ignores in auto)
  have server: "wp web (\<lambda>r v'. r = Some 0 \<and> reason_view v' = reason_view v) v" for v
    by (rule wp_conj [OF _ keeps_wp [OF web(2)]]) (use web(1) [of v] in \<open>auto simp: wp_def split: prod.split\<close>)
  show ?thesis
    unfolding ursus_enter_webfailsafe_def
    by (auto simp: reason_view_def intro!: wp_mono [OF led] wp_mono [OF server])
qed


text \<open>
  C17: booting the OpenWrt layout starts a kernel only from a FIT in RAM whose header has just been
  checked; in every other case it returns an error, never 0, and no kernel has been started.
\<close>

theorem ubi_boot_starts_checked_fit:
  "wp ursus_ubi_boot (\<lambda>r w'. case r of
       None \<Rightarrow> booted w' = Some URSUS_UBI_BOOT_ADDR
               \<and> fdt_check_header URSUS_UBI_BOOT_ADDR (mem_read URSUS_UBI_BOOT_ADDR FDT_V17_SIZE (ram w')) = 0
     | Some c \<Rightarrow> c \<noteq> 0) w"
proof -
  let ?Q = "\<lambda>r w'. case r of
       None \<Rightarrow> booted w' = Some URSUS_UBI_BOOT_ADDR
               \<and> fdt_check_header URSUS_UBI_BOOT_ADDR (mem_read URSUS_UBI_BOOT_ADDR FDT_V17_SIZE (ram w')) = 0
     | Some c \<Rightarrow> c \<noteq> 0"
  have fail: "wp (boot_fail r reason) ?Q v" for r reason v
    by (simp add: boot_fail_def ursus_set_boot_reason_def)
  have vol: "wp (boot_volume n) ?Q v" for n v
    unfolding boot_volume_def
    by (rule wp_bind_any) (auto simp: boot_fail_def ursus_set_boot_reason_def env_get_hex_def fdt_check_header_at_def run_bootm_def)
  show ?thesis
    unfolding ursus_ubi_boot_def by (auto simp del: wp_bind intro!: wp_bind_any fail vol)
qed

section \<open>A powered-on device\<close>

definition sample_dispatch :: "bool \<Rightarrow> dispatch_world" where
  "sample_dispatch latched =
     led_world.extend sample_led (dispatch_world.fields latched ''POWER_ON'' ''NONE'' 0 (\<lambda>_. BUTTON_ON))"

lemma sample_dispatch_simps [simp]:
  "orc (sample_dispatch b) = sample_platform" "clock (sample_dispatch b) = 0" "booted (sample_dispatch b) = None"
  "ursus_recovery_latched (sample_dispatch b) = b" "button_lookup (sample_dispatch b) = 0"
  "button_reads (sample_dispatch b) = (\<lambda>_. BUTTON_ON)"
  by (simp_all add: sample_dispatch_def sample_led_def sample_engine_def sample_world_def world.extend_def ubi_world.extend_def
      fip_world.extend_def led_world.extend_def ubi_world.fields_def fip_world.fields_def led_world.fields_def
      dispatch_world.fields_def)

theorem dispatch_returns_latched_witness:
  "wp (do_ursusdispatch 5 (\<lambda>_ _. False) 0 (ret (Some 0)))
     (\<lambda>r w'. r \<noteq> Control_passed \<and> r \<noteq> Still_waiting \<longrightarrow> ursus_recovery_latched w') (sample_dispatch False)"
  by (rule dispatch_returns_latched) (rule keeps_return)



end
