(* ===== verification/Web_Image.thy ===== *)
theory Web_Image
  imports Fit_Image Crc32 Web_Http Dispatch
begin

text \<open>
  How the recovery server (\<open>cmd/ursusweb.c\<close>) classifies a staged file: the fwtool trailer with its
  checksum and the list of supported devices, the tar container of a sysupgrade image for the vendor's
  layout, FITs, and what each class is accepted for.  The staged bytes are a range of RAM.
\<close>

section \<open>Constants and state\<close>

definition URSUS_STAGE_ADDR :: nat where "URSUS_STAGE_ADDR = 0x90000000"
definition URSUS_STAGE_MAX :: nat where "URSUS_STAGE_MAX = 0x04000000"
definition URSUS_FWTOOL_MAGIC :: nat where "URSUS_FWTOOL_MAGIC = 0x46577830"
definition URSUS_FWTOOL_INFO :: nat where "URSUS_FWTOOL_INFO = 1"
definition FDT_HEADER_SIZE :: nat where "FDT_HEADER_SIZE = 40"

definition URSUS_RC_OK :: string where "URSUS_RC_OK = ''OK''"
definition URSUS_RC_UPLOAD_INCOMPLETE :: string where "URSUS_RC_UPLOAD_INCOMPLETE = ''UPLOAD_INCOMPLETE''"
definition URSUS_RC_BAD_CONTAINER :: string where "URSUS_RC_BAD_CONTAINER = ''BAD_CONTAINER''"
definition URSUS_RC_BAD_FIT :: string where "URSUS_RC_BAD_FIT = ''BAD_FIT''"
definition URSUS_RC_HASH_MISMATCH :: string where "URSUS_RC_HASH_MISMATCH = ''HASH_MISMATCH''"
definition URSUS_RC_METADATA_MISSING :: string where "URSUS_RC_METADATA_MISSING = ''METADATA_MISSING''"
definition URSUS_RC_DEVICE_MISMATCH :: string where "URSUS_RC_DEVICE_MISMATCH = ''DEVICE_MISMATCH''"
definition URSUS_RC_UNSUPPORTED_CLASS :: string where "URSUS_RC_UNSUPPORTED_CLASS = ''UNSUPPORTED_IMAGE_CLASS''"
definition URSUS_RC_IMAGE_TOO_LARGE :: string where "URSUS_RC_IMAGE_TOO_LARGE = ''IMAGE_TOO_LARGE''"
definition URSUS_RC_LAYOUT_UNSUPPORTED :: string where "URSUS_RC_LAYOUT_UNSUPPORTED = ''LAYOUT_UNSUPPORTED''"

lemmas reason_classes = URSUS_RC_OK_def URSUS_RC_UPLOAD_INCOMPLETE_def URSUS_RC_BAD_CONTAINER_def
  URSUS_RC_BAD_FIT_def URSUS_RC_HASH_MISMATCH_def URSUS_RC_METADATA_MISSING_def URSUS_RC_DEVICE_MISMATCH_def
  URSUS_RC_UNSUPPORTED_CLASS_def URSUS_RC_IMAGE_TOO_LARGE_def URSUS_RC_LAYOUT_UNSUPPORTED_def

datatype ursus_image_type =
  URSUS_IMG_NONE | URSUS_IMG_NONUBI_SYSUPGRADE | URSUS_IMG_UBI_SYSUPGRADE | URSUS_IMG_FACTORY_KERNEL
| URSUS_IMG_FACTORY_ROOTFS | URSUS_IMG_FIT | URSUS_IMG_INVALID

record ursus_image_state =
  im_type :: ursus_image_type
  im_addr :: nat
  im_len :: nat
  im_metadata_present :: bool
  im_metadata_valid :: bool
  im_device_compatible :: bool
  im_fit_valid :: bool
  im_fit_hashes_valid :: bool
  im_kernel_found :: bool
  im_fdt_found :: bool
  im_root_found :: bool
  im_kernel_arch_valid :: bool
  im_fdt_compatible :: bool
  im_fdt_is_stock :: bool
  im_fdt_is_ubi :: bool
  im_bootable_fit :: bool
  im_kernel_size :: nat
  im_fdt_size :: nat
  im_root_size :: nat
  im_kernel_off :: nat
  im_root_off :: nat
  im_reason_class :: string
  im_reason :: string

definition zero_img :: ursus_image_state where
  "zero_img =
     \<lparr>im_type = URSUS_IMG_NONE, im_addr = 0, im_len = 0, im_metadata_present = False, im_metadata_valid = False,
      im_device_compatible = False, im_fit_valid = False, im_fit_hashes_valid = False, im_kernel_found = False,
      im_fdt_found = False, im_root_found = False, im_kernel_arch_valid = False, im_fdt_compatible = False,
      im_fdt_is_stock = False, im_fdt_is_ubi = False, im_bootable_fit = False, im_kernel_size = 0, im_fdt_size = 0,
      im_root_size = 0, im_kernel_off = 0, im_root_off = 0, im_reason_class = [], im_reason = []\<rparr>"

record image_world = dispatch_world +
  ursus_web_log :: string
  ursus_img :: ursus_image_state
  ursus_expert_img :: ursus_image_state
  ursus_current_layout :: string

type_synonym ('x, 'a) web = "('x image_world_scheme, 'a) state"

text \<open>Logging; the argument is the list of pieces that the format puts together.\<close>

definition ursus_logf :: "string list \<Rightarrow> ('x, unit) web" where
  "ursus_logf pieces = modify (\<lambda>w. w\<lparr>ursus_web_log := log_append (ursus_web_log w) (concat pieces)\<rparr>)"

definition ursus_log_reset :: "('x, unit) web" where
  "ursus_log_reset = modify (\<lambda>w. w\<lparr>ursus_web_log := []\<rparr>)"

definition pu :: "nat \<Rightarrow> string" where
  "pu n = dec_digits (n mod 2 ^ 32)"

definition pb :: "bool \<Rightarrow> string" where
  "pb b = (if b then ''1'' else ''0'')"

fun ursus_image_name :: "ursus_image_type \<Rightarrow> string" where
  "ursus_image_name URSUS_IMG_NONUBI_SYSUPGRADE = ''OPENWRT_NONUBI_SYSUPGRADE''"
| "ursus_image_name URSUS_IMG_UBI_SYSUPGRADE = ''OPENWRT_UBI_SYSUPGRADE''"
| "ursus_image_name URSUS_IMG_FACTORY_KERNEL = ''OPENWRT_FACTORY_KERNEL''"
| "ursus_image_name URSUS_IMG_FACTORY_ROOTFS = ''OPENWRT_FACTORY_ROOTFS''"
| "ursus_image_name URSUS_IMG_FIT = ''GENERIC_FIT''"
| "ursus_image_name URSUS_IMG_INVALID = ''INVALID''"
| "ursus_image_name URSUS_IMG_NONE = ''NONE''"

definition ursus_set_reason :: "ursus_image_state \<Rightarrow> string \<Rightarrow> string \<Rightarrow> ursus_image_state" where
  "ursus_set_reason s reason_class reason =
     s\<lparr>im_reason_class := snprintf 32 reason_class, im_reason := snprintf 160 reason\<rparr>"

definition no_staged_image :: ursus_image_state where
  "no_staged_image = ursus_set_reason zero_img URSUS_RC_OK ''no staged image''"

definition no_initramfs :: ursus_image_state where
  "no_initramfs = ursus_set_reason zero_img URSUS_RC_OK ''no initramfs/FIT selected''"

definition ursus_reset_image_state :: "('x, unit) web" where
  "ursus_reset_image_state = modify (\<lambda>w. w\<lparr>ursus_img := no_staged_image\<rparr>)"

definition ursus_reset_expert_state :: "('x, unit) web" where
  "ursus_reset_expert_state = modify (\<lambda>w. w\<lparr>ursus_expert_img := no_initramfs\<rparr>)"

section \<open>The fwtool trailer\<close>

definition ursus_be32 :: "ram \<Rightarrow> nat \<Rightarrow> nat" where
  "ursus_be32 m p = unat (m p) * 2 ^ 24 + unat (m (p + 1)) * 2 ^ 16 + unat (m (p + 2)) * 2 ^ 8 + unat (m (p + 3))"

definition ursus_crc32_fwtool :: "32 word \<Rightarrow> bytes \<Rightarrow> 32 word" where
  "ursus_crc32_fwtool crc buf =
     fold (\<lambda>b crc. ((\<lambda>c. drop_bit 1 c XOR (if c AND 1 \<noteq> 0 then 0xedb88320 else 0)) ^^ 8) (crc XOR ucast b)) buf crc"

record ursus_meta =
  me_found :: bool
  me_crc_ok :: bool
  me_supported_devices_present :: bool
  me_device_factory :: bool
  me_device_ubi :: bool
  me_json_off :: nat
  me_json_len :: nat

definition zero_meta :: ursus_meta where
  "zero_meta = \<lparr>me_found = False, me_crc_ok = False, me_supported_devices_present = False,
                me_device_factory = False, me_device_ubi = False, me_json_off = 0, me_json_len = 0\<rparr>"

definition ursus_json_ws :: "bytes \<Rightarrow> bytes" where
  "ursus_json_ws p = dropWhile (\<lambda>b. b = 0x20 \<or> b = 0x09 \<or> b = 0x0d \<or> b = 0x0a) p"

text \<open>
  The elements of the array of devices: whether the array is well formed, and which of the two names
  of the board were seen before it ended.
\<close>

function json_devices :: "bytes \<Rightarrow> bool \<Rightarrow> bool \<Rightarrow> bool \<times> bool \<times> bool" where
  "json_devices p factory on_ubi =
     (case ursus_json_ws p of
        [] \<Rightarrow> (False, factory, on_ubi)
      | c # p1 \<Rightarrow>
          if c = 0x5d then (True, factory, on_ubi)
          else if c \<noteq> 0x22 then (False, factory, on_ubi)
          else let v = takeWhile (\<lambda>b. b \<noteq> 0x22 \<and> b \<noteq> 0x5c \<and> \<not> b < 0x20) p1
               in case drop (length v) p1 of
                    [] \<Rightarrow> (False, factory, on_ubi)
                  | q # p2 \<Rightarrow>
                      if q \<noteq> 0x22 then (False, factory, on_ubi)
                      else let factory' = (factory \<or> v = str_bytes ''nokia,xg-040g-md'');
                               on_ubi' = (on_ubi \<or> v = str_bytes ''nokia,xg-040g-md-ubi'')
                           in case ursus_json_ws p2 of
                                [] \<Rightarrow> (False, factory', on_ubi')
                              | c2 # p3 \<Rightarrow>
                                  if c2 = 0x2c then json_devices p3 factory' on_ubi'
                                  else (c2 = 0x5d, factory', on_ubi'))"
  by pat_completeness auto

lemma length_json_ws: "length (ursus_json_ws p) \<le> length p"
  by (simp add: ursus_json_ws_def length_dropWhile_le)

termination json_devices
proof (relation "measure (\<lambda>(p, _, _). length p)", goal_cases)
  case (2 p factory ubi' c p1 v q p2 fa ub c2 p3)
  have "length (c # p1) \<le> length p" using length_json_ws [of p] 2(1) by simp
  moreover have "length (q # p2) \<le> length p1" using 2(5) by (metis length_drop diff_le_self)
  moreover have "length (c2 # p3) \<le> length p2" using length_json_ws [of p2] 2(9) by simp
  ultimately show ?case by simp
qed simp

declare json_devices.simps [simp del]

text \<open>The text behind the first occurrence of the key.\<close>

fun json_find :: "bytes \<Rightarrow> bytes \<Rightarrow> bytes option" where
  "json_find key [] = (if key = [] then Some [] else None)"
| "json_find key (b # p) =
     (if length (b # p) < length key then None
      else if take (length key) (b # p) = key then Some (drop (length key) (b # p))
      else json_find key p)"

definition ursus_json_exact_supported_devices :: "bytes \<Rightarrow> bool \<times> bool \<times> bool" where
  "ursus_json_exact_supported_devices json =
     (case json_find (0x22 # str_bytes ''supported_devices'' @ [0x22]) json of
        None \<Rightarrow> (False, False, False)
      | Some p \<Rightarrow>
          (case ursus_json_ws p of
             [] \<Rightarrow> (False, False, False)
           | c # p1 \<Rightarrow>
               if c \<noteq> 0x3a then (False, False, False)
               else case ursus_json_ws p1 of
                      [] \<Rightarrow> (False, False, False)
                    | c1 # p2 \<Rightarrow>
                        if c1 \<noteq> 0x5b then (False, False, False) else json_devices p2 False False))"

text \<open>
  The search for the trailer goes backwards from the last possible position; positions are 64-bit
  numbers that wrap.  A trailer is accepted by its magic, type and size.
\<close>

definition fwtool_addr :: "nat \<Rightarrow> 64 word \<Rightarrow> nat \<Rightarrow> nat" where
  "fwtool_addr buf pos k = unat (word_of_nat buf + pos + word_of_nat k :: 64 word)"

definition fwtool_match :: "ram \<Rightarrow> nat \<Rightarrow> 64 word \<Rightarrow> bool" where
  "fwtool_match m buf pos =
     (let sz = word_of_nat (ursus_be32 m (fwtool_addr buf pos 12)) :: 64 word
      in ursus_be32 m (fwtool_addr buf pos 0) = URSUS_FWTOOL_MAGIC
         \<and> unat (m (fwtool_addr buf pos 8)) = URSUS_FWTOOL_INFO \<and> 24 \<le> sz \<and> sz \<le> pos + 16)"

definition fwtool_found :: "ram \<Rightarrow> nat \<Rightarrow> 64 word \<Rightarrow> int \<times> ursus_meta" where
  "fwtool_found m buf pos =
     (let sz = word_of_nat (ursus_be32 m (fwtool_addr buf pos 12)) :: 64 word;
          stored_crc = ursus_be32 m (fwtool_addr buf pos 4);
          data_start = pos + 16 - sz; data_len = sz - 16;
          crc = ursus_crc32_fwtool 0xffffffff (mem_read buf (unat pos) m);
          json_off = data_start + 8; json_len = data_len - 8;
          (present, factory, on_ubi) =
            ursus_json_exact_supported_devices (mem_read (fwtool_addr buf json_off 0) (unat json_len) m)
      in if data_len < 8 then (- EINVAL, zero_meta)
         else (0, \<lparr>me_found = True, me_crc_ok = (unat crc = stored_crc), me_supported_devices_present = present,
                   me_device_factory = factory, me_device_ubi = on_ubi, me_json_off = unat json_off,
                   me_json_len = unat json_len\<rparr>))"

function fwtool_search :: "ram \<Rightarrow> nat \<Rightarrow> 64 word \<Rightarrow> 64 word \<Rightarrow> int \<times> ursus_meta" where
  "fwtool_search m buf start pos =
     (if fwtool_match m buf pos then fwtool_found m buf pos
      else if pos = start then (- ENOENT, zero_meta)
      else fwtool_search m buf start (pos - 1))"
  by pat_completeness auto

termination fwtool_search
proof (relation "measure (\<lambda>(_, _, start, pos). unat (pos - start))", goal_cases)
  case (2 m buf start pos)
  then have "pos - start \<noteq> 0" by simp
  then have "unat (pos - start - 1) < unat (pos - start)"
    using unat_minus_one [of "pos - start"] unat_gt_0 [of "pos - start"] by linarith
  then show ?case by (simp add: algebra_simps)
qed simp

declare fwtool_search.simps [simp del]

definition ursus_parse_fwtool_meta :: "ram \<Rightarrow> nat \<Rightarrow> nat \<Rightarrow> int \<times> ursus_meta" where
  "ursus_parse_fwtool_meta m buf len =
     (if len < 24 then (- ENOENT, zero_meta)
      else fwtool_search m buf (word_of_nat (if len > 0x100000 then len - 0x100000 else 16)) (word_of_nat (len - 16)))"

section \<open>Containers\<close>

definition ursus_tar_magic :: "ram \<Rightarrow> nat \<Rightarrow> nat \<Rightarrow> bool" where
  "ursus_tar_magic m h remain = (512 \<le> remain \<and> mem_read (h + 257) 5 m = str_bytes ''ustar'')"

fun tar_octal_loop :: "bytes \<Rightarrow> nat \<Rightarrow> nat" where
  "tar_octal_loop [] v = v"
| "tar_octal_loop (b # bs) v =
     (if b = 0 \<or> b = 0x20 then tar_octal_loop bs v
      else if b < 0x30 \<or> b > 0x37 then v
      else tar_octal_loop bs (v * 8 + (unat b - 48)))"

text \<open>At most twelve digits, so the value stays far below \<open>2 ^ 64\<close>.\<close>

definition ursus_tar_octal :: "ram \<Rightarrow> nat \<Rightarrow> nat \<Rightarrow> nat" where
  "ursus_tar_octal m p n = tar_octal_loop (mem_read p n m) 0"

definition ursus_name_ends :: "bytes \<Rightarrow> string \<Rightarrow> bool" where
  "ursus_name_ends nm suf =
     (length suf \<le> length nm \<and> drop (length nm - length suf) nm = str_bytes suf)"

definition ursus_verify_fit :: "hash_functions \<Rightarrow> ram \<Rightarrow> nat \<Rightarrow> nat \<Rightarrow> int \<times> bool" where
  "ursus_verify_fit H m fit len =
     (let total = fdt_hdr fdt_totalsize m fit; r = fit_check_format m fit len; hash_ok = fit_all_image_verify H m fit
      in if len < FDT_HEADER_SIZE \<or> fdt_check_header fit (mem_read fit FDT_V17_SIZE m) \<noteq> 0 then (- ENOEXEC, False)
         else if total > len \<or> total < FDT_HEADER_SIZE then (- EFBIG, False)
         else if r \<noteq> 0 then (r, False)
         else (if hash_ok then 0 else - EBADMSG, hash_ok))"

text \<open>\<open>strstr\<close> in the name of a node, and \<open>strncmp\<close> of the type property with a name.\<close>

definition name_has :: "ram \<Rightarrow> nat \<Rightarrow> int \<Rightarrow> string \<Rightarrow> bool" where
  "name_has m fit node needle =
     (case fdt_get_name m fit node of
        Inl _ \<Rightarrow> False
      | Inr (p, len) \<Rightarrow> ursus_mem_has (mem_read p len m) needle)"

definition type_is :: "ram \<Rightarrow> nat \<Rightarrow> int \<Rightarrow> string \<Rightarrow> bool" where
  "type_is m fit node lit =
     (case fdt_getprop m fit node (str_bytes ''type'') of
        Inl _ \<Rightarrow> False
      | Inr (p, len) \<Rightarrow>
          let k = min (nat len) (length lit + 1)
          in 0 < len \<and> mem_read p k m = take k (str_bytes lit @ [0]))"

definition inspect_fit_image :: "ram \<Rightarrow> nat \<Rightarrow> ursus_image_state \<Rightarrow> int \<Rightarrow> ursus_image_state" where
  "inspect_fit_image m fit s node =
     (let is_kernel = (name_has m fit node ''kernel'' \<or> name_has m fit node ''linux'' \<or> type_is m fit node ''kernel'');
          is_root = (name_has m fit node ''rootfs'' \<or> name_has m fit node ''filesystem'' \<or> type_is m fit node ''filesystem'');
          is_fdt = (name_has m fit node ''fdt'' \<or> name_has m fit node ''dtb'' \<or> type_is m fit node ''flat_dt'');
          s = s\<lparr>im_kernel_found := im_kernel_found s \<or> is_kernel, im_root_found := im_root_found s \<or> is_root,
                im_fdt_found := im_fdt_found s \<or> is_fdt\<rparr>
      in case fit_image_get_data m fit node of
           None \<Rightarrow> s
         | Some (_, len) \<Rightarrow>
             let n = nat (len mod 2 ^ 64)
             in s\<lparr>im_kernel_size := (if is_kernel \<and> im_kernel_size s = 0 then n else im_kernel_size s),
                  im_root_size := (if is_root \<and> im_root_size s = 0 then n else im_root_size s),
                  im_fdt_size := (if is_fdt \<and> im_fdt_size s = 0 then n else im_fdt_size s)\<rparr>)"

definition ursus_inspect_fit_images :: "ram \<Rightarrow> nat \<Rightarrow> ursus_image_state \<Rightarrow> ursus_image_state" where
  "ursus_inspect_fit_images m fit s =
     (let images = fdt_path_offset m fit FIT_IMAGES_PATH
      in if images < 0 then s else foldl (inspect_fit_image m fit) s (fdt_subnodes m fit images))"

text \<open>The checks of the device tree of the default configuration, on a copy when it is not aligned.\<close>

definition check_platform_fdt :: "nat \<Rightarrow> nat \<Rightarrow> ursus_image_state \<Rightarrow> ('x, int \<times> ursus_image_state) web" where
  "check_platform_fdt checked_fdt fdt_len s = do {
     m \<leftarrow> gets ram;
     if fdt_check_header checked_fdt (mem_read checked_fdt FDT_V17_SIZE m) \<noteq> 0
        \<or> fdt_hdr fdt_totalsize m checked_fdt > fdt_len
     then ret (- ENOEXEC, s)
     else
       let s = s\<lparr>im_fdt_found := True, im_fdt_size := fdt_len\<rparr>
       in case fdt_getprop m checked_fdt 0 (str_bytes ''compatible'') of
            Inl _ \<Rightarrow> ret (- ENODEV, s)
          | Inr (compatp, len) \<Rightarrow>
              if len \<le> 0 then ret (- ENODEV, s)
              else
                let s = s\<lparr>im_fdt_is_stock := fdt_stringlist_contains m compatp len ''nokia,xg-040g-md'',
                          im_fdt_is_ubi := fdt_stringlist_contains m compatp len ''nokia,xg-040g-md-ubi''\<rparr>
                in if \<not> im_fdt_is_stock s \<and> \<not> im_fdt_is_ubi s then ret (- ENODEV, s)
                   else ret (0, s\<lparr>im_fdt_compatible := True\<rparr>)
   }"

definition ursus_fit_default_platform :: "nat \<Rightarrow> ursus_image_state \<Rightarrow> ('x, int \<times> ursus_image_state) web" where
  "ursus_fit_default_platform fit s = do {
     conf \<leftarrow> fit_conf_get_node fit;
     m \<leftarrow> gets ram;
     if conf < 0 then ret (- ENOENT, s)
     else
       let kernel = fit_conf_get_prop_node m fit conf ''kernel''; fdt_node = fit_conf_get_prop_node m fit conf ''fdt''
       in if kernel < 0 \<or> fdt_node < 0 then ret (- ENOENT, s)
          else if fit_image_get_arch m fit kernel \<noteq> Some IH_ARCH_ARM64 then ret (- EPROTONOSUPPORT, s)
          else
            let s = s\<lparr>im_kernel_arch_valid := True\<rparr>
            in if fit_image_get_type m fit fdt_node \<noteq> Some IH_TYPE_FLATDT then ret (- ENOEXEC, s)
               else case fit_image_get_data m fit fdt_node of
                      None \<Rightarrow> ret (- ENOEXEC, s)
                    | Some (fdt_data, len) \<Rightarrow>
                        let fdt_len = nat (len mod 2 ^ 64)
                        in if fdt_len < FDT_HEADER_SIZE then ret (- ENOEXEC, s)
                           else if fdt_data mod 8 \<noteq> 0
                           then do {
                             aligned_fdt \<leftarrow> memalign_addr;
                             if aligned_fdt = 0 then ret (- ENOMEM, s)
                             else do {
                               d \<leftarrow> ram_read fdt_data fdt_len;
                               ram_write aligned_fdt d;
                               ursus_logf [''FIT FDT ALIGN: copied embedded DTB to 8-byte aligned buffer bytes='',
                                           pu fdt_len, [LF]];
                               check_platform_fdt aligned_fdt fdt_len s
                             }
                           }
                           else check_platform_fdt fdt_data fdt_len s
   }"

section \<open>Sysupgrade images for the vendor's layout\<close>

text \<open>What one tar entry does to the state: an error, or the new state.\<close>

definition factory_entry ::
  "hash_functions \<Rightarrow> ram \<Rightarrow> nat \<Rightarrow> nat \<Rightarrow> nat \<Rightarrow> ursus_image_state \<Rightarrow> int \<times> ursus_image_state" where
  "factory_entry H m buf pos len s =
     (let nm = takeWhile (\<lambda>b. b \<noteq> 0) (mem_read (buf + pos) 100 m);
          sz = ursus_tar_octal m (buf + pos + 124) 12;
          data = pos + 512
      in if data + sz > len then (- EFBIG, s)
         else if ursus_name_ends nm ''/kernel''
         then (case ursus_verify_fit H m (buf + data) sz of (r, kernel_hash) \<Rightarrow>
                 (0, s\<lparr>im_kernel_found := True, im_kernel_size := sz, im_kernel_off := data,
                       im_fit_valid := (r = 0), im_fit_hashes_valid := kernel_hash\<rparr>))
         else if ursus_name_ends nm ''/root''
         then (let s = s\<lparr>im_root_found := True, im_root_size := sz, im_root_off := data\<rparr>
               in if sz < 4 \<or> mem_read (buf + data) 4 m \<noteq> str_bytes ''hsqs'' then (- EINVAL, s) else (0, s))
         else (0, s))"

function factory_loop ::
  "hash_functions \<Rightarrow> ram \<Rightarrow> nat \<Rightarrow> nat \<Rightarrow> nat \<Rightarrow> ursus_image_state \<Rightarrow> int \<times> ursus_image_state" where
  "factory_loop H m buf len pos s =
     (if pos + 512 \<le> len \<and> ursus_tar_magic m (buf + pos) (len - pos)
      then case factory_entry H m buf pos len s of (r, s') \<Rightarrow>
             if r \<noteq> 0 then (r, s')
             else let next = pos + 512 + (ursus_tar_octal m (buf + pos + 124) 12 + 511) div 512 * 512
                  in if next \<le> pos \<or> next > len then (0, s') else factory_loop H m buf len next s'
      else (0, s))"
  by pat_completeness auto

termination factory_loop
  by (relation "measure (\<lambda>(_, _, _, len, pos, _). len - pos)") auto

declare factory_loop.simps [simp del]

definition ursus_validate_factory ::
  "hash_functions \<Rightarrow> ram \<Rightarrow> nat \<Rightarrow> nat \<Rightarrow> ursus_image_state \<Rightarrow> int \<times> ursus_image_state" where
  "ursus_validate_factory H m buf len s =
     (case factory_loop H m buf len 0 s of (r, s') \<Rightarrow>
        if r \<noteq> 0 then (r, s')
        else if \<not> im_kernel_found s' \<or> \<not> im_root_found s' \<or> \<not> im_fit_valid s' \<or> \<not> im_fit_hashes_valid s'
        then (- EINVAL, s')
        else (0, s'))"

section \<open>The main channel\<close>

definition is_stock_layout :: "string \<Rightarrow> bool" where
  "is_stock_layout layout \<longleftrightarrow> layout = ''STOCK'' \<or> layout = ''OPENWRT_STOCK_LAYOUT''"

text \<open>The branch of \<open>ursus_validate_staged\<close> for tar files.\<close>

definition staged_tar ::
  "hash_functions \<Rightarrow> ram \<Rightarrow> nat \<Rightarrow> nat \<Rightarrow> string \<Rightarrow> ursus_meta \<Rightarrow> ursus_image_state \<Rightarrow> int \<times> ursus_image_state" where
  "staged_tar H m buf len layout meta s =
     (case ursus_validate_factory H m buf len
             (s\<lparr>im_type := URSUS_IMG_NONUBI_SYSUPGRADE, im_device_compatible := me_device_factory meta\<rparr>) of (r, s) \<Rightarrow>
        if r \<noteq> 0
        then (r, ursus_set_reason s URSUS_RC_BAD_CONTAINER
                   ''OpenWrt non-UBI sysupgrade tar/kernel/root validation failed'')
        else if \<not> me_found meta \<or> \<not> me_crc_ok meta \<or> \<not> me_supported_devices_present meta
        then (- EBADMSG, ursus_set_reason s URSUS_RC_METADATA_MISSING
                   ''OpenWrt non-UBI sysupgrade fwtool metadata, CRC or supported_devices is missing/invalid'')
        else if \<not> im_device_compatible s
        then (- ENODEV, ursus_set_reason s URSUS_RC_DEVICE_MISMATCH
                   ''OpenWrt non-UBI sysupgrade supported_devices does not contain nokia,xg-040g-md'')
        else if \<not> is_stock_layout layout
        then (0, ursus_set_reason s URSUS_RC_LAYOUT_UNSUPPORTED
                   ''OpenWrt non-UBI sysupgrade is valid but current flash layout is not installable by this release'')
        else (0, ursus_set_reason s URSUS_RC_OK
                   ''OpenWrt non-UBI sysupgrade valid; stock-layout install/update is available after explicit confirmation''))"

text \<open>The branch for a FIT that has the fwtool trailer.\<close>

definition staged_ubi_fit :: "nat \<Rightarrow> string \<Rightarrow> ursus_meta \<Rightarrow> ursus_image_state \<Rightarrow> ('x, int \<times> ursus_image_state) web" where
  "staged_ubi_fit buf layout meta s = do {
     m \<leftarrow> gets ram;
     (pret, s) \<leftarrow> ursus_fit_default_platform buf
                   (ursus_inspect_fit_images m buf (s\<lparr>im_type := URSUS_IMG_UBI_SYSUPGRADE\<rparr>));
     let s = s\<lparr>im_device_compatible := me_device_ubi meta\<rparr>;
     ret (if \<not> me_crc_ok meta \<or> \<not> me_supported_devices_present meta
          then (- EBADMSG, ursus_set_reason s URSUS_RC_METADATA_MISSING
                  ''UBI fwtool metadata CRC or supported_devices is missing/invalid'')
          else if \<not> im_kernel_found s \<or> \<not> im_fdt_found s \<or> \<not> im_root_found s \<or> pret = - ENOENT \<or> pret = - ENOEXEC
          then (- EINVAL, ursus_set_reason s URSUS_RC_BAD_FIT
                  ''UBI FIT must contain kernel, FDT and rootfs in a valid default configuration'')
          else if \<not> im_device_compatible s \<or> pret \<noteq> 0 \<or> \<not> im_fdt_is_ubi s
          then (- ENODEV, ursus_set_reason s URSUS_RC_DEVICE_MISMATCH
                  ''UBI supported_devices, ARM64 architecture or UBI board FDT does not match Nokia XG-040G-MD UBI'')
          else if layout = ''OPENWRT_UBI''
          then (0, ursus_set_reason s URSUS_RC_OK
                  ''UBI sysupgrade FIT valid; in-place UBI update is available after confirmation'')
          else if is_stock_layout layout
          then (0, ursus_set_reason s URSUS_RC_OK
                  ''UBI sysupgrade FIT valid; factory-layout to UBI migration is available after validating the transition preloader'')
          else (- EXDEV, ursus_set_reason s URSUS_RC_LAYOUT_UNSUPPORTED
                  ''UBI sysupgrade FIT is valid but current NAND layout is unknown''))
   }"

definition staged_fit ::
  "hash_functions \<Rightarrow> nat \<Rightarrow> nat \<Rightarrow> string \<Rightarrow> ursus_meta \<Rightarrow> ursus_image_state \<Rightarrow> ('x, int \<times> ursus_image_state) web" where
  "staged_fit H buf len layout meta s = do {
     m \<leftarrow> gets ram;
     case ursus_verify_fit H m buf len of (vret, fit_hash) \<Rightarrow>
       let s = s\<lparr>im_fit_valid := (vret = 0), im_fit_hashes_valid := fit_hash\<rparr>
       in if vret \<noteq> 0
          then ret (vret, ursus_set_reason (s\<lparr>im_type := URSUS_IMG_INVALID\<rparr>)
                     (if vret = - EBADMSG then URSUS_RC_HASH_MISMATCH else URSUS_RC_BAD_FIT)
                     (if vret = - EBADMSG then ''FIT image hash verification failed'' else ''FIT structure validation failed''))
          else if \<not> me_found meta
          then do {
            (pret, s) \<leftarrow> ursus_fit_default_platform buf
                          (ursus_inspect_fit_images m buf (s\<lparr>im_type := URSUS_IMG_FACTORY_KERNEL\<rparr>));
            ret (- EPROTONOSUPPORT, ursus_set_reason s URSUS_RC_UNSUPPORTED_CLASS
                   (if pret = 0 \<and> im_fdt_is_stock s
                    then ''OpenWrt factory-kernel.bin recognized; paired factory components are Expert-only and never trigger repartition''
                    else ''standalone FIT is not accepted by Main firmware channel; use Expert initramfs''))
          }
          else staged_ubi_fit buf layout meta s
   }"

text \<open>The classification as a whole; the caller has reset the image state.\<close>

definition classify_staged ::
  "hash_functions \<Rightarrow> nat \<Rightarrow> nat \<Rightarrow> string \<Rightarrow> ursus_image_state \<Rightarrow> ('x, int \<times> ursus_image_state) web" where
  "classify_staged H addr len layout s =
     (if map_sysmem_null addr \<or> len = 0
      then ret (- EINVAL, ursus_set_reason s URSUS_RC_BAD_CONTAINER ''empty staged image'')
      else if len > URSUS_STAGE_MAX
      then ret (- EFBIG, ursus_set_reason s URSUS_RC_IMAGE_TOO_LARGE ''firmware exceeds staging capacity'')
      else do {
        m \<leftarrow> gets ram;
        case ursus_parse_fwtool_meta m addr len of (mret, meta) \<Rightarrow>
          let s = (if mret = 0
                   then s\<lparr>im_metadata_present := me_found meta,
                          im_metadata_valid := (me_found meta \<and> me_crc_ok meta \<and> me_supported_devices_present meta)\<rparr>
                   else s)
          in if ursus_tar_magic m addr len then ret (staged_tar H m addr len layout meta s)
             else if 4 \<le> len \<and> ursus_be32 m addr = 0x55424923
             then ret (- EPROTONOSUPPORT, ursus_set_reason (s\<lparr>im_type := URSUS_IMG_FACTORY_ROOTFS\<rparr>) URSUS_RC_UNSUPPORTED_CLASS
                    ''OpenWrt factory-rootfs.bin recognized; paired factory components are Expert-only and never trigger repartition'')
             else if 4 \<le> len \<and> ursus_be32 m addr = FDT_MAGIC then staged_fit H addr len layout meta s
             else ret (- ENOEXEC, ursus_set_reason (s\<lparr>im_type := URSUS_IMG_INVALID\<rparr>) URSUS_RC_UNSUPPORTED_CLASS
                    ''Main firmware channel accepts OpenWrt non-UBI sysupgrade tar or UBI sysupgrade FIT; factory component images are classified but not auto-installed'')
      })"

definition staged_operation :: "ursus_image_state \<Rightarrow> string \<Rightarrow> string" where
  "staged_operation s layout =
     (if im_type s = URSUS_IMG_NONUBI_SYSUPGRADE
      then (if im_reason_class s = URSUS_RC_OK then ''INSTALL_OPENWRT_STOCK_LAYOUT_AVAILABLE''
            else ''INSTALL_OPENWRT_STOCK_LAYOUT_LOCKED'')
      else if im_type s = URSUS_IMG_UBI_SYSUPGRADE
      then (if layout = ''OPENWRT_UBI'' then ''UPDATE_OPENWRT_UBI_AVAILABLE'' else ''INSTALL_OPENWRT_UBI_AVAILABLE'')
      else ''NONE'')"

definition ursus_validate_staged :: "hash_functions \<Rightarrow> nat \<Rightarrow> nat \<Rightarrow> ('x, int) web" where
  "ursus_validate_staged H addr len = do {
     ursus_reset_image_state;
     layout \<leftarrow> gets ursus_current_layout;
     ursus_logf [''FIRMWARE VALIDATION: bytes='', pu len, '' channel=MAIN layout='', layout, [LF]];
     (r, s) \<leftarrow> classify_staged H addr len layout (no_staged_image\<lparr>im_addr := addr, im_len := len\<rparr>);
     modify (\<lambda>w. w\<lparr>ursus_img := s\<rparr>);
     ursus_logf [''FIRMWARE VALIDATION: class='', im_reason_class s, '' type='', ursus_image_name (im_type s),
       '' metadata='', pb (im_metadata_valid s), '' supported_device='', pb (im_device_compatible s),
       '' fit='', pb (im_fit_valid s), '' hashes='', pb (im_fit_hashes_valid s), '' kernel='', pb (im_kernel_found s),
       '' fdt='', pb (im_fdt_found s), '' root='', pb (im_root_found s), '' arch='', pb (im_kernel_arch_valid s),
       '' board='', pb (im_fdt_compatible s), '' ret='', dec_int r, [LF]];
     ursus_logf [''FIRMWARE VALIDATION: operation='', staged_operation s layout, '' reason='', im_reason s, [LF]];
     ret r
   }"

section \<open>The expert channel\<close>

definition classify_expert ::
  "hash_functions \<Rightarrow> nat \<Rightarrow> nat \<Rightarrow> string \<Rightarrow> ursus_image_state \<Rightarrow> ('x, int \<times> ursus_image_state) web" where
  "classify_expert H addr len layout s =
     (if map_sysmem_null addr \<or> len = 0
      then ret (- EINVAL, ursus_set_reason s URSUS_RC_BAD_CONTAINER ''empty initramfs/FIT staging range'')
      else if len > URSUS_STAGE_MAX
      then ret (- EFBIG, ursus_set_reason s URSUS_RC_IMAGE_TOO_LARGE ''initramfs/FIT exceeds shared 64 MiB staging capacity'')
      else do {
        m \<leftarrow> gets ram;
        if len < 4 \<or> ursus_be32 m addr \<noteq> FDT_MAGIC
        then ret (- ENOEXEC, ursus_set_reason s URSUS_RC_BAD_CONTAINER ''Expert channel accepts FIT/initramfs only'')
        else case ursus_verify_fit H m addr len of (r, hash_ok) \<Rightarrow>
          let s = s\<lparr>im_fit_valid := (r = 0), im_fit_hashes_valid := hash_ok\<rparr>
          in if r \<noteq> 0
             then ret (r, ursus_set_reason (s\<lparr>im_type := URSUS_IMG_INVALID\<rparr>)
                        (if r = - EBADMSG then URSUS_RC_HASH_MISMATCH else URSUS_RC_BAD_FIT)
                        (if r = - EBADMSG then ''FIT image hash verification failed'' else ''FIT structure validation failed''))
             else do {
               (pret, s) \<leftarrow> ursus_fit_default_platform addr (ursus_inspect_fit_images m addr s);
               ret (if pret = - ENOENT \<or> pret = - ENOEXEC
                    then (pret, ursus_set_reason (s\<lparr>im_type := URSUS_IMG_INVALID\<rparr>) URSUS_RC_BAD_FIT
                           ''FIT default configuration must contain kernel and valid FDT'')
                    else if pret \<noteq> 0
                    then (pret, ursus_set_reason (s\<lparr>im_type := URSUS_IMG_INVALID\<rparr>) URSUS_RC_DEVICE_MISMATCH
                           ''FIT architecture or board compatible does not match Nokia XG-040G-MD'')
                    else if layout = ''OPENWRT_UBI'' \<and> \<not> im_fdt_is_ubi s
                            \<or> is_stock_layout layout \<and> \<not> im_fdt_is_stock s
                    then (- EXDEV, ursus_set_reason (s\<lparr>im_type := URSUS_IMG_INVALID\<rparr>) URSUS_RC_LAYOUT_UNSUPPORTED
                           ''initramfs/FIT device-tree layout does not match the current NAND layout'')
                    else (0, ursus_set_reason (s\<lparr>im_type := URSUS_IMG_FIT, im_device_compatible := True,
                                                 im_bootable_fit := True\<rparr>) URSUS_RC_OK
                           ''FIT hashes, ARM64 architecture and board FDT validated; boot once is available''))
             }
      })"

definition ursus_validate_expert_fit :: "hash_functions \<Rightarrow> nat \<Rightarrow> nat \<Rightarrow> ('x, int) web" where
  "ursus_validate_expert_fit H addr len = do {
     ursus_reset_expert_state;
     layout \<leftarrow> gets ursus_current_layout;
     ursus_logf [''EXPERT VALIDATION: bytes='', pu len, '' channel=BOOT_ONCE'', [LF]];
     (r, s) \<leftarrow> classify_expert H addr len layout (no_initramfs\<lparr>im_addr := addr, im_len := len\<rparr>);
     modify (\<lambda>w. w\<lparr>ursus_expert_img := s\<rparr>);
     ursus_logf [''EXPERT VALIDATION: class='', im_reason_class s, '' fit='', pb (im_fit_valid s),
       '' hashes='', pb (im_fit_hashes_valid s), '' kernel='', pb (im_kernel_found s), '' fdt='', pb (im_fdt_found s),
       '' arch='', pb (im_kernel_arch_valid s), '' board='', pb (im_fdt_compatible s),
       '' bootable='', pb (im_bootable_fit s), '' ret='', dec_int r, '' reason='', im_reason s, [LF]];
     ret r
   }"

section \<open>The trailer lies inside the image\<close>

lemma fwtool_search_found:
  assumes "fwtool_search m buf start pos = (0, meta)" "start \<le> pos"
  shows "\<exists>p. start \<le> p \<and> p \<le> pos \<and> fwtool_match m buf p \<and> fwtool_found m buf p = (0, meta)"
  using assms
proof (induction m buf start pos rule: fwtool_search.induct)
  case (1 m buf start pos)
  show ?case
  proof (cases "fwtool_match m buf pos")
    case True
    then show ?thesis using "1.prems" by (subst (asm) fwtool_search.simps) auto
  next
    case False
    then have ne: "pos \<noteq> start" using "1.prems"(1) by (subst (asm) fwtool_search.simps) auto
    then have "start < pos" using "1.prems"(2) by simp
    then have le: "start \<le> pos - 1" "pos - 1 \<le> pos" by uint_arith+
    have "fwtool_search m buf start (pos - 1) = (0, meta)"
      using "1.prems"(1) False ne by (subst (asm) fwtool_search.simps) simp
    then obtain p where "start \<le> p" "p \<le> pos - 1" "fwtool_match m buf p" "fwtool_found m buf p = (0, meta)"
      using "1.IH" [OF False ne _ le(1)] by blast
    then show ?thesis using le(2) by (meson order_trans)
  qed
qed

definition fwtool_start :: "nat \<Rightarrow> 64 word" where
  "fwtool_start len = word_of_nat (if len > 0x100000 then len - 0x100000 else 16)"

lemma unat_small: "n < 2 ^ 64 \<Longrightarrow> unat (word_of_nat n :: 64 word) = n"
  by (simp add: unat_of_nat)

lemma fwtool_start_le:
  assumes "32 \<le> len" "len < 2 ^ 64" shows "fwtool_start len \<le> word_of_nat (len - 16)"
proof -
  let ?s = "if len > 0x100000 then len - 0x100000 else 16"
  have "?s \<le> len - 16" "?s < 2 ^ 64" "len - 16 < 2 ^ 64" using assms by auto
  then show ?thesis unfolding fwtool_start_def word_le_nat_alt by (simp only: unat_small)
qed

text \<open>A trailer that is found: where it is, and what its checks have established.\<close>

definition trailer_at :: "ram \<Rightarrow> nat \<Rightarrow> nat \<Rightarrow> nat \<Rightarrow> ursus_meta \<Rightarrow> bool" where
  "trailer_at m buf len pos meta \<longleftrightarrow>
     8 \<le> pos \<and> pos + 16 \<le> len \<and> me_json_off meta + me_json_len meta = pos
     \<and> (me_crc_ok meta \<longleftrightarrow> unat (ursus_crc32_fwtool 0xffffffff (mem_read buf pos m)) = ursus_be32 m (buf + pos + 4))
     \<and> ursus_json_exact_supported_devices (mem_read (buf + me_json_off meta) (me_json_len meta) m)
        = (me_supported_devices_present meta, me_device_factory meta, me_device_ubi meta)"

lemma fwtool_addr_eq: "buf + unat pos + k < 2 ^ 64 \<Longrightarrow> fwtool_addr buf pos k = buf + unat pos + k"
proof -
  have "word_of_nat buf + pos + word_of_nat k = (word_of_nat (buf + unat pos + k) :: 64 word)" by simp
  then show "buf + unat pos + k < 2 ^ 64 \<Longrightarrow> fwtool_addr buf pos k = buf + unat pos + k"
    unfolding fwtool_addr_def by (simp only: unat_small)
qed

lemma fwtool_found_trailer:
  assumes "fwtool_match m buf p" "fwtool_found m buf p = (0, meta)"
    and "unat p + 16 \<le> len" "buf + len < 2 ^ 64"
  shows "trailer_at m buf len (unat p) meta \<and> me_found meta"
proof -
  let ?n = "ursus_be32 m (buf + unat p + 12)"
  let ?sz = "word_of_nat ?n :: 64 word"
  have a: "fwtool_addr buf p k = buf + unat p + k" if "k < 16" for k
    using that assms(3,4) by (intro fwtool_addr_eq) simp
  have n: "?n < 2 ^ 32"
  proof -
    have "unat (m (buf + unat p + 12 + k)) < 256" for k
      using unsigned_less [of "m (buf + unat p + 12 + k)", where 'a = nat] by simp
    from this [of 0] this [of 1] this [of 2] this [of 3] show ?thesis by (simp add: ursus_be32_def)
  qed
  have sz: "unat ?sz = ?n" using n by (intro unat_small) simp
  have p16: "unat (p + 16) = unat p + 16"
    using assms(3,4) by (subst unat_add_lem [THEN iffD1]) simp_all
  have m: "24 \<le> ?n" "?n \<le> unat p + 16"
    using assms(1) p16 sz unfolding fwtool_match_def Let_def word_le_nat_alt by (simp_all add: a)
  have "p + 16 - ?sz + 8 = word_of_nat (unat p + 24 - ?n)"
    using m by (simp add: of_nat_diff)
  moreover have "unat p + 24 - ?n < 2 ^ 64" using m assms(3,4) by linarith
  ultimately have off: "unat (p + 16 - ?sz + 8) = unat p + 24 - ?n" by (simp only: unat_small)
  have "?sz - 16 - 8 = word_of_nat (?n - 24)" using m by (simp add: of_nat_diff)
  moreover have "?n - 24 < 2 ^ 64" using n by simp
  ultimately have len: "unat (?sz - 16 - 8) = ?n - 24" by (simp only: unat_small)
  have "buf + (unat p + 24 - ?n) < 2 ^ 64" using assms(3,4) m by linarith
  then have "fwtool_addr buf (p + 16 - ?sz + 8) 0 = buf + (unat p + 24 - ?n)"
    using off by (subst fwtool_addr_eq) simp_all
  then show ?thesis
    using assms(2,3) m off len
    by (auto simp: fwtool_found_def Let_def a trailer_at_def split: if_splits prod.splits)
qed

lemma parse_fwtool_found:
  assumes "ursus_parse_fwtool_meta m buf len = (0, meta)" "32 \<le> len" "buf + len < 2 ^ 64"
  shows "\<exists>pos. trailer_at m buf len pos meta \<and> me_found meta"
proof -
  have "fwtool_search m buf (fwtool_start len) (word_of_nat (len - 16)) = (0, meta)"
    using assms(1,2) by (simp add: ursus_parse_fwtool_meta_def fwtool_start_def)
  then obtain p where p: "fwtool_start len \<le> p" "p \<le> word_of_nat (len - 16)" "fwtool_match m buf p"
      "fwtool_found m buf p = (0, meta)"
    using fwtool_search_found fwtool_start_le [OF assms(2)] assms(3) by force
  have e: "unat (word_of_nat (len - 16) :: 64 word) = len - 16" using assms(3) by (intro unat_small) simp
  have "unat p \<le> len - 16" using p(2) e by (simp only: word_le_nat_alt)
  then have "unat p + 16 \<le> len" using assms(2) by simp
  then show ?thesis using fwtool_found_trailer [OF p(3,4)] assms(3) by blast
qed

text \<open>
  A trailer that is found in an image of at least 32 bytes lies inside the image, and so does the JSON
  text that is read from it: it ends where the trailer starts.
\<close>

theorem fwtool_meta_inside:
  assumes "ursus_parse_fwtool_meta m buf len = (0, meta)" "32 \<le> len" "buf + len < 2 ^ 64"
  shows "8 \<le> me_json_off meta + me_json_len meta \<and> me_json_off meta + me_json_len meta + 16 \<le> len"
  using parse_fwtool_found [OF assms] by (auto simp: trailer_at_def)

text \<open>
  C30: the search for the trailer leaves a short image: in an image of 24 to 31 bytes it starts below the
  position at which it is meant to stop.  When no trailer matches at the positions 0 to length - 16, it
  goes on at the position \<open>2 ^ 64 - 1\<close>, whose bytes lie in front of the image.
\<close>

theorem fwtool_short_image_escapes:
  assumes "24 \<le> len" "len < 32" "\<And>p. p \<le> len - 16 \<Longrightarrow> \<not> fwtool_match m buf (word_of_nat p)"
  shows "ursus_parse_fwtool_meta m buf len = fwtool_search m buf 16 (- 1)
    \<and> (0 < buf \<longrightarrow> buf < 2 ^ 64 \<longrightarrow> fwtool_addr buf (- 1) 0 = buf - 1)"
proof -
  have "fwtool_search m buf 16 (word_of_nat k) = fwtool_search m buf 16 (- 1)" if "k \<le> len - 16" for k
    using that
  proof (induction k)
    case 0
    then show ?case using assms(3) [of 0] by (subst fwtool_search.simps) simp
  next
    case (Suc k)
    have "word_of_nat (Suc k) \<noteq> (16 :: 64 word)"
    proof
      assume "word_of_nat (Suc k) = (16 :: 64 word)"
      then have "unat (word_of_nat (Suc k) :: 64 word) = unat (16 :: 64 word)" by simp
      then have "Suc k = 16" using Suc.prems assms(2) by (subst (asm) unat_small) simp_all
      then show False using Suc.prems assms(2) by simp
    qed
    then have "fwtool_search m buf 16 (word_of_nat (Suc k)) = fwtool_search m buf 16 (word_of_nat (Suc k) - 1)"
      using assms(3) [OF Suc.prems] by (subst fwtool_search.simps) simp
    then show ?case using Suc by simp
  qed
  from this [of "len - 16"] have "ursus_parse_fwtool_meta m buf len = fwtool_search m buf 16 (- 1)"
    using assms(1,2) by (simp add: ursus_parse_fwtool_meta_def)
  moreover have "fwtool_addr buf (- 1) 0 = buf - 1" if "0 < buf" "buf < 2 ^ 64"
  proof -
    have "word_of_nat buf + (- 1) + word_of_nat 0 = (word_of_nat (buf - 1) :: 64 word)" using that(1) by (simp add: of_nat_diff)
    then show ?thesis unfolding fwtool_addr_def using that(2) by (simp only: unat_small [of "buf - 1"])
  qed
  ultimately show ?thesis by blast
qed

definition fw_sample_ram :: ram where
  "fw_sample_ram = mem_write 0x1000 [0x46, 0x57, 0x78, 0x30, 0, 0, 0, 0, 1, 0, 0, 0, 0, 0, 0, 40] (\<lambda>_. 0)"

lemma fw_sample_fst: "fst (ursus_parse_fwtool_meta fw_sample_ram 0x0fe8 40) = 0"
  by (simp add: ursus_parse_fwtool_meta_def fwtool_search.simps fwtool_match_def fwtool_addr_def ursus_be32_def
      fw_sample_ram_def mem_write_def URSUS_FWTOOL_MAGIC_def URSUS_FWTOOL_INFO_def fwtool_found_def Let_def
      split: prod.split)

theorem fwtool_meta_inside_witness:
  "let meta = snd (ursus_parse_fwtool_meta fw_sample_ram 0x0fe8 40)
   in 8 \<le> me_json_off meta + me_json_len meta \<and> me_json_off meta + me_json_len meta + 16 \<le> 40"
proof -
  have "ursus_parse_fwtool_meta fw_sample_ram 0x0fe8 40 = (0, snd (ursus_parse_fwtool_meta fw_sample_ram 0x0fe8 40))"
    using fw_sample_fst by (metis prod.collapse)
  from fwtool_meta_inside [OF this] show ?thesis by (simp add: Let_def)
qed

theorem fwtool_short_image_escapes_witness:
  "ursus_parse_fwtool_meta (\<lambda>_. 0) 0x90000000 24 = fwtool_search (\<lambda>_. 0) 0x90000000 16 (- 1)
    \<and> fwtool_addr 0x90000000 (- 1) 0 = 0x90000000 - 1"
proof -
  have "\<not> fwtool_match (\<lambda>_. 0) 0x90000000 p" for p
    by (simp add: fwtool_match_def ursus_be32_def URSUS_FWTOOL_MAGIC_def)
  then have "ursus_parse_fwtool_meta (\<lambda>_. 0) 0x90000000 24 = fwtool_search (\<lambda>_. 0) 0x90000000 16 (- 1)
      \<and> (0 < (0x90000000 :: nat) \<longrightarrow> (0x90000000 :: nat) < 2 ^ 64 \<longrightarrow> fwtool_addr 0x90000000 (- 1) 0 = 0x90000000 - 1)"
    by (intro fwtool_short_image_escapes) simp_all
  then show ?thesis by (simp only: zero_less_numeral) simp
qed

section \<open>The list of devices\<close>

definition occurs :: "'a list \<Rightarrow> 'a list \<Rightarrow> bool" where
  "occurs q p \<longleftrightarrow> (\<exists>a b. p = a @ q @ b)"

lemma occurs_append: "occurs q p \<Longrightarrow> occurs q (a @ p @ b)"
proof -
  assume "occurs q p"
  then obtain c d where "p = c @ q @ d" by (auto simp: occurs_def)
  then have "a @ p @ b = (a @ c) @ q @ (d @ b)" by simp
  then show "occurs q (a @ p @ b)" unfolding occurs_def by blast
qed

definition quoted :: "string \<Rightarrow> bytes" where
  "quoted s = 0x22 # str_bytes s @ [0x22]"

lemma json_ws_split: "\<exists>a. p = a @ ursus_json_ws p"
  unfolding ursus_json_ws_def by (rule exI) (rule takeWhile_dropWhile_id [symmetric])

definition span_value :: "bytes \<Rightarrow> bytes \<times> bytes" where
  "span_value p = (let v = takeWhile (\<lambda>b. b \<noteq> 0x22 \<and> b \<noteq> 0x5c \<and> \<not> b < 0x20) p in (v, drop (length v) p))"

lemma json_devices_step:
  "json_devices p fac onu =
     (case ursus_json_ws p of
        [] \<Rightarrow> (False, fac, onu)
      | c # p1 \<Rightarrow>
          if c = 0x5d then (True, fac, onu)
          else if c \<noteq> 0x22 then (False, fac, onu)
          else case span_value p1 of (v, rest) \<Rightarrow>
            (case rest of
               [] \<Rightarrow> (False, fac, onu)
             | q # p2 \<Rightarrow>
                 if q \<noteq> 0x22 then (False, fac, onu)
                 else let fac' = (fac \<or> v = str_bytes ''nokia,xg-040g-md'');
                          onu' = (onu \<or> v = str_bytes ''nokia,xg-040g-md-ubi'')
                      in case ursus_json_ws p2 of
                           [] \<Rightarrow> (False, fac', onu')
                         | c2 # p3 \<Rightarrow> if c2 = 0x2c then json_devices p3 fac' onu' else (c2 = 0x5d, fac', onu')))"
  by (subst json_devices.simps) (simp add: span_value_def Let_def split: list.splits)

lemma span_value_append: "span_value p = (v, rest) \<Longrightarrow> p = v @ rest"
  by (auto simp: span_value_def Let_def dropWhile_eq_drop [symmetric])

lemma json_devices_sound:
  "json_devices p fac onu = (ok, fac', onu') \<Longrightarrow>
     (fac' \<longrightarrow> fac \<or> occurs (quoted ''nokia,xg-040g-md'') p)
     \<and> (onu' \<longrightarrow> onu \<or> occurs (quoted ''nokia,xg-040g-md-ubi'') p)"
proof (induction "length p" arbitrary: p fac onu rule: less_induct)
  case less
  note unf = json_devices_step [of p fac onu]
  show ?case
  proof (cases "\<exists>p1. ursus_json_ws p = 0x22 # p1")
    case False
    then have "fac' = fac" "onu' = onu" using less.prems unfolding unf by (auto split: list.splits if_splits)
    then show ?thesis by blast
  next
    case True
    then obtain p1 where p1: "ursus_json_ws p = 0x22 # p1" by blast
    obtain v rest where v: "span_value p1 = (v, rest)" by fastforce
    obtain a where "p = a @ 0x22 # p1" using json_ws_split [of p] unfolding p1 ..
    then have a: "p = a @ 0x22 # v @ rest" unfolding span_value_append [OF v] .
    show ?thesis
    proof (cases "\<exists>p2. rest = 0x22 # p2")
      case False
      then have "fac' = fac" "onu' = onu"
        using less.prems unfolding unf p1 by (auto simp: v split: list.splits if_splits)
      then show ?thesis by blast
    next
      case True
      then obtain p2 where p2: "rest = 0x22 # p2" by blast
      have here: "occurs (quoted n) p" if "v = str_bytes n" for n
        unfolding occurs_def quoted_def a p2 that by (intro exI [of _ a] exI [of _ p2]) simp
      have later: "occurs q p" if "occurs q p2" for q
        using occurs_append [OF that, of "a @ 0x22 # v @ [0x22]" "[]"] by (simp add: a p2)
      let ?f = "fac \<or> v = str_bytes ''nokia,xg-040g-md''" and ?u = "onu \<or> v = str_bytes ''nokia,xg-040g-md-ubi''"
      show ?thesis
      proof (cases "\<exists>p3. ursus_json_ws p2 = 0x2c # p3")
        case True
        then obtain p3 where p3: "ursus_json_ws p2 = 0x2c # p3" by blast
        obtain b where b: "p2 = b @ 0x2c # p3" using json_ws_split [of p2] unfolding p3 ..
        have "json_devices p3 ?f ?u = (ok, fac', onu')"
          using less.prems unfolding unf p1 by (simp add: v p2 p3 Let_def)
        moreover have "length p3 < length p" by (simp add: a p2 b)
        ultimately have IH: "(fac' \<longrightarrow> ?f \<or> occurs (quoted ''nokia,xg-040g-md'') p3)
            \<and> (onu' \<longrightarrow> ?u \<or> occurs (quoted ''nokia,xg-040g-md-ubi'') p3)" by (intro less.hyps)
        have "occurs q p" if "occurs q p3" for q
          using later [OF occurs_append [OF that, of "b @ [0x2c]" "[]", simplified, folded b]] .
        with IH here show ?thesis by blast
      next
        case False
        then have "fac' = ?f" "onu' = ?u"
          using less.prems unfolding unf p1 by (auto simp: v p2 Let_def split: list.splits if_splits)
        then show ?thesis using here by blast
      qed
    qed
  qed
qed

lemma json_find_split: "json_find key p = Some q \<Longrightarrow> \<exists>a. p = a @ key @ q"
proof (induction p)
  case (Cons b p)
  show ?case
  proof (cases "take (length key) (b # p) = key \<and> length key \<le> length (b # p)")
    case True
    then have "q = drop (length key) (b # p)" using Cons.prems by (auto split: if_splits)
    then have "b # p = [] @ key @ q" using True by (metis append_Nil append_take_drop_id)
    then show ?thesis by blast
  next
    case False
    then have "json_find key p = Some q" using Cons.prems by (auto split: if_splits)
    then obtain a where "p = a @ key @ q" using Cons.IH by blast
    then have "b # p = (b # a) @ key @ q" by simp
    then show ?thesis by blast
  qed
qed (simp split: if_splits)

text \<open>A board is reported as listed only when its name stands in quotes behind the key.\<close>

lemma supported_devices_sound:
  assumes "ursus_json_exact_supported_devices json = (ok, fac, onu)"
  shows "(fac \<longrightarrow> occurs (quoted ''nokia,xg-040g-md'') json)
         \<and> (onu \<longrightarrow> occurs (quoted ''nokia,xg-040g-md-ubi'') json)"
proof (cases "fac \<or> onu")
  case True
  then obtain p p1 p2 where p: "json_find (0x22 # str_bytes ''supported_devices'' @ [0x22]) json = Some p"
      "ursus_json_ws p = 0x3a # p1" "ursus_json_ws p1 = 0x5b # p2" "json_devices p2 False False = (ok, fac, onu)"
    using assms by (auto simp: ursus_json_exact_supported_devices_def split: option.splits list.splits if_splits)
  obtain a b c where "json = a @ (0x22 # str_bytes ''supported_devices'' @ [0x22]) @ p" "p = b @ 0x3a # p1" "p1 = c @ 0x5b # p2"
    using json_find_split [OF p(1)] json_ws_split [of p, unfolded p(2)] json_ws_split [of p1, unfolded p(3)] by blast
  then have j: "json = (a @ (0x22 # str_bytes ''supported_devices'' @ [0x22]) @ b @ 0x3a # c @ [0x5b]) @ p2 @ []" by simp
  show ?thesis
    using json_devices_sound [OF p(4)] unfolding j by (blast intro: occurs_append)
qed simp

section \<open>Sysupgrade images for the vendor's layout\<close>

definition kernel_ok :: "hash_functions \<Rightarrow> ram \<Rightarrow> nat \<Rightarrow> nat \<Rightarrow> ursus_image_state \<Rightarrow> bool" where
  "kernel_ok H m buf len s \<longleftrightarrow> im_kernel_off s + im_kernel_size s \<le> len
     \<and> (im_fit_valid s \<longrightarrow> im_fit_hashes_valid s \<longrightarrow> ursus_verify_fit H m (buf + im_kernel_off s) (im_kernel_size s) = (0, True))"

definition root_ok :: "ram \<Rightarrow> nat \<Rightarrow> nat \<Rightarrow> ursus_image_state \<Rightarrow> bool" where
  "root_ok m buf len s \<longleftrightarrow> im_root_off s + im_root_size s \<le> len \<and> 4 \<le> im_root_size s
     \<and> mem_read (buf + im_root_off s) 4 m = str_bytes ''hsqs''"

definition parts_ok :: "hash_functions \<Rightarrow> ram \<Rightarrow> nat \<Rightarrow> nat \<Rightarrow> ursus_image_state \<Rightarrow> bool" where
  "parts_ok H m buf len s \<longleftrightarrow>
     (im_kernel_found s \<longrightarrow> kernel_ok H m buf len s) \<and> (im_root_found s \<longrightarrow> root_ok m buf len s)"

text \<open>The part of the state that the container does not decide.\<close>

definition image_id :: "ursus_image_state \<Rightarrow> ursus_image_type \<times> nat \<times> nat \<times> bool \<times> bool \<times> bool" where
  "image_id s = (im_type s, im_addr s, im_len s, im_metadata_present s, im_metadata_valid s, im_device_compatible s)"

lemma factory_entry_ok:
  assumes "factory_entry H m buf pos len s = (0, s')" "parts_ok H m buf len s"
  shows "parts_ok H m buf len s' \<and> image_id s' = image_id s"
  using assms
  by (auto simp: factory_entry_def Let_def parts_ok_def kernel_ok_def root_ok_def image_id_def
      split: if_splits prod.splits)

lemma factory_entry_id: "factory_entry H m buf pos len s = (r, s') \<Longrightarrow> image_id s' = image_id s"
  by (auto simp: factory_entry_def Let_def image_id_def split: if_splits prod.splits)

lemma factory_loop_ok:
  "factory_loop H m buf len pos s = (r, s') \<Longrightarrow> parts_ok H m buf len s \<Longrightarrow>
   (r = 0 \<longrightarrow> parts_ok H m buf len s') \<and> image_id s' = image_id s"
proof (induction H m buf len pos s rule: factory_loop.induct)
  case (1 H m buf len pos s)
  obtain r1 s1 where e: "factory_entry H m buf pos len s = (r1, s1)" by fastforce
  let ?next = "pos + 512 + (ursus_tar_octal m (buf + pos + 124) 12 + 511) div 512 * 512"
  note unf = factory_loop.simps [of H m buf len pos s, unfolded e prod.case]
  consider "\<not> (pos + 512 \<le> len \<and> ursus_tar_magic m (buf + pos) (len - pos))"
    | "pos + 512 \<le> len \<and> ursus_tar_magic m (buf + pos) (len - pos)" "r1 \<noteq> 0 \<or> ?next \<le> pos \<or> len < ?next"
    | "pos + 512 \<le> len \<and> ursus_tar_magic m (buf + pos) (len - pos)" "r1 = 0" "\<not> (?next \<le> pos \<or> len < ?next)"
    by blast
  then show ?case
  proof cases
    case 1
    then show ?thesis using "1.prems" unfolding unf by (simp split: if_splits)
  next
    case 2
    then have "r = r1" "s' = s1" using "1.prems"(1) unfolding unf by (auto simp: Let_def split: if_splits)
    then show ?thesis using factory_entry_ok [OF _ "1.prems"(2)] factory_entry_id e by blast
  next
    case 3
    then have "factory_loop H m buf len ?next s1 = (r, s')" using "1.prems"(1) unfolding unf by (simp add: Let_def)
    moreover have "parts_ok H m buf len s1 \<and> image_id s1 = image_id s"
      using factory_entry_ok [OF _ "1.prems"(2)] e 3(2) by blast
    ultimately show ?thesis using "1.IH" [OF 3(1) e [symmetric] _ refl 3(3)] 3(2) by simp
  qed
qed

text \<open>
  A tar container that is accepted has its kernel and its root file system inside the file; the
  kernel is a FIT that has passed the verification, and the root file system starts with the magic of
  squashfs.
\<close>

theorem factory_parts_inside:
  assumes "ursus_validate_factory H m buf len s = (0, s')" "\<not> im_kernel_found s" "\<not> im_root_found s"
  shows "im_kernel_off s' + im_kernel_size s' \<le> len \<and> im_root_off s' + im_root_size s' \<le> len
    \<and> ursus_verify_fit H m (buf + im_kernel_off s') (im_kernel_size s') = (0, True)
    \<and> mem_read (buf + im_root_off s') 4 m = str_bytes ''hsqs''"
proof -
  obtain r t where t: "factory_loop H m buf len 0 s = (r, t)" by fastforce
  have "parts_ok H m buf len s" using assms(2,3) by (simp add: parts_ok_def)
  from factory_loop_ok [OF t this] show ?thesis
    using assms(1) by (auto simp: ursus_validate_factory_def t parts_ok_def kernel_ok_def root_ok_def split: if_splits)
qed

lemma ext_fit_accepted: "ursus_verify_fit ext_hash (ext_fit_ram t) 0x90000000 247 = (0, True)"
  by (simp add: ursus_verify_fit_def ext_fit_header ext_fit_fields ext_fit_format ext_fit_verifies FDT_HEADER_SIZE_def)

text \<open>The bytes of the sample container around its FIT.\<close>

lemma sample_tar_bytes:
  "mem_read 0x8fffff01 5 (ext_fit_ram t) = str_bytes ''ustar''" "mem_read 0x90000301 5 (ext_fit_ram t) = str_bytes ''ustar''"
  "ursus_tar_octal (ext_fit_ram t) 0x8ffffe7c 12 = 247" "ursus_tar_octal (ext_fit_ram t) 0x9000027c 12 = 4"
  "mem_read 0x90000400 4 (ext_fit_ram t) = str_bytes ''hsqs''"
  by (simp_all add: mem_read_def upt_conv_Cons ext_fit_ram_def mem_write_def length_ext_fit str_bytes_def
      ursus_tar_octal_def)

lemma sample_tar_names:
  "takeWhile (\<lambda>b. b \<noteq> 0) (mem_read 0x8ffffe00 100 (ext_fit_ram t)) = str_bytes ''a/kernel''"
  "takeWhile (\<lambda>b. b \<noteq> 0) (mem_read 0x90000200 100 (ext_fit_ram t)) = str_bytes ''a/root''"
  by (simp_all add: mem_read_def upt_conv_Cons ext_fit_ram_def mem_write_def length_ext_fit str_bytes_def)

lemma sample_tar_accepted:
  "\<exists>s. ursus_validate_factory ext_hash (ext_fit_ram t) 0x8ffffe00 1540 zero_img = (0, s)
     \<and> im_kernel_off s = 512 \<and> im_root_off s = 1536"
  by (simp add: ursus_validate_factory_def factory_loop.simps ursus_tar_magic_def sample_tar_bytes factory_entry_def
      sample_tar_names ext_fit_accepted ursus_name_ends_def str_bytes_def zero_img_def)

theorem factory_parts_inside_witness:
  "\<exists>s. ursus_validate_factory ext_hash (ext_fit_ram []) 0x8ffffe00 1540 zero_img = (0, s)
    \<and> im_kernel_off s + im_kernel_size s \<le> 1540 \<and> im_root_off s + im_root_size s \<le> 1540
    \<and> ursus_verify_fit ext_hash (ext_fit_ram []) (0x8ffffe00 + im_kernel_off s) (im_kernel_size s) = (0, True)
    \<and> mem_read (0x8ffffe00 + im_root_off s) 4 (ext_fit_ram []) = str_bytes ''hsqs''"
proof -
  obtain s where s: "ursus_validate_factory ext_hash (ext_fit_ram []) 0x8ffffe00 1540 zero_img = (0, s)"
    using sample_tar_accepted by blast
  then show ?thesis using factory_parts_inside [OF s] by (simp add: zero_img_def)
qed


end
