(* ===== verification/Web_Accept.thy ===== *)
theory Web_Accept
  imports Web_Image
begin

text \<open>
  What it means that the recovery server has accepted a staged file (\<open>ursus_validate_staged\<close> and
  \<open>ursus_validate_expert_fit\<close> of \<open>cmd/ursusweb.c\<close>): every check the operator relies on has been made on
  the bytes that are staged.
\<close>

section \<open>The checksum of the trailer\<close>

text \<open>The bitwise checksum of the trailer is the one of the boot loader, without the final inversion.\<close>

lemma crc32_fwtool: "ursus_crc32_fwtool crc buf = crc32_no_comp buf crc"
proof -
  have "(\<lambda>c. drop_bit 1 c XOR (if c AND 1 \<noteq> 0 then 0xedb88320 else 0)) = crc_round"
    by (rule ext) (simp add: crc_round_def crc_poly_value xor.commute)
  then show ?thesis by (simp add: ursus_crc32_fwtool_def crc32_no_comp_def crc32b_def [abs_def] crc_rounds_def)
qed

section \<open>The default configuration of a FIT\<close>

text \<open>
  The kernel of a configuration is for ARM64, and its device tree, read where it lies or from a copy,
  names the board.
\<close>

definition bootable_conf :: "ram \<Rightarrow> nat \<Rightarrow> int \<Rightarrow> nat \<Rightarrow> nat \<Rightarrow> bool" where
  "bootable_conf m fit conf data n \<longleftrightarrow>
     fit_image_get_arch m fit (fit_conf_get_prop_node m fit conf ''kernel'') = Some IH_ARCH_ARM64
     \<and> fit_image_get_type m fit (fit_conf_get_prop_node m fit conf ''fdt'') = Some IH_TYPE_FLATDT
     \<and> map_option (\<lambda>(p, len). (p, nat (len mod 2 ^ 64)))
           (fit_image_get_data m fit (fit_conf_get_prop_node m fit conf ''fdt'')) = Some (data, n)"

lemma bootable_confI:
  "fit_image_get_data m fit (fit_conf_get_prop_node m fit conf ''fdt'') = Some (data, len) \<Longrightarrow>
   fit_image_get_arch m fit (fit_conf_get_prop_node m fit conf ''kernel'') = Some IH_ARCH_ARM64 \<Longrightarrow>
   fit_image_get_type m fit (fit_conf_get_prop_node m fit conf ''fdt'') = Some IH_TYPE_FLATDT \<Longrightarrow>
   bootable_conf m fit conf data (nat (len mod 18446744073709551616))"
  by (simp add: bootable_conf_def)

definition board_tree :: "ram \<Rightarrow> nat \<Rightarrow> string \<Rightarrow> bool" where
  "board_tree m fit board \<longleftrightarrow>
     (\<exists>conf data n m' p c l. bootable_conf m fit conf data n \<and> mem_read p n m' = mem_read data n m
        \<and> fdt_check_header p (mem_read p FDT_V17_SIZE m') = 0
        \<and> fdt_getprop m' p 0 (str_bytes ''compatible'') = Inr (c, l) \<and> fdt_stringlist_contains m' c l board)"

text \<open>The part of the image state that the look at the default configuration leaves alone.\<close>

definition settled ::
  "ursus_image_state \<Rightarrow> (ursus_image_type \<times> nat \<times> nat \<times> bool \<times> bool \<times> bool) \<times> bool \<times> bool \<times> bool \<times> bool \<times> bool" where
  "settled s = (image_id s, im_fit_valid s, im_fit_hashes_valid s, im_kernel_found s, im_root_found s, im_bootable_fit s)"

definition platform_post :: "ram \<Rightarrow> nat \<Rightarrow> ursus_image_state \<Rightarrow> int \<times> ursus_image_state \<Rightarrow> bool" where
  "platform_post m fit s = (\<lambda>(r, s'). settled s' = settled s \<and> (r = 0 \<longrightarrow>
     im_kernel_arch_valid s' \<and> im_fdt_compatible s'
     \<and> (im_fdt_is_ubi s' \<longrightarrow> board_tree m fit ''nokia,xg-040g-md-ubi'')
     \<and> (im_fdt_is_stock s' \<longrightarrow> board_tree m fit ''nokia,xg-040g-md'')
     \<and> (im_fdt_is_ubi s' \<or> im_fdt_is_stock s')))"

lemma wp_check_platform_fdt:
  assumes "bootable_conf m fit conf data n" "mem_read p n (ram w) = mem_read data n m"
  shows "wp (check_platform_fdt p n (s\<lparr>im_kernel_arch_valid := True\<rparr>)) (\<lambda>r _. platform_post m fit s r) w"
proof -
  have "board_tree m fit board"
    if "fdt_check_header p (mem_read p FDT_V17_SIZE (ram w)) = 0"
      "fdt_getprop (ram w) p 0 (str_bytes ''compatible'') = Inr (c, l)" "fdt_stringlist_contains (ram w) c l board" for c l board
    unfolding board_tree_def using assms that by blast
  then show ?thesis
    by (auto simp: check_platform_fdt_def Let_def platform_post_def settled_def image_id_def split: sum.splits)
qed

lemma keeps_conf_node_ram: "keeps ram (fit_conf_get_node fit :: ('x world_scheme, int) state)"
  unfolding fit_conf_get_node_def Let_def
  by (intro keeps_intros keeps_malloc_buf) (simp_all add: view_defs)

lemma keeps_memalign_ram: "keeps ram (memalign_addr :: ('x world_scheme, nat) state)"
  by (rule keeps_memalign_addr) (simp add: view_defs)

lemma wp_check_copied_fdt:
  assumes "bootable_conf (ram w) fit conf data n" "ram w1 = ram w"
  shows "wp (do { d \<leftarrow> ram_read data n; ram_write p d; ursus_logf l;
                  check_platform_fdt p n (s\<lparr>im_kernel_arch_valid := True\<rparr>) }) (\<lambda>r _. platform_post (ram w) fit s r) w1"
  using assms by (auto simp: ram_read_def ram_write_def ursus_logf_def intro!: wp_check_platform_fdt)

lemma wp_fit_default_platform:
  "wp (ursus_fit_default_platform fit s) (\<lambda>r _. platform_post (ram w) fit s r) w"
proof -
  let ?m = "ram w" and ?s = "s\<lparr>im_kernel_arch_valid := True\<rparr>"
  have err: "platform_post ?m fit s (r, s) \<longleftrightarrow> r \<noteq> 0" "platform_post ?m fit s (r, ?s) \<longleftrightarrow> r \<noteq> 0" if "r < 0" for r
    using that by (simp_all add: platform_post_def settled_def image_id_def)
  show ?thesis
    unfolding ursus_fit_default_platform_def Let_def
  proof (rule wp_bind_keeps [OF keeps_conf_node_ram], unfold wp_bind [of "gets ram"] wp_gets, goal_cases)
    case (1 conf w1)
    then show ?case
      by (auto simp del: wp_bind simp: err split: option.splits
          intro!: wp_bind_keeps [OF keeps_memalign_ram] wp_check_platform_fdt wp_check_copied_fdt bootable_confI)
  qed
qed

section \<open>The main channel\<close>

text \<open>The trailer of a file has the right checksum, and its text lists the board.\<close>

definition listed_device :: "ram \<Rightarrow> nat \<Rightarrow> nat \<Rightarrow> string \<Rightarrow> bool" where
  "listed_device m addr len board \<longleftrightarrow>
     (\<exists>pos off n. off + n = pos \<and> pos + 16 \<le> len
        \<and> unat (crc32_no_comp (mem_read addr pos m) 0xffffffff) = ursus_be32 m (addr + pos + 4)
        \<and> occurs (quoted board) (mem_read (addr + off) n m))"

definition accepted_tar :: "hash_functions \<Rightarrow> ram \<Rightarrow> string \<Rightarrow> ursus_image_state \<Rightarrow> bool" where
  "accepted_tar H m layout s \<longleftrightarrow>
     listed_device m (im_addr s) (im_len s) ''nokia,xg-040g-md''
     \<and> im_kernel_off s + im_kernel_size s \<le> im_len s \<and> im_root_off s + im_root_size s \<le> im_len s
     \<and> ursus_verify_fit H m (im_addr s + im_kernel_off s) (im_kernel_size s) = (0, True)
     \<and> mem_read (im_addr s + im_root_off s) 4 m = str_bytes ''hsqs''
     \<and> (im_reason_class s = URSUS_RC_OK \<longrightarrow> is_stock_layout layout)"

definition accepted_ubi :: "hash_functions \<Rightarrow> ram \<Rightarrow> string \<Rightarrow> ursus_image_state \<Rightarrow> bool" where
  "accepted_ubi H m layout s \<longleftrightarrow>
     listed_device m (im_addr s) (im_len s) ''nokia,xg-040g-md-ubi''
     \<and> ursus_verify_fit H m (im_addr s) (im_len s) = (0, True)
     \<and> board_tree m (im_addr s) ''nokia,xg-040g-md-ubi'' \<and> im_kernel_found s \<and> im_root_found s
     \<and> (layout = ''OPENWRT_UBI'' \<or> is_stock_layout layout)"

definition accepted_image :: "hash_functions \<Rightarrow> ram \<Rightarrow> string \<Rightarrow> ursus_image_state \<Rightarrow> bool" where
  "accepted_image H m layout s \<longleftrightarrow> 0 < im_len s \<and> im_len s \<le> URSUS_STAGE_MAX
     \<and> (im_type s = URSUS_IMG_NONUBI_SYSUPGRADE \<and> accepted_tar H m layout s
        \<or> im_type s = URSUS_IMG_UBI_SYSUPGRADE \<and> accepted_ubi H m layout s)"

lemma fwtool_search_error: "fwtool_search m buf start pos = (r, meta) \<Longrightarrow> me_found meta \<Longrightarrow> r = 0"
proof (induction m buf start pos rule: fwtool_search.induct)
  case (1 m buf start pos)
  have "fwtool_found m buf pos = (r, meta) \<Longrightarrow> r = 0"
    using "1.prems"(2) by (auto simp: fwtool_found_def Let_def zero_meta_def split: if_splits prod.splits)
  then show ?case
    using 1 by (subst (asm) (2) fwtool_search.simps) (auto simp: zero_meta_def split: if_splits)
qed

lemma parse_fwtool_error: "ursus_parse_fwtool_meta m buf len = (r, meta) \<Longrightarrow> me_found meta \<Longrightarrow> r = 0"
  by (auto simp: ursus_parse_fwtool_meta_def zero_meta_def split: if_splits dest: fwtool_search_error)

lemma listed_device:
  assumes "ursus_parse_fwtool_meta m addr len = (r, meta)" "me_found meta" "me_crc_ok meta"
    and "32 \<le> len" "addr + len < 2 ^ 64"
  shows "(me_device_factory meta \<longrightarrow> listed_device m addr len ''nokia,xg-040g-md'')
    \<and> (me_device_ubi meta \<longrightarrow> listed_device m addr len ''nokia,xg-040g-md-ubi'')"
proof -
  have "r = 0" using parse_fwtool_error assms(1,2) by blast
  then obtain pos where pos: "trailer_at m addr len pos meta"
    using parse_fwtool_found assms by blast
  let ?json = "mem_read (addr + me_json_off meta) (me_json_len meta) m"
  have "listed_device m addr len board" if "occurs (quoted board) ?json" for board
    unfolding listed_device_def
    using pos that assms(3) unfolding trailer_at_def crc32_fwtool by blast
  moreover have "(me_device_factory meta \<longrightarrow> occurs (quoted ''nokia,xg-040g-md'') ?json)
      \<and> (me_device_ubi meta \<longrightarrow> occurs (quoted ''nokia,xg-040g-md-ubi'') ?json)"
    using pos unfolding trailer_at_def by (intro supported_devices_sound) blast
  ultimately show ?thesis by blast
qed

lemma inspect_fit_image_id: "image_id (inspect_fit_image m fit s node) = image_id s"
  by (simp add: inspect_fit_image_def Let_def image_id_def split: option.split)

lemma inspect_fit_images_id: "image_id (ursus_inspect_fit_images m fit s) = image_id s"
proof -
  have "image_id (foldl (inspect_fit_image m fit) s ns) = image_id s" for ns
    by (induction ns arbitrary: s) (simp_all add: inspect_fit_image_id)
  then show ?thesis by (simp add: ursus_inspect_fit_images_def Let_def)
qed

lemma staged_tar_accepted:
  assumes "ursus_parse_fwtool_meta m addr len = (mret, meta)" "addr + len < 2 ^ 64" "32 \<le> len"
    and "staged_tar H m addr len layout meta s = (0, s')" "im_addr s = addr" "im_len s = len"
    and "\<not> im_kernel_found s" "\<not> im_root_found s"
  shows "im_type s' = URSUS_IMG_NONUBI_SYSUPGRADE \<and> accepted_tar H m layout s' \<and> im_addr s' = addr \<and> im_len s' = len"
proof -
  let ?s = "s\<lparr>im_type := URSUS_IMG_NONUBI_SYSUPGRADE, im_device_compatible := me_device_factory meta\<rparr>"
  obtain r t where t: "ursus_validate_factory H m addr len ?s = (r, t)" by fastforce
  have v: "r = 0" "me_found meta" "me_crc_ok meta" "im_device_compatible t"
    and s': "im_type s' = im_type t" "im_addr s' = im_addr t" "im_len s' = im_len t" "im_kernel_off s' = im_kernel_off t"
      "im_kernel_size s' = im_kernel_size t" "im_root_off s' = im_root_off t" "im_root_size s' = im_root_size t"
      "im_reason_class s' = URSUS_RC_OK \<longrightarrow> is_stock_layout layout"
    using assms(4) by (auto simp: staged_tar_def t ursus_set_reason_def reason_classes snprintf_def split: if_splits)
  obtain r1 t1 where "factory_loop H m addr len 0 ?s = (r1, t1)" by fastforce
  moreover have "parts_ok H m addr len ?s" using assms(7,8) by (simp add: parts_ok_def)
  ultimately have "image_id t = image_id ?s \<and> (parts_ok H m addr len t \<and> im_kernel_found t \<and> im_root_found t
      \<and> im_fit_valid t \<and> im_fit_hashes_valid t)"
    using factory_loop_ok t v(1) by (fastforce simp: ursus_validate_factory_def split: if_splits)
  moreover have "me_device_factory meta" using calculation v(4) by (simp add: image_id_def)
  ultimately show ?thesis
    using listed_device [OF assms(1) v(2,3) assms(3,2)] assms(5,6)
    by (auto simp: accepted_tar_def s' image_id_def parts_ok_def kernel_ok_def root_ok_def)
qed

definition staged_post :: "hash_functions \<Rightarrow> ram \<Rightarrow> string \<Rightarrow> nat \<Rightarrow> nat \<Rightarrow> int \<times> ursus_image_state \<Rightarrow> bool" where
  "staged_post H m layout addr len = (\<lambda>(r, s'). r = 0 \<longrightarrow>
     accepted_image H m layout s' \<and> im_addr s' = addr \<and> im_len s' = len)"

lemma staged_post_error: "r \<noteq> 0 \<Longrightarrow> staged_post H m layout addr len (r, s')"
  by (simp add: staged_post_def)

lemma wp_staged_ubi_fit:
  assumes "ursus_parse_fwtool_meta (ram w) addr len = (mret, meta)" "me_found meta" "addr + len < 2 ^ 64" "32 \<le> len"
    and "ursus_verify_fit H (ram w) addr len = (0, True)" "im_addr s = addr" "im_len s = len" "len \<le> URSUS_STAGE_MAX"
  shows "wp (staged_ubi_fit addr layout meta s) (\<lambda>r _. staged_post H (ram w) layout addr len r) w"
proof -
  let ?s = "ursus_inspect_fit_images (ram w) addr (s\<lparr>im_type := URSUS_IMG_UBI_SYSUPGRADE\<rparr>)"
  have id: "im_type ?s = URSUS_IMG_UBI_SYSUPGRADE" "im_addr ?s = addr" "im_len ?s = len"
    using inspect_fit_images_id [of "ram w" addr "s\<lparr>im_type := URSUS_IMG_UBI_SYSUPGRADE\<rparr>"] assms(6,7)
    by (simp_all add: image_id_def)
  note dev = listed_device [OF assms(1,2) _ assms(4,3)]
  show ?thesis
    unfolding staged_ubi_fit_def wp_bind [of "gets ram"] wp_gets
  proof (rule wp_bindI [OF wp_fit_default_platform], clarsimp, goal_cases)
    case (1 pret s1 w1)
    then have "im_type s1 = URSUS_IMG_UBI_SYSUPGRADE" "im_addr s1 = addr" "im_len s1 = len"
      by (simp_all add: platform_post_def settled_def image_id_def id)
    then show ?case
      using 1 dev assms(4,5,8)
      by (auto simp: Let_def staged_post_def accepted_image_def accepted_ubi_def platform_post_def ursus_set_reason_def)
  qed
qed

lemma wp_staged_fit:
  assumes "ursus_parse_fwtool_meta (ram w) addr len = (mret, meta)" "addr + len < 2 ^ 64"
    and "im_addr s = addr" "im_len s = len" "len \<le> URSUS_STAGE_MAX"
  shows "wp (staged_fit H addr len layout meta s) (\<lambda>r _. staged_post H (ram w) layout addr len r) w"
proof -
  obtain vret h where v: "ursus_verify_fit H (ram w) addr len = (vret, h)" by fastforce
  have ok: "h \<and> 32 \<le> len" if "vret = 0"
    using v that by (auto simp: ursus_verify_fit_def Let_def FDT_HEADER_SIZE_def split: if_splits)
  show ?thesis
  proof (cases "vret = 0 \<and> me_found meta")
    case True
    then show ?thesis
      using wp_staged_ubi_fit [OF assms(1) _ assms(2) _ _ _ _ assms(5)] ok v assms(3,4)
      by (simp add: staged_fit_def Let_def)
  next
    case False
    then show ?thesis
      by (auto simp: staged_fit_def v Let_def staged_post_def intro!: wp_bind_any simp del: wp_bind simp: wp_bind [of "gets ram"])
  qed
qed

lemma wp_classify_staged:
  assumes "addr + len < 2 ^ 64" "im_addr s = addr" "im_len s = len" "\<not> im_kernel_found s" "\<not> im_root_found s"
  shows "wp (classify_staged H addr len layout s) (\<lambda>r _. staged_post H (ram w) layout addr len r) w"
proof -
  obtain mret meta where p: "ursus_parse_fwtool_meta (ram w) addr len = (mret, meta)" by fastforce
  have tar: "staged_post H (ram w) layout addr len (staged_tar H (ram w) addr len layout meta t)"
    if "ursus_tar_magic (ram w) addr len" "len \<le> URSUS_STAGE_MAX"
      "im_addr t = addr" "im_len t = len" "\<not> im_kernel_found t" "\<not> im_root_found t" for t
  proof -
    have "32 \<le> len" using that(1) by (simp add: ursus_tar_magic_def)
    then show ?thesis
      using staged_tar_accepted [OF p assms(1) _ _ that(3-6)] that(2)
      by (fastforce simp: staged_post_def accepted_image_def split: prod.splits)
  qed
  show ?thesis
    by (auto simp: classify_staged_def p Let_def staged_post_error assms(2-) intro!: tar wp_staged_fit [OF p assms(1)])
qed

text \<open>
  C11: a file that the main channel accepts is the file that is staged, and every check has been made on
  its bytes: its trailer has the right checksum and lists the board, and it is either a tar container
  with a verified kernel and a squashfs inside the file, ready to be installed only in the vendor's
  layout, or a verified FIT whose device tree names the board.
\<close>

theorem staged_image_accepted:
  assumes "run_state (ursus_validate_staged H addr len) w = (0, w')" "addr + len < 2 ^ 64"
  shows "accepted_image H (ram w) (ursus_current_layout w) (ursus_img w')
    \<and> im_addr (ursus_img w') = addr \<and> im_len (ursus_img w') = len"
proof -
  have "wp (ursus_validate_staged H addr len) (\<lambda>r w'. staged_post H (ram w) (ursus_current_layout w) addr len (r, ursus_img w')) w"
    unfolding ursus_validate_staged_def ursus_reset_image_state_def ursus_logf_def wp_bind wp_modify wp_gets
    by (rule wp_mono, rule wp_classify_staged)
      (use assms(2) in \<open>auto simp: no_staged_image_def zero_img_def ursus_set_reason_def\<close>)
  from wp_run [OF this assms(1)] show ?thesis by (simp add: staged_post_def)
qed

section \<open>The expert channel\<close>

text \<open>
  A FIT is marked as bootable only when it has passed every check: its hashes, the architecture of the
  kernel and the board named by its device tree, which is the one for the layout of the flash.
\<close>

definition bootable_image :: "hash_functions \<Rightarrow> ram \<Rightarrow> string \<Rightarrow> nat \<Rightarrow> nat \<Rightarrow> bool" where
  "bootable_image H m layout addr len \<longleftrightarrow>
     len \<le> URSUS_STAGE_MAX \<and> ursus_verify_fit H m addr len = (0, True)
     \<and> (board_tree m addr ''nokia,xg-040g-md-ubi'' \<or> board_tree m addr ''nokia,xg-040g-md'')
     \<and> (layout = ''OPENWRT_UBI'' \<longrightarrow> board_tree m addr ''nokia,xg-040g-md-ubi'')
     \<and> (is_stock_layout layout \<longrightarrow> board_tree m addr ''nokia,xg-040g-md'')"

definition expert_post :: "hash_functions \<Rightarrow> ram \<Rightarrow> string \<Rightarrow> nat \<Rightarrow> nat \<Rightarrow> int \<times> ursus_image_state \<Rightarrow> bool" where
  "expert_post H m layout addr len = (\<lambda>(r, s'). im_addr s' = addr \<and> im_len s' = len
     \<and> (im_bootable_fit s' \<longleftrightarrow> r = 0) \<and> (r = 0 \<longrightarrow> im_type s' = URSUS_IMG_FIT \<and> bootable_image H m layout addr len))"

lemma inspect_fit_images_bootable: "im_bootable_fit (ursus_inspect_fit_images m fit s) = im_bootable_fit s"
proof -
  have "im_bootable_fit (inspect_fit_image m fit s node) = im_bootable_fit s" for s node
    by (simp add: inspect_fit_image_def Let_def split: option.split)
  then have "im_bootable_fit (foldl (inspect_fit_image m fit) s ns) = im_bootable_fit s" for ns
    by (induction ns arbitrary: s) simp_all
  then show ?thesis by (simp add: ursus_inspect_fit_images_def Let_def)
qed

lemma wp_classify_expert:
  assumes "im_addr s = addr" "im_len s = len" "\<not> im_bootable_fit s"
  shows "wp (classify_expert H addr len layout s) (\<lambda>r _. expert_post H (ram w) layout addr len r) w"
proof -
  obtain r h where v: "ursus_verify_fit H (ram w) addr len = (r, h)" by fastforce
  let ?s = "ursus_inspect_fit_images (ram w) addr (s\<lparr>im_fit_valid := True, im_fit_hashes_valid := h\<rparr>)"
  have id: "im_addr ?s = addr" "im_len ?s = len" "\<not> im_bootable_fit ?s"
    using inspect_fit_images_id [of "ram w" addr "s\<lparr>im_fit_valid := True, im_fit_hashes_valid := h\<rparr>"] assms
    by (simp_all add: image_id_def inspect_fit_images_bootable)
  have h: "r = 0 \<Longrightarrow> h"
    using v by (auto simp: ursus_verify_fit_def Let_def split: if_splits)
  show ?thesis
  proof (cases "\<not> map_sysmem_null addr \<and> len \<noteq> 0 \<and> len \<le> URSUS_STAGE_MAX \<and> 4 \<le> len
      \<and> ursus_be32 (ram w) addr = FDT_MAGIC \<and> r = 0")
    case False
    then show ?thesis by (auto simp: classify_expert_def v Let_def expert_post_def ursus_set_reason_def assms)
  next
    case True
    then have e: "\<not> map_sysmem_null addr" "len \<noteq> 0" "\<not> URSUS_STAGE_MAX < len" "\<not> len < 4"
      "ursus_be32 (ram w) addr = FDT_MAGIC" "r = 0" "h"
      using h by auto
    show ?thesis
      unfolding classify_expert_def wp_if wp_bind [of "gets ram"] wp_gets
    proof (simp del: wp_bind add: v e Let_def, rule wp_bindI [OF wp_fit_default_platform], clarsimp, goal_cases)
      case (1 pret s1)
      then have "im_addr s1 = addr" "im_len s1 = len" "\<not> im_bootable_fit s1" using id e
        by (simp_all add: platform_post_def settled_def image_id_def)
      then show ?case
        using 1 e True v
        by (auto simp: expert_post_def platform_post_def bootable_image_def ursus_set_reason_def)
    qed
  qed
qed

lemma expert_bootable:
  assumes "run_state (ursus_validate_expert_fit H addr len) w = (r, w')"
  shows "expert_post H (ram w) (ursus_current_layout w) addr len (r, ursus_expert_img w')"
proof -
  have "wp (ursus_validate_expert_fit H addr len)
      (\<lambda>r w'. expert_post H (ram w) (ursus_current_layout w) addr len (r, ursus_expert_img w')) w"
    unfolding ursus_validate_expert_fit_def ursus_reset_expert_state_def ursus_logf_def wp_bind wp_modify wp_gets
    by (rule wp_mono, rule wp_classify_expert) (auto simp: no_initramfs_def zero_img_def ursus_set_reason_def)
  from wp_run [OF this assms] show ?thesis .
qed

section \<open>A file that is accepted\<close>

text \<open>The sample container with a text that lists the board and a trailer with the checksum.\<close>

definition sample_devices :: bytes where
  "sample_devices = replicate 8 0 @ str_bytes ''{'' @ quoted ''supported_devices'' @ str_bytes '':[''
     @ quoted ''nokia,xg-040g-md'' @ str_bytes '']}''"

definition be32_bytes :: "32 word \<Rightarrow> bytes" where
  "be32_bytes c = [ucast (drop_bit 24 c), ucast (drop_bit 16 c), ucast (drop_bit 8 c), ucast c]"

definition sample_crc :: "32 word" where
  "sample_crc = ursus_crc32_fwtool 0xffffffff (mem_read 0x8ffffe00 1590 (ext_fit_ram sample_devices))"

definition sample_trailer :: bytes where
  "sample_trailer = [0x46, 0x57, 0x78, 0x30] @ be32_bytes sample_crc @ [1, 0, 0, 0, 0, 0, 0, 66]"

definition sample_tar :: ram where
  "sample_tar = ext_fit_ram (sample_devices @ sample_trailer)"

definition sample_image :: image_world where
  "sample_image = dispatch_world.extend ((sample_dispatch False)\<lparr>ram := sample_tar\<rparr>)
     (image_world.fields [] no_staged_image no_initramfs ''STOCK'')"

lemma length_sample_devices: "length sample_devices = 50"
  by (simp add: sample_devices_def quoted_def str_bytes_def)

lemma be32_bytes_sum:
  "unat (ucast (drop_bit 24 c) :: 8 word) * 2 ^ 24 + unat (ucast (drop_bit 16 c) :: 8 word) * 2 ^ 16
   + unat (ucast (drop_bit 8 c) :: 8 word) * 2 ^ 8 + unat (ucast c :: 8 word) = unat c" for c :: "32 word"
proof -
  let ?n = "unat c"
  have "?n < 2 ^ 32" using unsigned_less [of c, where 'a = nat] by simp
  then have d: "?n div 256 div 256 = ?n div 65536" "?n div 65536 div 256 = ?n div 16777216" "?n div 16777216 < 256"
    by (simp_all flip: div_mult2_eq)
  have "?n div 16777216 mod 256 * 16777216 + ?n div 65536 mod 256 * 65536 + ?n div 256 mod 256 * 256 + ?n mod 256 = ?n"
    using div_mult_mod_eq [of ?n 256] div_mult_mod_eq [of "?n div 256" 256, unfolded d]
      div_mult_mod_eq [of "?n div 65536" 256, unfolded d] mod_less [OF d(3)]
    by linarith
  then show ?thesis
    using d(3) by (simp add: unsigned_ucast_eq unsigned_drop_bit_eq take_bit_eq_mod drop_bit_eq_div unat_div)
qed

lemma mem_write_cong: "f k = g k \<Longrightarrow> mem_write a xs f k = mem_write a xs g k"
  by (simp add: mem_write_def)

lemma sample_tar_front: "k < 0x90000436 \<Longrightarrow> sample_tar k = ext_fit_ram sample_devices k"
proof -
  assume "k < 0x90000436"
  then have "mem_write 0x90000404 (sample_devices @ sample_trailer) (\<lambda>_. 0) k = mem_write 0x90000404 sample_devices (\<lambda>_. 0) k"
    by (auto simp: mem_write_def length_sample_devices nth_append)
  then show ?thesis unfolding sample_tar_def ext_fit_ram_def by (intro mem_write_cong)
qed

lemma sample_tar_crc: "ursus_crc32_fwtool 0xffffffff (mem_read 0x8ffffe00 1590 sample_tar) = sample_crc"
proof -
  have "mem_read 0x8ffffe00 1590 sample_tar = mem_read 0x8ffffe00 1590 (ext_fit_ram sample_devices)"
    unfolding mem_read_def by (rule map_cong) (auto simp: sample_tar_front simp del: upt_rec_numeral)
  then show ?thesis by (simp add: sample_crc_def)
qed

lemma sample_tar_trailer: "i < 16 \<Longrightarrow> sample_tar (0x90000436 + i) = sample_trailer ! i"
proof -
  assume i: "i < 16"
  have "length sample_trailer = 16" by (simp add: sample_trailer_def be32_bytes_def)
  then have "mem_write 0x90000404 (sample_devices @ sample_trailer) (\<lambda>_. 0) (0x90000436 + i) = sample_trailer ! i"
    using i by (simp add: mem_write_def length_sample_devices nth_append)
  then show ?thesis using i by (simp add: sample_tar_def ext_fit_ram_def mem_write_def length_ext_fit str_bytes_def)
qed

lemma sample_trailer_bytes:
  "ursus_be32 sample_tar 0x90000436 = URSUS_FWTOOL_MAGIC" "ursus_be32 sample_tar 0x9000043a = unat sample_crc"
  "sample_tar 0x9000043e = 1" "ursus_be32 sample_tar 0x90000442 = 66"
proof -
  note t = sample_tar_trailer [of 0] sample_tar_trailer [of 1] sample_tar_trailer [of 2] sample_tar_trailer [of 3]
    sample_tar_trailer [of 4] sample_tar_trailer [of 5] sample_tar_trailer [of 6] sample_tar_trailer [of 7]
    sample_tar_trailer [of 8] sample_tar_trailer [of 12] sample_tar_trailer [of 13] sample_tar_trailer [of 14]
    sample_tar_trailer [of 15]
  note b = t [simplified, unfolded sample_trailer_def be32_bytes_def, simplified]
  show "ursus_be32 sample_tar 0x90000436 = URSUS_FWTOOL_MAGIC" "sample_tar 0x9000043e = 1" "ursus_be32 sample_tar 0x90000442 = 66"
    by (simp_all add: ursus_be32_def b URSUS_FWTOOL_MAGIC_def)
  show "ursus_be32 sample_tar 0x9000043a = unat sample_crc"
    unfolding ursus_be32_def by (simp add: b flip: be32_bytes_sum [of sample_crc])
qed

lemma sample_devices_text:
  "mem_read 0x9000040c 42 sample_tar = drop 8 sample_devices"
proof (rule nth_equalityI)
  fix i assume "i < length (mem_read 0x9000040c 42 sample_tar)"
  then have i: "i < 42" by simp
  then have "mem_read 0x9000040c 42 sample_tar ! i = sample_tar (0x9000040c + i)"
    unfolding mem_read_def by (subst nth_map) (simp_all del: upt_rec_numeral)
  also have "\<dots> = ext_fit_ram sample_devices (0x9000040c + i)" using i by (simp add: sample_tar_front)
  also have "\<dots> = sample_devices ! (8 + i)"
    using i by (simp add: ext_fit_ram_def mem_write_def length_ext_fit str_bytes_def length_sample_devices)
  finally show "mem_read 0x9000040c 42 sample_tar ! i = drop 8 sample_devices ! i"
    using i by (simp add: length_sample_devices)
qed (simp add: length_sample_devices)

lemma sample_devices_listed:
  "ursus_json_exact_supported_devices (drop 8 sample_devices) = (True, True, False)"
  by (simp add: sample_devices_def quoted_def str_bytes_def ursus_json_exact_supported_devices_def ursus_json_ws_def
      json_devices.simps)

lemma sample_meta:
  "ursus_parse_fwtool_meta sample_tar 0x8ffffe00 1606 =
     (0, \<lparr>me_found = True, me_crc_ok = True, me_supported_devices_present = True, me_device_factory = True,
          me_device_ubi = False, me_json_off = 1548, me_json_len = 42\<rparr>)"
proof -
  have "fwtool_match sample_tar 0x8ffffe00 1590"
    by (simp add: fwtool_match_def fwtool_addr_def sample_trailer_bytes URSUS_FWTOOL_INFO_def)
  moreover have "fwtool_addr 0x8ffffe00 1590 12 = 0x90000442" "fwtool_addr 0x8ffffe00 1590 4 = 0x9000043a"
    "fwtool_addr 0x8ffffe00 1548 0 = 0x9000040c"
    by (simp_all add: fwtool_addr_def)
  ultimately show ?thesis
    by (simp add: ursus_parse_fwtool_meta_def fwtool_search.simps fwtool_found_def sample_trailer_bytes Let_def
        sample_tar_crc sample_devices_text sample_devices_listed)
qed

lemma sample_image_simps [simp]:
  "ram sample_image = sample_tar" "ursus_current_layout sample_image = ''STOCK''"
  by (simp_all add: sample_image_def dispatch_world.extend_def image_world.fields_def)

lemma sample_factory:
  "\<exists>s'. ursus_validate_factory ext_hash sample_tar 0x8ffffe00 1606 s = (0, s') \<and> im_device_compatible s' = im_device_compatible s"
  by (simp add: sample_tar_def ursus_validate_factory_def factory_loop.simps ursus_tar_magic_def sample_tar_bytes factory_entry_def
      sample_tar_names ext_fit_accepted ursus_name_ends_def str_bytes_def)

lemma sample_accepted: "fst (run_state (ursus_validate_staged ext_hash 0x8ffffe00 1606) sample_image) = 0"
proof -
  have m: "ursus_tar_magic sample_tar 0x8ffffe00 1606"
    by (simp add: sample_tar_def ursus_tar_magic_def sample_tar_bytes)
  have t: "r = 0"
    if "staged_tar ext_hash sample_tar 0x8ffffe00 1606 ''STOCK'' meta s = (r, s')"
      "me_found meta" "me_crc_ok meta" "me_supported_devices_present meta" "me_device_factory meta" for meta s r s'
    using that sample_factory [of "s\<lparr>im_type := URSUS_IMG_NONUBI_SYSUPGRADE, im_device_compatible := True\<rparr>"]
    by (auto simp: staged_tar_def is_stock_layout_def)
  show ?thesis
    by (auto simp: ursus_validate_staged_def ursus_reset_image_state_def ursus_logf_def classify_staged_def map_sysmem_null_def
        URSUS_STAGE_MAX_def sample_meta m Let_def split: prod.split dest: t)
qed

theorem staged_image_accepted_witness:
  "\<exists>w'. run_state (ursus_validate_staged ext_hash 0x8ffffe00 1606) sample_image = (0, w')
    \<and> accepted_image ext_hash sample_tar ''STOCK'' (ursus_img w')
    \<and> im_addr (ursus_img w') = 0x8ffffe00 \<and> im_len (ursus_img w') = 1606"
proof -
  obtain w' where w: "run_state (ursus_validate_staged ext_hash 0x8ffffe00 1606) sample_image = (0, w')"
    using sample_accepted by (metis prod.collapse)
  from staged_image_accepted [OF this] show ?thesis using w by simp
qed

end
