(* ===== verification/Web_Conn.thy ===== *)
theory Web_Conn
  imports Web_Accept
begin

text \<open>
  The connections of the recovery server (\<open>cmd/ursusweb.c\<close>): the objects it keeps for each TCP
  connection, the sessions of the five kinds of upload, the responses and how they are handed to the TCP
  stack, and the two requests that open an upload and announce a chunk.  The TCP stack is an oracle.
\<close>

section \<open>Constants and types\<close>

definition URSUS_UPLOAD_CHUNK_MAX :: nat where "URSUS_UPLOAD_CHUNK_MAX = 0x10000"
definition URSUS_JSON_MAX :: nat where "URSUS_JSON_MAX = 8192"
definition URSUS_UBI_PRELOADER_ADDR :: nat where "URSUS_UBI_PRELOADER_ADDR = 0x8f000000"
definition URSUS_FIP_STAGE_ADDR :: nat where "URSUS_FIP_STAGE_ADDR = 0x8e000000"
definition URSUS_FIP_STAGE_MAX :: nat where "URSUS_FIP_STAGE_MAX = 0x100000"
definition URSUS_REBOOT_GRACE_MS :: nat where "URSUS_REBOOT_GRACE_MS = 500"

abbreviation (input) ERR_OK :: int where "ERR_OK \<equiv> 0"
abbreviation (input) ERR_MEM :: int where "ERR_MEM \<equiv> - 1"
abbreviation (input) ERR_VAL :: int where "ERR_VAL \<equiv> - 6"
abbreviation (input) ERR_ABRT :: int where "ERR_ABRT \<equiv> - 13"

datatype ursus_upload_kind =
  URSUS_UPLOAD_NONE | URSUS_UPLOAD_FIRMWARE | URSUS_UPLOAD_INITRAMFS | URSUS_UPLOAD_UBI_PRELOADER
| URSUS_UPLOAD_URSUS_FIP | URSUS_UPLOAD_VANILLA_FIP

record ursus_upload_session =
  us_kind :: ursus_upload_kind
  us_addr :: nat
  us_max_len :: nat
  us_total :: nat
  us_received :: nat
  us_active :: bool
  us_generation :: string
  us_filename :: string

definition zero_session :: ursus_upload_session where
  "zero_session = \<lparr>us_kind = URSUS_UPLOAD_NONE, us_addr = 0, us_max_len = 0, us_total = 0, us_received = 0,
                   us_active = False, us_generation = [], us_filename = []\<rparr>"

text \<open>What the body pointer of a response refers to: a constant text, or one of the static buffers.\<close>

datatype response_body = Constant_body string | Status_body | Reply_body | Log_body | Console_body

text \<open>A connection; \<open>reqhdr_len\<close> and \<open>hdr_len\<close> are the lengths of the two texts.\<close>

record ursus_conn =
  cn_id :: nat
  cn_reqhdr :: string
  cn_headers_done :: bool
  cn_is_upload :: bool
  cn_upload_kind :: ursus_upload_kind
  cn_upload_addr :: nat
  cn_upload_offset :: nat
  cn_upload_total :: nat
  cn_content_len :: nat
  cn_upload_received :: nat
  cn_upload_generation :: string
  cn_hdr :: string
  cn_body :: response_body
  cn_hdr_off :: nat
  cn_body_len :: nat
  cn_body_off :: nat
  cn_acked :: nat
  cn_total_len :: nat
  cn_response_started :: bool
  cn_all_queued :: bool
  cn_remote_eof :: bool
  cn_stop_after_response :: bool
  cn_reboot_after_response :: bool

definition zero_conn :: ursus_conn where
  "zero_conn =
     \<lparr>cn_id = 0, cn_reqhdr = [], cn_headers_done = False, cn_is_upload = False, cn_upload_kind = URSUS_UPLOAD_NONE,
      cn_upload_addr = 0, cn_upload_offset = 0, cn_upload_total = 0, cn_content_len = 0, cn_upload_received = 0,
      cn_upload_generation = [], cn_hdr = [], cn_body = Constant_body [], cn_hdr_off = 0, cn_body_len = 0,
      cn_body_off = 0, cn_acked = 0, cn_total_len = 0, cn_response_started = False, cn_all_queued = False,
      cn_remote_eof = False, cn_stop_after_response = False, cn_reboot_after_response = False\<rparr>"

text \<open>
  The TCP stack: how much room it has and what its calls return, by the number of the call.
\<close>

record network =
  tcp_sndbuf :: "nat \<Rightarrow> nat"
  tcp_write :: "nat \<Rightarrow> int"
  tcp_output :: "nat \<Rightarrow> int"

text \<open>
  The static variables.  Connections are found by their TCP control block, which a number stands for;
  \<open>tcp_out\<close> is what the stack has taken over for a connection.  The static buffers are their C strings,
  and \<open>stale_body\<close> is what the buffers hold behind the end of those.
\<close>

record web_world = image_world +
  ursus_uploads :: "ursus_upload_kind \<Rightarrow> ursus_upload_session"
  ursus_preloader_valid :: bool
  ursus_fip_upload_valid :: bool
  ursus_vanilla_upload_valid :: bool
  ursus_conns :: "nat \<Rightarrow> ursus_conn option"
  ursus_conn_id :: nat
  ursus_status_body :: string
  ursus_reply_body :: string
  ursus_console_body :: string
  stale_body :: "response_body \<Rightarrow> nat \<Rightarrow> char"
  ursus_console_pending :: "(nat \<times> string) option"
  ursus_stop :: bool
  ursus_pending_reboot :: bool
  ursus_reboot_response_queued :: bool
  ursus_reboot_response_queued_at :: nat
  tcp_out :: "nat \<Rightarrow> string"
  net :: network

type_synonym ('x, 'a) server = "('x web_world_scheme, 'a) state"

definition set_conn :: "nat \<Rightarrow> ursus_conn option \<Rightarrow> ('x, unit) server" where
  "set_conn p c = modify (\<lambda>w. w\<lparr>ursus_conns := (ursus_conns w)(p := c)\<rparr>)"

definition set_session :: "ursus_upload_kind \<Rightarrow> ursus_upload_session \<Rightarrow> ('x, unit) server" where
  "set_session k u = modify (\<lambda>w. w\<lparr>ursus_uploads := (ursus_uploads w)(k := u)\<rparr>)"

section \<open>JSON replies\<close>

datatype json_value = JString string | JPlain string

definition json_value_text :: "json_value \<Rightarrow> string" where
  "json_value_text v = (case v of JString s \<Rightarrow> QUOTE # s @ [QUOTE] | JPlain s \<Rightarrow> s)"

definition json_field :: "string \<times> json_value \<Rightarrow> string" where
  "json_field f = QUOTE # fst f @ [QUOTE] @ '':'' @ json_value_text (snd f)"

fun json_fields :: "(string \<times> json_value) list \<Rightarrow> string" where
  "json_fields [] = []"
| "json_fields [f] = json_field f"
| "json_fields (f # g # fs) = json_field f @ '','' @ json_fields (g # fs)"

definition json_object :: "(string \<times> json_value) list \<Rightarrow> string" where
  "json_object fs = ''{'' @ json_fields fs @ ''}'' @ [LF]"

definition json_bool :: "bool \<Rightarrow> json_value" where
  "json_bool b = JPlain (if b then ''true'' else ''false'')"

definition json_uint :: "nat \<Rightarrow> json_value" where
  "json_uint n = JPlain (pu n)"

definition set_reply :: "(string \<times> json_value) list \<Rightarrow> ('x, unit) server" where
  "set_reply fs = modify (\<lambda>w. w\<lparr>ursus_reply_body := snprintf URSUS_JSON_MAX (json_object fs)\<rparr>)"

section \<open>Responses\<close>

text \<open>The text a body pointer points to, and the bytes at an offset, which may lie behind its end.\<close>

definition body_text :: "'x web_world_scheme \<Rightarrow> response_body \<Rightarrow> string" where
  "body_text w b =
     (case b of
        Constant_body s \<Rightarrow> s
      | Status_body \<Rightarrow> ursus_status_body w
      | Reply_body \<Rightarrow> ursus_reply_body w
      | Log_body \<Rightarrow> ursus_web_log w
      | Console_body \<Rightarrow> ursus_console_body w)"

definition body_bytes :: "'x web_world_scheme \<Rightarrow> response_body \<Rightarrow> nat \<Rightarrow> nat \<Rightarrow> string" where
  "body_bytes w b off n =
     map (\<lambda>i. if i < length (body_text w b) then body_text w b ! i else stale_body w b i) [off..<off + n]"

definition unsent :: "ursus_conn \<Rightarrow> nat" where
  "unsent c = (length (cn_hdr c) - cn_hdr_off c) + (cn_body_len c - cn_body_off c)"

text \<open>
  The loop of \<open>ursus_http_pump\<close>.  Every turn that does not leave the loop hands over at least one byte,
  so the number of unsent bytes bounds it.  The result is an error to return at once, or the connection
  and whether anything was written.
\<close>

primrec pump_loop :: "nat \<Rightarrow> nat \<Rightarrow> ursus_conn \<Rightarrow> bool \<Rightarrow> ('x, (int \<times> ursus_conn) + (ursus_conn \<times> bool)) server" where
  "pump_loop 0 p c wrote = ret (Inr (c, wrote))"
| "pump_loop (Suc n) p c wrote =
     (if \<not> (cn_hdr_off c < length (cn_hdr c) \<or> cn_body_off c < cn_body_len c) then ret (Inr (c, wrote))
      else do {
        t \<leftarrow> io_tick;
        snd \<leftarrow> gets (\<lambda>w. tcp_sndbuf (net w) t mod 2 ^ 16);
        if snd = 0 then ret (Inr (c, wrote))
        else do {
          let in_hdr = cn_hdr_off c < length (cn_hdr c);
          let remain = (if in_hdr then length (cn_hdr c) - cn_hdr_off c else cn_body_len c - cn_body_off c);
          let chunk = min (min remain snd) 1024;
          src \<leftarrow> gets (\<lambda>w. if in_hdr then take chunk (drop (cn_hdr_off c) (cn_hdr c))
                            else body_bytes w (cn_body c) (cn_body_off c) chunk);
          t \<leftarrow> io_tick;
          err \<leftarrow> gets (\<lambda>w. tcp_write (net w) t);
          if err = ERR_MEM then ret (Inr (c, wrote))
          else if err \<noteq> ERR_OK then ret (Inl (err, c))
          else do {
            modify (\<lambda>w. w\<lparr>tcp_out := (tcp_out w)(p := tcp_out w p @ src)\<rparr>);
            pump_loop n p (if in_hdr then c\<lparr>cn_hdr_off := cn_hdr_off c + chunk\<rparr>
                           else c\<lparr>cn_body_off := cn_body_off c + chunk\<rparr>) True
          }
        }
      })"

text \<open>The response is complete in the queue of the stack: note when, if a reboot waits for it.\<close>

definition note_queued :: "ursus_conn \<Rightarrow> ('x, ursus_conn) server" where
  "note_queued c =
     (if \<not> cn_all_queued c \<and> cn_hdr_off c = length (cn_hdr c) \<and> cn_body_off c = cn_body_len c
      then do {
        queued \<leftarrow> gets ursus_reboot_response_queued;
        when_m (cn_reboot_after_response c \<and> \<not> queued) (do {
          now \<leftarrow> get_timer 0;
          modify (\<lambda>w. w\<lparr>ursus_reboot_response_queued := True, ursus_reboot_response_queued_at := now\<rparr>);
          ursus_logf [''WEB REBOOT: HTTP 200 queued grace_ms='', pu URSUS_REBOOT_GRACE_MS, [LF]]
        });
        ret (c\<lparr>cn_all_queued := True\<rparr>)
      }
      else ret c)"

text \<open>The connection is an argument and part of the result, as the code works on it in place.\<close>

definition ursus_http_pump :: "nat \<Rightarrow> ursus_conn \<Rightarrow> ('x, int \<times> ursus_conn) server" where
  "ursus_http_pump p c = do {
     l \<leftarrow> pump_loop (unsent c) p c False;
     case l of
       Inl (err, c) \<Rightarrow> ret (err, c)
     | Inr (c, wrote) \<Rightarrow> do {
         err \<leftarrow> (if wrote then do { t \<leftarrow> io_tick; gets (\<lambda>w. tcp_output (net w) t) } else ret ERR_OK);
         if err \<noteq> ERR_OK then ret (err, c)
         else do { c \<leftarrow> note_queued c; ret (ERR_OK, c) }
       }
   }"

definition ursus_console_pending_clear :: "nat option \<Rightarrow> ('x, unit) server" where
  "ursus_console_pending_clear p =
     modify (\<lambda>w. w\<lparr>ursus_console_pending :=
       (if p = None \<or> p = map_option fst (ursus_console_pending w) then None else ursus_console_pending w)\<rparr>)"

text \<open>Whether the control block is closed or aborted makes no difference to the server.\<close>

definition ursus_conn_release :: "nat \<Rightarrow> ursus_conn \<Rightarrow> ('x, unit) server" where
  "ursus_conn_release p c = do {
     ursus_console_pending_clear (Some p);
     set_conn p None;
     when_m (cn_stop_after_response c) (modify (\<lambda>w. w\<lparr>ursus_stop := True\<rparr>))
   }"

definition settle_sent :: "nat \<Rightarrow> ursus_conn \<Rightarrow> ('x, int) server" where
  "settle_sent p c = do {
     (err, c) \<leftarrow> ursus_http_pump p c;
     if err \<noteq> ERR_OK then do { ursus_conn_release p c; ret ERR_ABRT }
     else if cn_all_queued c \<and> cn_acked c \<ge> cn_total_len c then do { ursus_conn_release p c; ret ERR_OK }
     else do { set_conn p (Some c); ret ERR_OK }
   }"

definition ursus_http_sent :: "nat \<Rightarrow> nat \<Rightarrow> ('x, int) server" where
  "ursus_http_sent p len = do {
     arg \<leftarrow> gets (\<lambda>w. ursus_conns w p);
     case arg of
       None \<Rightarrow> ret ERR_OK
     | Some c \<Rightarrow> settle_sent p (c\<lparr>cn_acked := cn_acked c + len\<rparr>)
   }"

definition ursus_http_poll :: "nat \<Rightarrow> ('x, int) server" where
  "ursus_http_poll p = do {
     arg \<leftarrow> gets (\<lambda>w. ursus_conns w p);
     case arg of
       None \<Rightarrow> ret ERR_OK
     | Some c \<Rightarrow> if \<not> cn_response_started c then ret ERR_OK else settle_sent p c
   }"

definition ursus_http_start_response ::
  "nat \<Rightarrow> ursus_conn \<Rightarrow> int \<Rightarrow> string \<Rightarrow> response_body \<Rightarrow> ('x, int \<times> ursus_conn) server" where
  "ursus_http_start_response p c status ctype body = do {
     body_len \<leftarrow> gets (\<lambda>w. length (body_text w body));
     let c = c\<lparr>cn_body := body, cn_body_len := body_len\<rparr>;
     let hdr = http_header status ctype body_len;
     if length hdr \<ge> 320 then ret (ERR_VAL, c)
     else ursus_http_pump p
            (c\<lparr>cn_hdr := hdr, cn_total_len := length hdr + body_len, cn_response_started := True\<rparr>)
   }"

abbreviation json_type :: string where "json_type \<equiv> ''application/json''"
abbreviation text_type :: string where "text_type \<equiv> ''text/plain; charset=utf-8''"

section \<open>Sessions\<close>

fun ursus_upload_kind_name :: "ursus_upload_kind \<Rightarrow> string" where
  "ursus_upload_kind_name URSUS_UPLOAD_FIRMWARE = ''firmware''"
| "ursus_upload_kind_name URSUS_UPLOAD_INITRAMFS = ''initramfs''"
| "ursus_upload_kind_name URSUS_UPLOAD_UBI_PRELOADER = ''ubi-preloader''"
| "ursus_upload_kind_name URSUS_UPLOAD_VANILLA_FIP = ''vanilla-fip''"
| "ursus_upload_kind_name _ = ''ursus-fip''"

text \<open>\<open>ursus_upload_session\<close>: no session for the kind that stands for nothing.\<close>

definition upload_session :: "'x web_world_scheme \<Rightarrow> ursus_upload_kind \<Rightarrow> ursus_upload_session option" where
  "upload_session w kind = (if kind = URSUS_UPLOAD_NONE then None else Some (ursus_uploads w kind))"

definition stage_max :: "ursus_upload_kind \<Rightarrow> nat" where
  "stage_max kind =
     (if kind = URSUS_UPLOAD_FIRMWARE \<or> kind = URSUS_UPLOAD_INITRAMFS then URSUS_STAGE_MAX
      else if kind = URSUS_UPLOAD_UBI_PRELOADER then URSUS_UBI_PRELOADER_MAX else URSUS_FIP_STAGE_MAX)"

definition stage_addr :: "ursus_upload_kind \<Rightarrow> nat" where
  "stage_addr kind =
     (if kind = URSUS_UPLOAD_FIRMWARE \<or> kind = URSUS_UPLOAD_INITRAMFS then URSUS_STAGE_ADDR
      else if kind = URSUS_UPLOAD_UBI_PRELOADER then URSUS_UBI_PRELOADER_ADDR else URSUS_FIP_STAGE_ADDR)"

definition ursus_upload_reject ::
  "nat \<Rightarrow> ursus_conn \<Rightarrow> int \<Rightarrow> string \<Rightarrow> string \<Rightarrow> nat \<Rightarrow> nat \<Rightarrow> ('x, int \<times> ursus_conn) server" where
  "ursus_upload_reject p c status reason_class reason expected got = do {
     set_reply [(''result'', JString ''REJECTED''), (''reason_class'', JString reason_class), (''reason'', JString reason),
                (''expected'', json_uint expected), (''got'', json_uint got)];
     ursus_logf [''UPLOAD ERROR: class='', reason_class, '' reason='', reason, '' expected='', pu expected,
                 '' got='', pu got, [LF]];
     ursus_http_start_response p c status json_type Reply_body
   }"

text \<open>What a new session invalidates, besides replacing its own predecessor.\<close>

definition invalidate_for :: "ursus_upload_kind \<Rightarrow> ('x, unit) server" where
  "invalidate_for kind =
     (if kind = URSUS_UPLOAD_FIRMWARE
      then do {
        ursus_reset_image_state;
        ursus_reset_expert_state;
        set_session URSUS_UPLOAD_INITRAMFS zero_session;
        ursus_log_reset
      }
      else if kind = URSUS_UPLOAD_INITRAMFS
      then do {
        ursus_reset_expert_state;
        ursus_reset_image_state;
        set_session URSUS_UPLOAD_FIRMWARE zero_session
      }
      else if kind = URSUS_UPLOAD_UBI_PRELOADER then modify (\<lambda>w. w\<lparr>ursus_preloader_valid := False\<rparr>)
      else do {
        modify (\<lambda>w. w\<lparr>ursus_fip_upload_valid := False, ursus_vanilla_upload_valid := False\<rparr>);
        set_session (if kind = URSUS_UPLOAD_VANILLA_FIP then URSUS_UPLOAD_URSUS_FIP else URSUS_UPLOAD_VANILLA_FIP)
          zero_session
      })"

definition open_session :: "ursus_upload_kind \<Rightarrow> nat \<Rightarrow> string \<Rightarrow> string \<Rightarrow> ursus_upload_session" where
  "open_session kind declared generation filename =
     \<lparr>us_kind = kind, us_addr = stage_addr kind, us_max_len = stage_max kind, us_total = declared, us_received = 0,
      us_active = True, us_generation = snprintf URSUS_GENERATION_MAX generation,
      us_filename = snprintf URSUS_FILENAME_MAX filename\<rparr>"

definition ursus_begin_upload :: "nat \<Rightarrow> ursus_conn \<Rightarrow> ursus_upload_kind \<Rightarrow> ('x, int \<times> ursus_conn) server" where
  "ursus_begin_upload p c kind =
     (let h = cn_reqhdr c;
          declared = (case ursus_parse_header_ulong h ''X-Ursus-Total'' of Some v \<Rightarrow> v | None \<Rightarrow> 0);
          generation = ursus_parse_header_value h ''X-Ursus-Generation'' URSUS_GENERATION_MAX;
          filename = Option.bind (ursus_parse_header_value h ''X-Ursus-Filename'' (URSUS_FILENAME_MAX * 3))
                       (\<lambda>encoded. ursus_decode_filename encoded URSUS_FILENAME_MAX)
      in if declared = 0
         then ursus_upload_reject p c 400 URSUS_RC_UPLOAD_INCOMPLETE ''missing or invalid declared size'' 1 declared
         else if declared > stage_max kind
         then ursus_upload_reject p c 413 URSUS_RC_IMAGE_TOO_LARGE ''declared image exceeds staging capacity''
                (stage_max kind) declared
         else case generation of
                None \<Rightarrow> ursus_upload_reject p c 400 URSUS_RC_UPLOAD_INCOMPLETE ''missing or invalid upload generation'' 0 0
              | Some g \<Rightarrow>
                  if \<not> ursus_generation_valid g
                  then ursus_upload_reject p c 400 URSUS_RC_UPLOAD_INCOMPLETE ''missing or invalid upload generation'' 0 0
                  else case filename of
                         None \<Rightarrow> ursus_upload_reject p c 400 URSUS_RC_UPLOAD_INCOMPLETE ''missing or invalid filename'' 0 0
                       | Some f \<Rightarrow> do {
                           let u = open_session kind declared g f;
                           set_session kind u;
                           invalidate_for kind;
                           ursus_logf [''UPLOAD BEGIN: kind='', ursus_upload_kind_name kind, '' generation='', us_generation u,
                             '' filename='', us_filename u, '' declared='', pu declared, '' received=0'', [LF]];
                           set_reply [(''result'', JString ''UPLOAD_READY''), (''reason_class'', JString URSUS_RC_OK),
                             (''generation'', JString (us_generation u)), (''filename'', JString (us_filename u)),
                             (''declared_size'', json_uint declared), (''received'', JPlain ''0'')];
                           ursus_http_start_response p c 200 json_type Reply_body
                         })"

definition ursus_prepare_chunk :: "nat \<Rightarrow> ursus_conn \<Rightarrow> ursus_upload_kind \<Rightarrow> ('x, int \<times> ursus_conn) server" where
  "ursus_prepare_chunk p c kind = do {
     session \<leftarrow> gets (\<lambda>w. upload_session w kind);
     let h = cn_reqhdr c;
     let n = ursus_parse_content_length h;
     let c = c\<lparr>cn_content_len := n\<rparr>;
     let u = (case session of Some u \<Rightarrow> u | None \<Rightarrow> zero_session);
     let off' = ursus_parse_header_ulong h ''X-Ursus-Offset'';
     let declared' = ursus_parse_header_ulong h ''X-Ursus-Total'';
     let generation' = ursus_parse_header_value h ''X-Ursus-Generation'' URSUS_GENERATION_MAX;
     let off = (case off' of Some v \<Rightarrow> v | None \<Rightarrow> 0);
     let declared = (case declared' of Some v \<Rightarrow> v | None \<Rightarrow> 0);
     let generation = (case generation' of Some g \<Rightarrow> g | None \<Rightarrow> []);
     if n = 0 \<or> n > URSUS_UPLOAD_CHUNK_MAX
     then ursus_upload_reject p c 413 URSUS_RC_UPLOAD_INCOMPLETE ''chunk must be 1..65536 bytes'' URSUS_UPLOAD_CHUNK_MAX n
     else if off' = None \<or> declared' = None \<or> generation' = None
     then ursus_upload_reject p c 400 URSUS_RC_UPLOAD_INCOMPLETE ''chunk headers are incomplete'' (us_received u) off
     else if session = None \<or> \<not> us_active u
     then ursus_upload_reject p c 409 URSUS_RC_UPLOAD_INCOMPLETE ''no active upload generation; begin upload first'' 0 off
     else if generation \<noteq> us_generation u
     then ursus_upload_reject p c 409 URSUS_RC_UPLOAD_INCOMPLETE ''stale or wrong upload generation'' (us_received u) off
     else if declared \<noteq> us_total u
     then ursus_upload_reject p c 409 URSUS_RC_UPLOAD_INCOMPLETE ''declared size changed during upload'' (us_total u) declared
     else if off \<noteq> us_received u
     then ursus_upload_reject p c 409 URSUS_RC_UPLOAD_INCOMPLETE ''unexpected chunk offset'' (us_received u) off
     else if off > declared \<or> n > declared - off
     then ursus_upload_reject p c 413 URSUS_RC_UPLOAD_INCOMPLETE ''chunk exceeds declared image size'' declared (off + n)
     else if off + n > us_max_len u
     then ursus_upload_reject p c 413 URSUS_RC_IMAGE_TOO_LARGE ''chunk exceeds staging capacity'' (us_max_len u) (off + n)
     else ret (ERR_OK, c\<lparr>cn_is_upload := True, cn_upload_kind := kind, cn_upload_addr := us_addr u,
                         cn_upload_offset := off, cn_upload_total := declared,
                         cn_upload_generation := snprintf URSUS_GENERATION_MAX generation\<rparr>)
   }"

section \<open>What responding leaves alone\<close>

definition ignores_reply :: "('x web_world_scheme \<Rightarrow> 'v) \<Rightarrow> bool" where
  [view_defs]: "ignores_reply f =
     ((\<forall>w v. f (w\<lparr>tcp_out := v\<rparr>) = f w) \<and> (\<forall>w v. f (w\<lparr>ursus_web_log := v\<rparr>) = f w)
      \<and> (\<forall>w v. f (w\<lparr>ursus_reply_body := v\<rparr>) = f w)
      \<and> (\<forall>w v u. f (w\<lparr>ursus_reboot_response_queued := v, ursus_reboot_response_queued_at := u\<rparr>) = f w))"

lemma keeps_logf:
  fixes f :: "'x image_world_scheme \<Rightarrow> 'v"
  assumes "\<And>w v. f (w\<lparr>ursus_web_log := v\<rparr>) = f w"
  shows "keeps f (ursus_logf l)"
  unfolding ursus_logf_def using assms by (intro keeps_intros) simp

lemma keeps_reply_logf [keeps_intros]: "ignores_reply f \<Longrightarrow> keeps f (ursus_logf l)"
  by (intro keeps_logf) (simp add: ignores_reply_def)

lemma keeps_set_reply [keeps_intros]: "ignores_reply f \<Longrightarrow> keeps f (set_reply fs)"
  unfolding set_reply_def by (intro keeps_intros) (simp add: ignores_reply_def)

lemma keeps_pump_loop:
  assumes "ignores_time f" "ignores_reply f"
  shows "keeps f (pump_loop n p c wrote)"
proof (induction n arbitrary: c wrote)
  case (Suc n)
  have "f (w\<lparr>tcp_out := v\<rparr>) = f w" for w v
    using assms(2) by (simp add: ignores_reply_def)
  then show ?case
    using assms Suc unfolding pump_loop.simps Let_def by (intro keeps_intros) simp_all
qed (simp add: keeps_return)

lemma keeps_note_queued: "ignores_reply f \<Longrightarrow> keeps f (note_queued c)"
  unfolding note_queued_def get_timer_def by (intro keeps_intros) (simp_all add: ignores_reply_def)

lemma keeps_http_pump [keeps_intros]:
  "ignores_time f \<Longrightarrow> ignores_reply f \<Longrightarrow> keeps f (ursus_http_pump p c)"
  unfolding ursus_http_pump_def by (intro keeps_intros keeps_pump_loop keeps_note_queued)

lemma keeps_start_response [keeps_intros]:
  "ignores_time f \<Longrightarrow> ignores_reply f \<Longrightarrow> keeps f (ursus_http_start_response p c status ctype body)"
  unfolding ursus_http_start_response_def Let_def by (intro keeps_intros)

lemma keeps_upload_reject [keeps_intros]:
  "ignores_time f \<Longrightarrow> ignores_reply f \<Longrightarrow> keeps f (ursus_upload_reject p c status reason_class reason expected got)"
  unfolding ursus_upload_reject_def by (intro keeps_intros)

section \<open>What is handed to the TCP stack\<close>

text \<open>The whole response of a connection, and how much of it has been handed over.\<close>

definition response_text :: "'x web_world_scheme \<Rightarrow> ursus_conn \<Rightarrow> string" where
  "response_text w c = cn_hdr c @ body_bytes w (cn_body c) 0 (cn_body_len c)"

definition handed :: "ursus_conn \<Rightarrow> nat" where
  "handed c = cn_hdr_off c + cn_body_off c"

definition queue_ok :: "ursus_conn \<Rightarrow> bool" where
  "queue_ok c \<longleftrightarrow> cn_hdr_off c \<le> length (cn_hdr c) \<and> cn_body_off c \<le> cn_body_len c
     \<and> (0 < cn_body_off c \<longrightarrow> cn_hdr_off c = length (cn_hdr c))"

definition pump_view :: "ursus_conn \<Rightarrow> 'x web_world_scheme \<Rightarrow> string \<times> network" where
  "pump_view c w = (response_text w c, net w)"

lemma length_response_text: "length (response_text w c) = length (cn_hdr c) + cn_body_len c"
  by (simp add: response_text_def body_bytes_def)

lemma body_bytes_part:
  "off + n \<le> cn_body_len c \<Longrightarrow> cn_hdr_off c = length (cn_hdr c) \<Longrightarrow>
   body_bytes w (cn_body c) off n = take n (drop (length (cn_hdr c) + off) (response_text w c))"
  by (rule nth_equalityI) (auto simp: response_text_def body_bytes_def)

lemma header_part:
  "cn_hdr_off c + n \<le> length (cn_hdr c) \<Longrightarrow>
   take n (drop (cn_hdr_off c) (cn_hdr c)) = take n (drop (cn_hdr_off c) (response_text w c))"
  by (simp add: response_text_def)

definition pump_result :: "(int \<times> ursus_conn) + (ursus_conn \<times> bool) \<Rightarrow> ursus_conn" where
  "pump_result r = (case r of Inl (_, c) \<Rightarrow> c | Inr (c, _) \<Rightarrow> c)"

lemma pump_result_simps [simp]: "pump_result (Inl (e, c)) = c" "pump_result (Inr (c, b)) = c"
  by (simp_all add: pump_result_def)

text \<open>The connection apart from its two offsets.\<close>

definition rewound :: "ursus_conn \<Rightarrow> ursus_conn" where
  "rewound c = c\<lparr>cn_hdr_off := 0, cn_body_off := 0\<rparr>"

lemma rewound_fields:
  "cn_hdr (rewound c) = cn_hdr c" "cn_body_len (rewound c) = cn_body_len c" "cn_all_queued (rewound c) = cn_all_queued c"
  by (simp_all add: rewound_def)

lemma rewound_text: "rewound c = rewound c' \<Longrightarrow> response_text w c = response_text w c'"
proof -
  have "response_text w c = response_text w (rewound c)" for c by (simp add: rewound_def response_text_def)
  then show "rewound c = rewound c' \<Longrightarrow> response_text w c = response_text w c'" by metis
qed

definition progress :: "'x web_world_scheme \<Rightarrow> nat \<Rightarrow> ursus_conn \<Rightarrow> ursus_conn \<Rightarrow> 'x web_world_scheme \<Rightarrow> bool" where
  "progress w p c c' w' \<longleftrightarrow> queue_ok c' \<and> handed c \<le> handed c' \<and> rewound c' = rewound c
     \<and> tcp_out w' p = tcp_out w p @ take (handed c' - handed c) (drop (handed c) (response_text w c))
     \<and> response_text w' c = response_text w c"

lemma progress_refl:
  "queue_ok c \<Longrightarrow> response_text w' c = response_text w c \<Longrightarrow> tcp_out w' p = tcp_out w p \<Longrightarrow> progress w p c c w'"
  by (simp add: progress_def)

lemma progress_trans:
  assumes "progress w p c c1 w1" "progress w1 p c1 c2 w2"
  shows "progress w p c c2 w2"
proof -
  have r: "response_text v c1 = response_text v c" for v :: "'a web_world_scheme"
    using assms(1) by (intro rewound_text) (simp add: progress_def)
  let ?a = "handed c" and ?b = "handed c1" and ?d = "handed c2" and ?t = "response_text w c"
  have le: "?a \<le> ?b" "?b \<le> ?d" using assms by (simp_all add: progress_def)
  have t: "take (?b - ?a) (drop ?a ?t) @ take (?d - ?b) (drop ?b ?t) = take (?d - ?a) (drop ?a ?t)"
    using le take_add [of "?b - ?a" "?d - ?b" "drop ?a ?t"] by simp
  have "tcp_out w2 p = tcp_out w p @ take (?b - ?a) (drop ?a ?t) @ take (?d - ?b) (drop ?b ?t)"
    using assms r by (simp add: progress_def)
  then show ?thesis unfolding t using assms le r by (simp add: progress_def)
qed

lemma progress_header:
  assumes "queue_ok c" "cn_hdr_off c < length (cn_hdr c)" "k \<le> length (cn_hdr c) - cn_hdr_off c"
    "tcp_out w' p = tcp_out w p @ take k (drop (cn_hdr_off c) (cn_hdr c))" "response_text w' c = response_text w c"
  shows "progress w p c (c\<lparr>cn_hdr_off := cn_hdr_off c + k\<rparr>) w'"
proof -
  have "cn_body_off c = 0" using assms(1,2) by (auto simp: queue_ok_def)
  moreover have "take k (drop (cn_hdr_off c) (cn_hdr c)) = take k (drop (cn_hdr_off c) (response_text w c))"
    using assms(2,3) by (intro header_part) simp
  ultimately show ?thesis
    using assms unfolding progress_def handed_def queue_ok_def rewound_def by simp
qed

lemma progress_body:
  assumes "queue_ok c" "\<not> cn_hdr_off c < length (cn_hdr c)" "cn_body_off c < cn_body_len c" "k \<le> cn_body_len c - cn_body_off c"
    "tcp_out w' p = tcp_out w p @ body_bytes w (cn_body c) (cn_body_off c) k" "response_text w' c = response_text w c"
  shows "progress w p c (c\<lparr>cn_body_off := cn_body_off c + k\<rparr>) w'"
proof -
  have h: "cn_hdr_off c = length (cn_hdr c)" using assms(1,2) by (simp add: queue_ok_def)
  then have "body_bytes w (cn_body c) (cn_body_off c) k = take k (drop (length (cn_hdr c) + cn_body_off c) (response_text w c))"
    using assms(3,4) by (intro body_bytes_part) simp_all
  then show ?thesis
    using assms h unfolding progress_def handed_def queue_ok_def rewound_def by simp
qed

lemma response_text_updates [simp]:
  "response_text (w\<lparr>tick := t, clock := u\<rparr>) c = response_text w c" "response_text (w\<lparr>tcp_out := v\<rparr>) c = response_text w c"
  "body_bytes (w\<lparr>tick := t, clock := u\<rparr>) b off n = body_bytes w b off n"
  "body_bytes (w\<lparr>tcp_out := v\<rparr>) b off n = body_bytes w b off n"
  by (simp_all add: response_text_def body_bytes_def body_text_def cong: response_body.case_cong)

lemma wp_pump_loop: "queue_ok c \<Longrightarrow> wp (pump_loop n p c wrote) (\<lambda>r w'. progress w p c (pump_result r) w') w"
proof (induction n arbitrary: c wrote w)
  case 0
  then show ?case by (simp add: progress_refl)
next
  case (Suc n)
  have refl: "progress w p c c w" "progress w p c c (w\<lparr>tick := t, clock := u\<rparr>)" for t u
    using Suc.prems by (auto intro!: progress_refl)
  have next_turn: "wp (pump_loop n p c1 True) (\<lambda>r w'. progress w p c (pump_result r) w') w1" if "progress w p c c1 w1" for c1 w1
    using that by (intro wp_mono [OF Suc.IH]) (auto simp: progress_def [of w p c c1 w1] intro: progress_trans [OF that])
  show ?case
    using Suc.prems
    by (auto simp: Let_def refl intro!: next_turn progress_header progress_body)
qed

text \<open>The result of the pump: the next part of the response is out, and queued means all of it.\<close>

definition pumped :: "'x web_world_scheme \<Rightarrow> nat \<Rightarrow> ursus_conn \<Rightarrow> ursus_conn \<Rightarrow> string \<Rightarrow> bool" where
  "pumped w p c c' out \<longleftrightarrow>
     out = tcp_out w p @ take (handed c' - handed c) (drop (handed c) (response_text w c))
     \<and> handed c \<le> handed c' \<and> queue_ok c' \<and> cn_hdr c' = cn_hdr c \<and> cn_body_len c' = cn_body_len c
     \<and> (cn_all_queued c' \<longrightarrow> handed c' = length (response_text w c))"

lemma progress_pumped:
  assumes "progress w p c c' w'" "cn_all_queued c \<longrightarrow> handed c = length (response_text w c)"
  shows "pumped w p c c' (tcp_out w' p)"
proof -
  have f: "cn_hdr c' = cn_hdr c" "cn_body_len c' = cn_body_len c" "cn_all_queued c' = cn_all_queued c"
    using assms(1) unfolding progress_def by (metis rewound_fields)+
  have "handed c' \<le> length (response_text w c)"
    using assms(1) f by (simp add: progress_def queue_ok_def handed_def length_response_text)
  then show ?thesis using assms f by (auto simp: pumped_def progress_def)
qed

text \<open>A stack that has room and reports no errors.\<close>

definition willing :: "network \<Rightarrow> bool" where
  "willing nw \<longleftrightarrow> (\<forall>t. 0 < tcp_sndbuf nw t mod 2 ^ 16 \<and> tcp_write nw t = ERR_OK \<and> tcp_output nw t = ERR_OK)"

lemma willing_output: "willing nw \<Longrightarrow> tcp_output nw t = ERR_OK"
  by (simp add: willing_def)

lemma unsent_0: "unsent c = 0 \<longleftrightarrow> \<not> (cn_hdr_off c < length (cn_hdr c) \<or> cn_body_off c < cn_body_len c)"
  by (auto simp: unsent_def)

lemma unsent_less:
  "cn_hdr_off c < length (cn_hdr c) \<Longrightarrow> 0 < k \<Longrightarrow> unsent (c\<lparr>cn_hdr_off := cn_hdr_off c + k\<rparr>) < unsent c"
  "cn_body_off c < cn_body_len c \<Longrightarrow> 0 < k \<Longrightarrow> unsent (c\<lparr>cn_body_off := cn_body_off c + k\<rparr>) < unsent c"
  by (simp_all add: unsent_def)

definition emptied :: "network \<Rightarrow> (int \<times> ursus_conn) + (ursus_conn \<times> bool) \<Rightarrow> 'x web_world_scheme \<Rightarrow> bool" where
  "emptied nw r w \<longleftrightarrow> net w = nw \<and> (\<exists>c b. r = Inr (c, b) \<and> unsent c = 0)"

lemma wp_pump_loop_willing:
  fixes w :: "'x web_world_scheme"
  assumes "willing nw"
  shows "net w = nw \<Longrightarrow> unsent c \<le> n \<Longrightarrow> wp (pump_loop n p c wrote) (emptied nw) w"
proof (induction n arbitrary: c wrote w)
  case 0
  then show ?case by (simp add: emptied_def)
next
  case (Suc n)
  have go: "0 < tcp_sndbuf nw t mod 65536" "\<not> 65536 dvd tcp_sndbuf nw t" "tcp_write nw t = ERR_OK" for t
    using assms [unfolded willing_def, rule_format, of t] by (auto simp: dvd_eq_mod_eq_0)
  have step: "wp (pump_loop n p c1 True) (emptied nw) w1"
    if "net w1 = nw" "unsent c1 < unsent c" for c1 and w1 :: "'x web_world_scheme"
    using that Suc.prems(2) by (intro Suc.IH) simp_all
  show ?case
  proof (cases "unsent c = 0")
    case True
    then show ?thesis using Suc.prems(1) by (simp add: unsent_0 emptied_def)
  next
    case False
    then show ?thesis
      by (auto simp: Let_def Suc.prems(1) unsent_0 go intro!: step unsent_less)
  qed
qed

text \<open>
  C28: what one call of the pump hands to the TCP stack is the next part of the response, header and body,
  whatever the stack accepts and whenever it fails; the response counts as queued only when all of it has
  been handed over, and with a stack that has room and reports no errors one call hands over all of it.
\<close>

theorem pump_hands_over_response:
  assumes "queue_ok c" "cn_all_queued c \<longrightarrow> handed c = length (response_text w c)"
  shows "wp (ursus_http_pump p c) (\<lambda>(err, c') w'. pumped w p c c' (tcp_out w' p)
     \<and> (willing (net w) \<longrightarrow> err = ERR_OK \<and> cn_all_queued c')) w"
proof -
  have note': "wp (note_queued c1) (\<lambda>c2 w'. pumped w p c c2 (tcp_out w' p)
      \<and> (unsent c1 = 0 \<longrightarrow> cn_all_queued c2)) w1" if "pumped w p c c1 (tcp_out w1 p)" for c1 w1
    using that by (auto simp: note_queued_def get_timer_def ursus_logf_def pumped_def handed_def queue_ok_def
        length_response_text unsent_0)
  have loop: "wp (pump_loop (unsent c) p c False) (\<lambda>r w'. progress w p c (pump_result r) w'
      \<and> (willing (net w) \<longrightarrow> emptied (net w) r w')) w"
    using wp_pump_loop_willing [of "net w" w c "unsent c" p False] wp_pump_loop [OF assms(1), of "unsent c" p False w]
    by (cases "willing (net w)") (auto intro: wp_conj)
  show ?thesis
    unfolding ursus_http_pump_def
  proof (rule wp_bindI [OF loop], goal_cases)
    case (1 r w1)
    note out = progress_pumped [OF conjunct1 [OF 1] assms(2)]
    show ?case
    proof (cases r)
      case (Inl e)
      then show ?thesis using out 1 by (cases e) (simp add: emptied_def)
    next
      case (Inr e)
      then show ?thesis using out 1
        by (cases e) (auto simp: emptied_def willing_output intro!: wp_mono [OF note'])
    qed
  qed
qed

section \<open>A server with one connection\<close>

definition sample_net :: network where
  "sample_net = \<lparr>tcp_sndbuf = (\<lambda>_. 536), tcp_write = (\<lambda>_. ERR_OK), tcp_output = (\<lambda>_. ERR_OK)\<rparr>"

definition sample_web :: web_world where
  "sample_web = image_world.extend sample_image
     (web_world.fields (\<lambda>_. zero_session) False False False (\<lambda>_. None) 0 [] [] [] (\<lambda>_ _. NUL) None False False False 0
        (\<lambda>_. []) sample_net)"

definition sample_conn :: ursus_conn where
  "sample_conn = zero_conn\<lparr>cn_hdr := http_header 200 text_type 2, cn_body := Constant_body ''ok'', cn_body_len := 2\<rparr>"

lemma sample_web_simps [simp]:
  "ram sample_web = sample_tar" "ursus_current_layout sample_web = ''STOCK''" "ursus_uploads sample_web = (\<lambda>_. zero_session)"
  "ursus_conns sample_web = (\<lambda>_. None)" "net sample_web = sample_net" "tcp_out sample_web = (\<lambda>_. [])"
  by (simp_all add: sample_web_def image_world.extend_def sample_image_def dispatch_world.extend_def
      image_world.fields_def web_world.fields_def)

theorem pump_hands_over_response_witness:
  "wp (ursus_http_pump 1 sample_conn) (\<lambda>(err, c') w'. pumped sample_web 1 sample_conn c' (tcp_out w' 1)
     \<and> err = ERR_OK \<and> cn_all_queued c') sample_web"
proof -
  have "willing (net sample_web)" by (simp add: willing_def sample_net_def)
  then show ?thesis
    using pump_hands_over_response [of sample_conn sample_web 1]
    by (simp add: queue_ok_def sample_conn_def zero_conn_def)
qed

end
