(* ===== verification/Spec2Isabelle.thy ===== *)
theory Spec2Isabelle
  imports Safe_Gpio Fip_Safety Fit_Soundness Migration_Safety Web_Conn
begin

text \<open>
  A verification development for UrsusBoot, a U-Boot based boot loader for the Nokia XG-040G-MD
  (Airoha AN7581).  Paths below are relative to \<open>src/src/u-boot/\<close>.

  \<^bold>\<open>The program.\<close>  When the board starts, the dispatcher (\<open>cmd/ursusdispatch.c\<close>) looks at the reset
  button and at the flash and starts the installed system: OpenWrt from a UBI volume, OpenWrt on the
  vendor's layout, or the vendor firmware from one of its slots (\<open>cmd/ursusstock.c\<close>).  If the button is
  held, or if nothing can be started, it enters the recovery server (\<open>cmd/ursusweb.c\<close>).  The server takes
  uploads over HTTP in chunks, classifies and checks the staged file, starts one of three engines, and then calls its step function until it is done: the update of the OpenWrt image and the
  migration from the vendor's layout to UBI (\<open>cmd/ursusubi.c\<close>), and the update of the boot loader itself
  (\<open>cmd/ursusupdate.c\<close>).  The engines drive the flash through the \<open>mtd\<close> and \<open>ubi\<close> commands, the MTD core
  and the UBI volume layer.  The lights on the front panel (\<open>cmd/ursusled.c\<close>) go through a GPIO driver
  that only exposes the lines that are safe (\<open>drivers/gpio/ursus_an7581_safe_gpio.c\<close>).

  \<^bold>\<open>How programs are modelled.\<close>  A C function is a program in the state monad; its state is an
  extensible record that grows from theory to theory (\<open>world\<close>, \<open>ubi_world\<close>, \<open>fip_world\<close>, \<open>led_world\<close>,
  \<open>dispatch_world\<close>, \<open>image_world\<close>, \<open>web_world\<close>), one field for every static variable.  Results keep the sign and the value of the C
  result.  What lies below the modelled code (the NAND chip and its driver, the eraseblock association
  and wear levelling of UBI, the heap, the LED driver, the TCP stack, time) is an oracle in the field \<open>orc\<close>: every
  operation consumes the next number of the counter \<open>tick\<close>, and the oracle says whether it fails, what
  it leaves on the medium and how much time passes.  The theorems hold for every oracle, so for every
  pattern of faults, and for a power loss at any point.

  \<^bold>\<open>Theories.\<close>
  \<^item> \<open>Ursus_Prelude\<close>: bytes, error numbers, byte fields, and the calculus for state-monad programs:
    \<open>wp\<close> (weakest preconditions as rewrite rules), \<open>keeps\<close> (frames), \<open>ens\<close>.
  \<^item> \<open>Machine\<close>, \<open>Mtd\<close>: RAM, chip, MTD devices and the \<open>mtd\<close> command (\<open>drivers/mtd/mtdcore.c\<close>, \<open>mtdpart.c\<close>,
    \<open>cmd/mtd.c\<close>), and the raw flash helpers of \<open>cmd/ursusubi.c\<close>.
  \<^item> \<open>Ubi_Table\<close>, \<open>Ubi_Volumes\<close>: the volume table, creation, removal, renaming, update and reading of
    volumes, attaching, and the \<open>ubi\<close> command (\<open>drivers/mtd/ubi\<close>, \<open>cmd/ubi.c\<close>).  \<open>Ubi_Frames\<close>, \<open>Ubi_Content\<close>,
    \<open>Ubi_Naming\<close>, \<open>Ubi_Attach\<close>, \<open>Ubi_Track\<close>: which volume each operation may touch, what a volume
    holds, the uniqueness of names, what attaching establishes, and how contents follow a name through a
    sequence of operations.
  \<^item> \<open>Env_Text\<close>: numbers in environment variables.  \<open>Crc32\<close>: the three implementations of CRC-32.
    \<open>Fdt\<close>: reading flattened device trees (\<open>scripts/dtc/libfdt\<close>).  \<open>Fip\<close>: validation of boot loader images.
  \<^item> \<open>Staged\<close>: the locale \<open>staged_machine\<close> for the three engines, interpreted in \<open>Fip_Update\<close>,
    \<open>Fit_Update\<close> and \<open>Migration\<close>; its lemmas bound the number of turns of the loops that drive them.
  \<^item> \<open>Ubi_Engine\<close>, \<open>Fit_Update\<close>, \<open>Migration\<close>, \<open>Fip_Update\<close>: the engines, one definition per stage.
    \<open>Fip_Soundness\<close>, \<open>Fip_Safety\<close>, \<open>Fit_Soundness\<close>, \<open>Migration_Safety\<close>: their invariants, that completion
    means the right bytes on the flash, and that the active copy is kept until promotion.
  \<^item> \<open>Stock_Boot\<close>, \<open>Led\<close>, \<open>Dispatch\<close>, \<open>Safe_Gpio\<close>: booting the vendor firmware, the lights, the dispatcher
    and the GPIO driver.
  \<^item> \<open>Web_Http\<close>: request headers, file names, generations, log and response headers of the recovery server.
    \<open>Fit_Image\<close>: the hash check of FITs (\<open>boot/image-fit.c\<close>, \<open>common/hash.c\<close>) and the part of libfdt it needs.
    \<open>Web_Image\<close>, \<open>Web_Accept\<close>: the classification of staged files, and what acceptance means.
    \<open>Web_Conn\<close>: connections, upload sessions, the requests that open an upload and announce a chunk,
    and the pump that hands responses to the TCP stack.

  \<^bold>\<open>Bounds and fuel.\<close>  The loops that drive an engine take fuel: \<open>fip_fuel\<close> = 217, \<open>fit_fuel\<close> = 223 and
  \<open>mig_fuel\<close> = 630 turns of ten milliseconds are enough for every run, by the rank of the stage and the time a
  stage is held; \<open>debounce_fuel\<close> = 40 turns are enough for the button.  Sums of numbers that are read
  from flash are taken modulo \<open>2 ^ 64\<close> where the code does not bound them first.  The pump of a response
  runs at most as many turns as there are unsent bytes, since every turn that does not end it sends one.

  \<^bold>\<open>Not modelled.\<close>  The routes, the main loop, the probing of the device and the status page of the recovery
  server; the dispatcher takes the server as a parameter.  Console output and progress texts; the NAND driver, the eraseblock association and
  wear levelling of UBI (\<open>eba.c\<close>, \<open>wl.c\<close>, \<open>attach.c\<close>), which are the oracle; the hash functions, LZMA and
  the start of a kernel (\<open>bootm\<close>), which are parameters; all of U-Boot that UrsusBoot does not use.
\<close>

end
